(* ===== verification/Rust_Str.thy ===== *)
theory Rust_Str
  imports Prelude
begin

text \<open>
  Rust's \<open>str\<close> as the list of its UTF-8 bytes (an Isabelle \<open>char\<close> is a byte).
  Every pattern the program searches for is itself UTF-8, so prefix, suffix,
  substring, split and replace agree with Rust's; lengths and indices are byte
  lengths and byte indices, as in Rust. White space is Unicode white space, written
  as the byte sequences that encode it.
\<close>

section \<open>Characters that a literal cannot spell\<close>

abbreviation SQ :: char where "SQ \<equiv> CHR 0x27"
abbreviation DQ :: char where "DQ \<equiv> CHR 0x22"
abbreviation BSLASH :: char where "BSLASH \<equiv> CHR 0x5C"
abbreviation CR :: char where "CR \<equiv> CHR 0x0D"
abbreviation LF :: char where "LF \<equiv> CHR 0x0A"

abbreviation byte :: "char \<Rightarrow> nat" where "byte c \<equiv> of_char c"

section \<open>Prefixes and suffixes\<close>

fun strip_prefix :: "string \<Rightarrow> string \<Rightarrow> string option" where
  "strip_prefix [] s = Some s"
| "strip_prefix (p # ps) [] = None"
| "strip_prefix (p # ps) (c # cs) = (if p = c then strip_prefix ps cs else None)"

definition starts_with :: "string \<Rightarrow> string \<Rightarrow> bool" where
  "starts_with s p = (strip_prefix p s \<noteq> None)"

definition strip_suffix :: "string \<Rightarrow> string \<Rightarrow> string option" where
  "strip_suffix p s = map_option rev (strip_prefix (rev p) (rev s))"

definition ends_with :: "string \<Rightarrow> string \<Rightarrow> bool" where
  "ends_with s p = (strip_suffix p s \<noteq> None)"

lemma strip_prefix_Some_iff [str_simps]: "strip_prefix p s = Some r \<longleftrightarrow> s = p @ r"
  by (induction p s rule: strip_prefix.induct) auto

lemma strip_prefix_append [simp]: "strip_prefix p (p @ r) = Some r"
  by (simp add: strip_prefix_Some_iff)

lemma strip_prefix_None_iff: "strip_prefix p s = None \<longleftrightarrow> (\<nexists>r. s = p @ r)"
  using strip_prefix_Some_iff [of p s] by (cases "strip_prefix p s") auto

lemma strip_prefix_appendI:
  "strip_prefix p s = Some r \<Longrightarrow> strip_prefix p (s @ t) = Some (r @ t)"
  by (simp add: strip_prefix_Some_iff)

lemma starts_with_iff: "starts_with s p \<longleftrightarrow> (\<exists>r. s = p @ r)"
  by (simp add: starts_with_def strip_prefix_None_iff)

lemma starts_with_Nil [simp]: "starts_with s []"
  by (simp add: starts_with_def)

lemma strip_suffix_Some_iff [str_simps]: "strip_suffix p s = Some r \<longleftrightarrow> s = r @ p"
proof
  assume "strip_suffix p s = Some r"
  then obtain t where "rev s = rev p @ t" "r = rev t"
    by (auto simp: strip_suffix_def strip_prefix_Some_iff)
  then have "s = rev (rev p @ t)" by (metis rev_rev_ident)
  then show "s = r @ p" using \<open>r = rev t\<close> by simp
next
  assume "s = r @ p"
  then show "strip_suffix p s = Some r"
    by (simp add: strip_suffix_def)
qed

lemma strip_suffix_append [simp]: "strip_suffix p (r @ p) = Some r"
  by (simp add: strip_suffix_Some_iff)

lemma strip_suffix_None_iff: "strip_suffix p s = None \<longleftrightarrow> (\<nexists>r. s = r @ p)"
  using strip_suffix_Some_iff [of p s] by (cases "strip_suffix p s") auto

lemma ends_with_iff: "ends_with s p \<longleftrightarrow> (\<exists>r. s = r @ p)"
  by (simp add: ends_with_def strip_suffix_None_iff)

section \<open>Searching and splitting\<close>

text \<open>\<open>find\<close>: the byte index of the first occurrence of a pattern.\<close>

fun str_find :: "string \<Rightarrow> string \<Rightarrow> nat option" where
  "str_find p [] = (if p = [] then Some 0 else None)"
| "str_find p (c # cs) =
     (if starts_with (c # cs) p then Some 0 else map_option Suc (str_find p cs))"

text \<open>\<open>split_once\<close>: what stands before and after the first occurrence.\<close>

fun split_once :: "string \<Rightarrow> string \<Rightarrow> (string \<times> string) option" where
  "split_once p [] = (if p = [] then Some ([], []) else None)"
| "split_once p (c # cs) =
     (case strip_prefix p (c # cs) of
        Some r \<Rightarrow> Some ([], r)
      | None \<Rightarrow> map_option (\<lambda>(a, b). (c # a, b)) (split_once p cs))"

definition str_contains :: "string \<Rightarrow> string \<Rightarrow> bool" where
  "str_contains s p = (str_find p s \<noteq> None)"

text \<open>\<open>rfind\<close> and \<open>rsplit_once\<close> with a character: the last occurrence.\<close>

definition rfind_char :: "char \<Rightarrow> string \<Rightarrow> nat option" where
  "rfind_char c s = map_option (\<lambda>i. length s - Suc i) (position ((=) c) (rev s))"

definition rsplit_once_char :: "char \<Rightarrow> string \<Rightarrow> (string \<times> string) option" where
  "rsplit_once_char c s = map_option (\<lambda>i. (take i s, drop (Suc i) s)) (rfind_char c s)"

text \<open>\<open>split\<close> on a character: always at least one part.\<close>

fun split_char :: "char \<Rightarrow> string \<Rightarrow> string list" where
  "split_char d [] = [[]]"
| "split_char d (c # cs) =
     (if c = d then [] # split_char d cs
      else (case split_char d cs of p # ps \<Rightarrow> (c # p) # ps | [] \<Rightarrow> [[c]]))"

lemma split_once_SomeD: "split_once p s = Some (a, b) \<Longrightarrow> s = a @ p @ b"
proof (induction p s arbitrary: a b rule: split_once.induct)
  case (1 p)
  then show ?case by (auto split: if_splits)
next
  case (2 p c cs)
  then show ?case
    by (cases "strip_prefix p (c # cs)") (auto simp: strip_prefix_Some_iff)
qed

lemma split_once_None_iff: "split_once p s = None \<longleftrightarrow> (\<nexists>a b. s = a @ p @ b)"
proof (induction p s rule: split_once.induct)
  case (1 p)
  then show ?case by auto
next
  case (2 p c cs)
  show ?case
  proof (cases "strip_prefix p (c # cs)")
    case (Some r)
    then have "c # cs = [] @ p @ r" by (simp add: strip_prefix_Some_iff)
    with Some show ?thesis by (metis option.simps(3,5) split_once.simps(2))
  next
    case None
    have *: "(\<exists>a b. c # cs = a @ p @ b) \<longleftrightarrow> (\<exists>a b. cs = a @ p @ b)"
    proof
      assume "\<exists>a b. c # cs = a @ p @ b"
      then obtain a b where ab: "c # cs = a @ p @ b" by blast
      with None have "a \<noteq> []" by (auto simp: strip_prefix_None_iff)
      then obtain a' where "a = c # a'" using ab by (cases a) auto
      with ab show "\<exists>a b. cs = a @ p @ b" by auto
    next
      assume "\<exists>a b. cs = a @ p @ b"
      then obtain a b where "cs = a @ p @ b" by blast
      then have "c # cs = (c # a) @ p @ b" by simp
      then show "\<exists>a b. c # cs = a @ p @ b" by blast
    qed
    from None "2" show ?thesis by (simp add: *)
  qed
qed

lemma split_once_char_append:
  "d \<notin> set a \<Longrightarrow> split_once [d] (a @ d # b) = Some (a, b)"
  by (induction a) auto

lemma split_once_char_None_iff: "split_once [d] s = None \<longleftrightarrow> d \<notin> set s"
  by (auto simp: split_once_None_iff in_set_conv_decomp)

lemma split_once_char_SomeD:
  "split_once [d] s = Some (a, b) \<Longrightarrow> s = a @ d # b \<and> d \<notin> set a"
proof (induction s arbitrary: a b)
  case Nil
  then show ?case by simp
next
  case (Cons c cs)
  then show ?case by (cases "c = d") auto
qed

lemma str_find_None_iff: "str_find p s = None \<longleftrightarrow> (\<nexists>a b. s = a @ p @ b)"
proof -
  have "str_find p s = None \<longleftrightarrow> split_once p s = None"
    by (induction p s rule: str_find.induct)
      (auto simp: starts_with_def split: option.splits)
  then show ?thesis by (simp add: split_once_None_iff)
qed

lemma str_find_split_once:
  "split_once p s = map_option (\<lambda>i. (take i s, drop (i + length p) s)) (str_find p s)"
proof (induction p s rule: str_find.induct)
  case (1 p)
  then show ?case by simp
next
  case (2 p c cs)
  show ?case
  proof (cases "strip_prefix p (c # cs)")
    case (Some r)
    then have "drop (length p) (c # cs) = r" by (simp add: strip_prefix_Some_iff)
    with Some show ?thesis by (simp add: starts_with_def)
  next
    case None
    with 2 show ?thesis
      by (auto simp: starts_with_def option.map_comp comp_def split: option.splits)
  qed
qed

lemma split_char_neq_Nil [simp]: "split_char d s \<noteq> []"
  by (cases s) (auto split: list.splits)

lemma split_char_other:
  "c \<noteq> d \<Longrightarrow> split_char d (c # cs) = (c # hd (split_char d cs)) # tl (split_char d cs)"
  by (cases "split_char d cs") simp_all

lemma join_split_char: "join [d] (split_char d s) = s"
proof (induction s)
  case Nil
  then show ?case by simp
next
  case (Cons c cs)
  then show ?case
    by (cases "split_char d cs") (auto simp: join_Cons)
qed

lemma split_char_no_sep: "p \<in> set (split_char d s) \<Longrightarrow> d \<notin> set p"
proof (induction s arbitrary: p)
  case Nil
  then show ?case by simp
next
  case (Cons c cs)
  show ?case
  proof (cases "c = d")
    case True
    with Cons show ?thesis by auto
  next
    case False
    with Cons show ?thesis
      by (cases "split_char d cs") auto
  qed
qed

lemma split_char_absent: "d \<notin> set s \<Longrightarrow> split_char d s = [s]"
  by (induction s) auto

lemma split_char_append_sep:
  "d \<notin> set a \<Longrightarrow> split_char d (a @ d # b) = a # split_char d b"
  by (induction a) auto

section \<open>Trimming\<close>

text \<open>The characters of Unicode's White\_Space property, as UTF-8.\<close>

definition ws_chars :: "string list" where
  "ws_chars =
     [[CHR 0x20], [CHR 0x09], [CHR 0x0A], [CHR 0x0B], [CHR 0x0C], [CHR 0x0D],
      [CHR 0xC2, CHR 0x85], [CHR 0xC2, CHR 0xA0], [CHR 0xE1, CHR 0x9A, CHR 0x80]] @
     map (\<lambda>c. [CHR 0xE2, CHR 0x80, c])
       [CHR 0x80, CHR 0x81, CHR 0x82, CHR 0x83, CHR 0x84, CHR 0x85, CHR 0x86, CHR 0x87,
        CHR 0x88, CHR 0x89, CHR 0x8A, CHR 0xA8, CHR 0xA9, CHR 0xAF] @
     [[CHR 0xE2, CHR 0x81, CHR 0x9F], [CHR 0xE3, CHR 0x80, CHR 0x80]]"

fun strip_any :: "string list \<Rightarrow> string \<Rightarrow> string option" where
  "strip_any [] s = None"
| "strip_any (p # ps) s =
     (case strip_prefix p s of Some r \<Rightarrow> Some r | None \<Rightarrow> strip_any ps s)"

function trim_with :: "string list \<Rightarrow> string \<Rightarrow> string" where
  "trim_with ps s =
     (case strip_any ps s of
        None \<Rightarrow> s
      | Some r \<Rightarrow> (if length r < length s then trim_with ps r else s))"
  by pat_completeness auto
termination
  by (relation "measure (length \<circ> snd)") auto

declare trim_with.simps [simp del]

definition trim_start :: "string \<Rightarrow> string" where
  "trim_start s = trim_with ws_chars s"

definition trim_end :: "string \<Rightarrow> string" where
  "trim_end s = rev (trim_with (map rev ws_chars) (rev s))"

definition trim :: "string \<Rightarrow> string" where
  "trim s = trim_end (trim_start s)"

text \<open>\<open>trim_matches\<close> and its two halves, for a set of characters.\<close>

definition trim_start_matches :: "(char \<Rightarrow> bool) \<Rightarrow> string \<Rightarrow> string" where
  "trim_start_matches p s = dropWhile p s"

definition trim_end_matches :: "(char \<Rightarrow> bool) \<Rightarrow> string \<Rightarrow> string" where
  "trim_end_matches p s = rev (dropWhile p (rev s))"

definition trim_matches :: "(char \<Rightarrow> bool) \<Rightarrow> string \<Rightarrow> string" where
  "trim_matches p s = trim_end_matches p (trim_start_matches p s)"

text \<open>Whether the text starts with a white space character.\<close>

definition at_whitespace :: "string \<Rightarrow> bool" where
  "at_whitespace s = (strip_any ws_chars s \<noteq> None)"

lemma strip_any_SomeD: "strip_any ps s = Some r \<Longrightarrow> \<exists>p \<in> set ps. s = p @ r"
  by (induction ps) (auto simp: strip_prefix_Some_iff split: option.splits)

lemma trim_with_step:
  "strip_any ps s = Some r \<Longrightarrow> length r < length s \<Longrightarrow> trim_with ps s = trim_with ps r"
  by (simp add: trim_with.simps [of ps s])

lemma trim_with_suffix: "\<exists>a. s = a @ trim_with ps s"
proof (induction ps s rule: trim_with.induct)
  case (1 ps s)
  show ?case
  proof (cases "strip_any ps s")
    case None
    then show ?thesis by (simp add: trim_with.simps [of ps s])
  next
    case (Some r)
    show ?thesis
    proof (cases "length r < length s")
      case True
      with "1" Some obtain a where "r = a @ trim_with ps r" by blast
      moreover from Some obtain p where "s = p @ r" by (auto dest: strip_any_SomeD)
      ultimately have "s = (p @ a) @ trim_with ps r" by (metis append.assoc)
      with trim_with_step [OF Some True] show ?thesis by auto
    next
      case False
      with Some show ?thesis by (simp add: trim_with.simps [of ps s])
    qed
  qed
qed

lemma trim_with_stable: "strip_any ps s = None \<Longrightarrow> trim_with ps s = s"
  by (simp add: trim_with.simps [of ps s])

lemma trim_with_fixed:
  "[] \<notin> set ps \<Longrightarrow> strip_any ps (trim_with ps s) = None"
proof (induction ps s rule: trim_with.induct)
  case (1 ps s)
  show ?case
  proof (cases "strip_any ps s")
    case None
    then show ?thesis by (simp add: trim_with_stable)
  next
    case (Some r)
    then obtain p where p: "p \<in> set ps" "s = p @ r" by (auto dest: strip_any_SomeD)
    with "1.prems" have "length r < length s" by (cases p) auto
    with Some "1" trim_with_step [OF Some] show ?thesis by simp
  qed
qed

lemma Nil_notin_ws_chars: "[] \<notin> set ws_chars" "[] \<notin> set (map rev ws_chars)"
  by (auto simp: ws_chars_def)

lemma trim_start_suffix: "\<exists>a. s = a @ trim_start s"
  by (simp add: trim_start_def trim_with_suffix)

lemma trim_end_prefix: "\<exists>b. s = trim_end s @ b"
proof -
  obtain a where "rev s = a @ trim_with (map rev ws_chars) (rev s)"
    using trim_with_suffix by blast
  then have "s = rev (trim_with (map rev ws_chars) (rev s)) @ rev a"
    by (metis rev_append rev_rev_ident)
  then show ?thesis by (auto simp: trim_end_def)
qed

lemma trim_infix: "\<exists>a b. s = a @ trim s @ b"
  using trim_start_suffix [of s] trim_end_prefix [of "trim_start s"]
  by (metis trim_def)

lemma set_trim_start: "set (trim_start s) \<subseteq> set s"
  using trim_start_suffix [of s] by (metis Un_iff set_append subsetI)

lemma set_trim: "set (trim s) \<subseteq> set s"
  using trim_infix [of s] by (metis Un_iff set_append subsetI)

lemma length_trim_start: "length (trim_start s) \<le> length s"
  using trim_start_suffix [of s] by (metis le_add2 length_append)

lemma length_trim_le: "length (trim s) \<le> length s"
proof -
  obtain a b where "s = a @ trim s @ b" using trim_infix by blast
  then have "length s = length a + (length (trim s) + length b)"
    by (metis length_append)
  then show ?thesis by simp
qed

lemma trim_Nil [simp]: "trim [] = []"
  using set_trim [of "[]"] by simp

lemma trim_start_Nil [simp]: "trim_start [] = []"
  using set_trim_start [of "[]"] by simp

text \<open>Text whose ends are ASCII characters other than white space is left alone.\<close>

definition plain_char :: "char \<Rightarrow> bool" where
  "plain_char c = (byte c < 128 \<and> byte c \<noteq> (32::nat) \<and> \<not> (9 \<le> byte c \<and> byte c \<le> (13::nat)))"

lemma strip_any_head_None:
  "(\<And>p. p \<in> set ps \<Longrightarrow> p \<noteq> [] \<and> hd p \<noteq> c) \<Longrightarrow> strip_any ps (c # s) = None"
proof (induction ps)
  case Nil
  then show ?case by simp
next
  case (Cons p ps)
  from Cons.prems [of p] obtain d q where "p = d # q" "d \<noteq> c" by (cases p) auto
  with Cons show ?case by simp
qed

lemma ws_chars_heads:
  "list_all (\<lambda>p. p \<noteq> [] \<and> \<not> plain_char (hd p) \<and> \<not> plain_char (last p)) ws_chars"
  by (simp add: ws_chars_def plain_char_def)

lemma strip_ws_plain: "plain_char c \<Longrightarrow> strip_any ws_chars (c # s) = None"
  using ws_chars_heads by (intro strip_any_head_None) (auto simp: list_all_iff)

lemma strip_rev_ws_plain: "plain_char c \<Longrightarrow> strip_any (map rev ws_chars) (c # s) = None"
  using ws_chars_heads by (intro strip_any_head_None) (auto simp: list_all_iff hd_rev)

lemma trim_start_plain: "plain_char c \<Longrightarrow> trim_start (c # s) = c # s"
  by (simp add: trim_start_def trim_with_stable strip_ws_plain)

lemma trim_end_plain: "plain_char c \<Longrightarrow> trim_end (s @ [c]) = s @ [c]"
  by (simp add: trim_end_def trim_with_stable strip_rev_ws_plain)

lemma trim_plain:
  assumes "s = [] \<or> plain_char (hd s) \<and> plain_char (last s)"
  shows "trim s = s"
proof (cases "s = []")
  case False
  then have "trim_start s = s" using assms by (metis list.collapse trim_start_plain)
  moreover have "trim_end s = s"
    using False assms by (metis append_butlast_last_id trim_end_plain)
  ultimately show ?thesis by (simp add: trim_def)
qed simp

lemma trim_all_plain: "list_all plain_char s \<Longrightarrow> trim s = s"
  by (rule trim_plain) (auto simp: list_all_iff)

text \<open>Trimming twice is trimming once.\<close>

lemma strip_any_appendI: "strip_any ps s = Some r \<Longrightarrow> strip_any ps (s @ t) \<noteq> None"
proof (induction ps)
  case Nil
  then show ?case by simp
next
  case (Cons p ps)
  then show ?case
    by (cases "strip_prefix p s") (auto dest: strip_prefix_appendI [of _ _ _ t] split: option.splits)
qed

lemma trim_start_fixed: "strip_any ws_chars (trim_start s) = None"
  unfolding trim_start_def by (rule trim_with_fixed [OF Nil_notin_ws_chars(1)])

lemma trim_end_trim_end [simp]: "trim_end (trim_end s) = trim_end s"
  unfolding trim_end_def
  by (simp add: trim_with_stable trim_with_fixed [OF Nil_notin_ws_chars(2)])

lemma trim_start_trim_start [simp]: "trim_start (trim_start s) = trim_start s"
  using trim_with_stable [OF trim_start_fixed [of s]] by (simp add: trim_start_def)

lemma trim_start_trim [simp]: "trim_start (trim s) = trim s"
proof -
  obtain b where b: "trim_start s = trim s @ b"
    using trim_end_prefix [of "trim_start s"] by (auto simp: trim_def)
  then have "strip_any ws_chars (trim s) = None"
    using trim_start_fixed [of s] strip_any_appendI [of ws_chars "trim s" _ b]
    by (cases "strip_any ws_chars (trim s)") auto
  then show ?thesis by (simp add: trim_start_def trim_with_stable)
qed

lemma trim_trim [simp]: "trim (trim s) = trim s"
  by (simp add: trim_def [of "trim s"]) (simp add: trim_def)

lemma trim_start_space: "trim_start (CHR 0x20 # s) = trim_start s"
  by (simp add: trim_start_def trim_with.simps [of ws_chars "CHR 0x20 # s"])
    (simp add: ws_chars_def)

section \<open>Words\<close>

text \<open>\<open>split_whitespace\<close>: the maximal runs of characters that are not white space.\<close>

fun take_word :: "string \<Rightarrow> string \<times> string" where
  "take_word [] = ([], [])"
| "take_word (c # cs) =
     (if at_whitespace (c # cs) then ([], c # cs)
      else (case take_word cs of (w, r) \<Rightarrow> (c # w, r)))"

lemma take_word_append: "take_word s = (w, r) \<Longrightarrow> s = w @ r"
  by (induction s arbitrary: w r) (auto split: if_splits prod.splits)

lemma take_word_shorter:
  assumes "trim_start s \<noteq> []" "take_word (trim_start s) = (w, r)"
  shows "length r < length s"
proof -
  have "\<not> at_whitespace (trim_start s)"
    using trim_start_fixed [of s] by (simp add: at_whitespace_def)
  then have "w \<noteq> []"
    using assms by (cases "trim_start s") (auto split: prod.splits)
  then show ?thesis
    using take_word_append [OF assms(2)] length_trim_start [of s] by (cases w) simp_all
qed

function split_whitespace :: "string \<Rightarrow> string list" where
  "split_whitespace s =
     (if trim_start s = [] then []
      else (case take_word (trim_start s) of (w, r) \<Rightarrow> w # split_whitespace r))"
  by pat_completeness auto
termination
  by (relation "measure length") (auto simp: take_word_shorter [OF _ sym])

declare split_whitespace.simps [simp del]

lemma plain_not_whitespace: "plain_char c \<Longrightarrow> \<not> at_whitespace (c # s)"
  by (simp add: at_whitespace_def strip_ws_plain)

lemma take_word_plain:
  "list_all plain_char w \<Longrightarrow> r = [] \<or> at_whitespace r \<Longrightarrow> take_word (w @ r) = (w, r)"
  by (induction w) (cases r; auto simp: plain_not_whitespace)+

lemma split_whitespace_word:
  assumes "list_all plain_char w" "w \<noteq> []" "r = [] \<or> at_whitespace r"
  shows "split_whitespace (w @ r) = w # split_whitespace r"
proof -
  have "trim_start (w @ r) = w @ r"
    using assms by (cases w) (simp_all add: trim_start_plain)
  then show ?thesis
    using assms take_word_plain by (simp add: split_whitespace.simps [of "w @ r"])
qed

lemma split_whitespace_space: "split_whitespace (CHR 0x20 # s) = split_whitespace s"
  by (simp add: split_whitespace.simps [of "CHR 0x20 # s"] split_whitespace.simps [of s] trim_start_space)

end
