(* ===== verification/Api_Error.thy ===== *)
theory Api_Error
  imports Rust_Str
begin

text \<open>
  The error every request path returns (\<^verbatim>\<open>ApiError\<close> of
  \<^verbatim>\<open>src/src/validation.rs\<close>) and the storage signals of
  \<^verbatim>\<open>src/src/signal.rs\<close>, the vocabulary all the other components share.
\<close>

section \<open>API errors\<close>

record ApiError =
  status :: nat
  reason :: string
  message :: string
  retry_after_seconds :: "nat option"

type_synonym 'a api_result = "ApiError + 'a"

text \<open>A result of code that may panic, which is \<open>None\<close>.\<close>

type_synonym 'a checked = "'a api_result option"

definition ApiError_new :: "nat \<Rightarrow> string \<Rightarrow> string \<Rightarrow> ApiError" where
  "ApiError_new st why msg =
     \<lparr>status = st, reason = why, message = msg, retry_after_seconds = None\<rparr>"

definition with_retry_after :: "ApiError \<Rightarrow> nat \<Rightarrow> ApiError" where
  "with_retry_after err seconds = err\<lparr>retry_after_seconds := Some seconds\<rparr>"

lemma ApiError_new_sel [simp]:
  "status (ApiError_new st why msg) = st"
  "reason (ApiError_new st why msg) = why"
  "message (ApiError_new st why msg) = msg"
  "retry_after_seconds (ApiError_new st why msg) = None"
  by (simp_all add: ApiError_new_def)

lemma with_retry_after_sel [simp]:
  "status (with_retry_after e n) = status e"
  "reason (with_retry_after e n) = reason e"
  "message (with_retry_after e n) = message e"
  "retry_after_seconds (with_retry_after e n) = Some n"
  by (simp_all add: with_retry_after_def)

section \<open>Storage signals\<close>

datatype StorageSignal = LogsSignal | SpansSignal | MetricGauge | MetricSum

definition ALL_SIGNALS :: "StorageSignal list" where
  "ALL_SIGNALS = [LogsSignal, SpansSignal, MetricGauge, MetricSum]"

fun signal_as_str :: "StorageSignal \<Rightarrow> string" where
  "signal_as_str LogsSignal = ''otlp_logs''"
| "signal_as_str SpansSignal = ''otlp_traces''"
| "signal_as_str MetricGauge = ''otlp_metrics_gauge''"
| "signal_as_str MetricSum = ''otlp_metrics_sum''"

lemma all_signals: "s \<in> set ALL_SIGNALS"
  by (cases s) (simp_all add: ALL_SIGNALS_def)

lemma signal_as_str_inj: "signal_as_str s = signal_as_str t \<longleftrightarrow> s = t"
  by (cases s; cases t) simp_all

end
