(* ===== verification/Plan.thy ===== *)
theory Plan
  imports Api_Error
begin

text \<open>
  The query plans and the label-selector parser all protocols share
  (\<^verbatim>\<open>src/src/query/plan.rs\<close>): directions, matchers, the plan records, splitting a
  selector at its unquoted commas, reading one matcher, and normalising matchers to
  canonical label names. Times are nanoseconds since the epoch.
\<close>

section \<open>Directions, matchers and plans\<close>

datatype SortDirection = Forward | Backward

definition from_loki :: "string \<Rightarrow> SortDirection" where
  "from_loki raw = (if raw = ''forward'' then Forward else Backward)"

definition from_order :: "string option \<Rightarrow> SortDirection" where
  "from_order raw = (if raw = Some ''desc'' then Backward else Forward)"

fun direction_sql :: "SortDirection \<Rightarrow> string" where
  "direction_sql Forward = ''ASC''"
| "direction_sql Backward = ''DESC''"

definition is_forward :: "SortDirection \<Rightarrow> bool" where
  "is_forward d = (d = Forward)"

datatype MatchOp = Eq | NotEq | Regex | NotRegex

record FieldMatcher =
  field :: string
  mvalue :: string
  match_op :: MatchOp

datatype TextFilter = BodyContains string | BodyRegex string

record SelectorPlan =
  resource :: "string option"
  matchers :: "FieldMatcher list"
  text_filters :: "TextFilter list"

definition matcher_value :: "SelectorPlan \<Rightarrow> string \<Rightarrow> string option" where
  "matcher_value plan f = map_option mvalue (List.find (\<lambda>m. field m = f) (matchers plan))"

record TimeBounds =
  bounds_from :: int
  bounds_to :: int

datatype MetricSignal = Gauge | SumSignal

definition MetricSignal_parse :: "string \<Rightarrow> MetricSignal api_result" where
  "MetricSignal_parse raw =
     (if raw = ''gauge'' then Inr Gauge
      else if raw = ''sum'' then Inr SumSignal
      else Inl (ApiError_new 400 ''unsupported_signal'' ''signal must be gauge or sum''))"

fun storage_signal :: "MetricSignal \<Rightarrow> StorageSignal" where
  "storage_signal Gauge = MetricGauge"
| "storage_signal SumSignal = MetricSum"

definition metric_table :: "MetricSignal \<Rightarrow> string" where
  "metric_table s = signal_as_str (storage_signal s)"

datatype MetricAggregation = AggAvg | AggMin | AggMax | AggSum | AggCount | AggRate

definition MetricAggregation_parse :: "string \<Rightarrow> MetricAggregation api_result" where
  "MetricAggregation_parse raw =
     (if raw = ''avg'' then Inr AggAvg
      else if raw = ''min'' then Inr AggMin
      else if raw = ''max'' then Inr AggMax
      else if raw = ''sum'' then Inr AggSum
      else if raw = ''count'' then Inr AggCount
      else if raw = ''rate'' then Inr AggRate
      else Inl (ApiError_new 400 ''unsupported_aggregation'' ''unsupported aggregation''))"

record MetricPlan =
  metric_selector :: SelectorPlan
  metric_bounds :: TimeBounds
  metric_signal :: MetricSignal
  metric_aggregation :: MetricAggregation
  metric_group_by :: "string list"
  step_seconds :: int
  metric_limit :: nat
  metric_order :: SortDirection

record LogPlan =
  log_selector :: SelectorPlan
  log_bounds :: TimeBounds
  log_limit :: nat
  direction :: SortDirection
  stream_labels :: "string list"

datatype TraceSort = TimestampDesc | DurationDesc

record TracePlan =
  trace_selector :: SelectorPlan
  trace_bounds :: TimeBounds
  trace_limit :: nat
  trace_sort :: TraceSort

section \<open>Selectors\<close>

definition is_ident_char :: "char \<Rightarrow> bool" where
  "is_ident_char c =
     (let n = byte c in
        48 \<le> n \<and> n \<le> 57 \<or> 65 \<le> n \<and> n \<le> 90 \<or> 97 \<le> n \<and> n \<le> (122::nat)
        \<or> c = CHR ''_'' \<or> c = CHR '':'' \<or> c = CHR ''.'')"

definition unquote :: "string \<Rightarrow> string" where
  "unquote s = trim_matches (\<lambda>c. c = DQ) (trim s)"

text \<open>
  The scan of \<^verbatim>\<open>split_label_matchers\<close>: whether it is inside quotes, whether the
  previous character was an escaping backslash, and the part read since the last
  separator. It returns the parts and whether a quote is still open at the end.
\<close>

fun split_scan :: "bool \<Rightarrow> bool \<Rightarrow> string \<Rightarrow> string \<Rightarrow> string list \<times> bool" where
  "split_scan in_quote escaped part [] = ([part], in_quote)"
| "split_scan in_quote escaped part (c # cs) =
     (if escaped then split_scan in_quote False (part @ [c]) cs
      else if c = BSLASH \<and> in_quote then split_scan in_quote True (part @ [c]) cs
      else if c = DQ then split_scan (\<not> in_quote) False (part @ [c]) cs
      else if c = CHR '','' \<and> \<not> in_quote
      then (case split_scan in_quote False [] cs of (parts, q) \<Rightarrow> (part # parts, q))
      else split_scan in_quote False (part @ [c]) cs)"

definition split_label_matchers :: "string \<Rightarrow> string \<Rightarrow> string list api_result" where
  "split_label_matchers raw why =
     (case split_scan False False [] raw of (parts, in_quote) \<Rightarrow>
        if in_quote then Inl (ApiError_new 400 why ''unterminated quoted label value'')
        else Inr parts)"

definition split_operator :: "string \<Rightarrow> (MatchOp \<times> string \<times> string) option" where
  "split_operator part =
     (case split_once ''!~'' part of Some (k, v) \<Rightarrow> Some (NotRegex, k, v) | None \<Rightarrow>
      case split_once ''=~'' part of Some (k, v) \<Rightarrow> Some (Regex, k, v) | None \<Rightarrow>
      case split_once ''!='' part of Some (k, v) \<Rightarrow> Some (NotEq, k, v) | None \<Rightarrow>
      case split_once ''='' part of Some (k, v) \<Rightarrow> Some (Eq, k, v) | None \<Rightarrow> None)"

text \<open>The loop over the parts; a blank part is skipped.\<close>

fun parse_parts :: "string list \<Rightarrow> string \<Rightarrow> FieldMatcher list api_result" where
  "parse_parts [] why = Inr []"
| "parse_parts (p # ps) why =
     (let part = trim p in
      if part = [] then parse_parts ps why
      else case split_operator part of
        None \<Rightarrow> Inl (ApiError_new 400 why ''label filters must use =, !=, =~, or !~'')
      | Some (mop, key, v) \<Rightarrow>
          map_ok (Cons \<lparr>field = trim key, mvalue = unquote (trim v), match_op = mop\<rparr>)
            (parse_parts ps why))"

definition parse_label_matchers :: "string \<Rightarrow> string \<Rightarrow> FieldMatcher list api_result" where
  "parse_label_matchers raw why =
     and_then (split_label_matchers raw why) (\<lambda>parts. parse_parts parts why)"

text \<open>
  The second branch, for text that starts with an opening brace, is never reached: such
  text also splits at the brace in the first one.
\<close>

definition parse_selector_matchers :: "string \<Rightarrow> string \<Rightarrow> (string \<times> FieldMatcher list) api_result" where
  "parse_selector_matchers text why =
     (let raw = trim text in
      case split_once ''{'' raw of
        Some (name, rest) \<Rightarrow>
          and_then (ok_or (strip_suffix ''}'' rest)
                      (ApiError_new 400 ''invalid_selector'' ''selector must end with }''))
            (\<lambda>label_part. and_then (parse_label_matchers label_part why)
               (\<lambda>labels. Inr (trim name, labels)))
      | None \<Rightarrow>
          if starts_with raw ''{'' then
            and_then (ok_or (Option.bind (strip_prefix ''{'' raw) (strip_suffix ''}''))
                        (ApiError_new 400 ''invalid_selector'' ''selector must be {...}''))
              (\<lambda>label_part. map_ok (\<lambda>labels. ([], labels)) (parse_label_matchers label_part why))
          else if raw \<noteq> [] \<and> list_all is_ident_char raw then Inr (raw, [])
          else Inl (ApiError_new 400 why
            (''supported selector subset is name, name{label='' @ [DQ] @ ''value'' @ [DQ] @
             ''}, or {label='' @ [DQ] @ ''value'' @ [DQ] @ ''}'')))"

section \<open>Normalising matchers\<close>

definition conflicts :: "FieldMatcher list \<Rightarrow> string \<Rightarrow> FieldMatcher \<Rightarrow> bool" where
  "conflicts normalized canonical matcher =
     (match_op matcher = Eq \<and>
      list_ex (\<lambda>existing. field existing = canonical \<and> match_op existing = Eq \<and>
                 mvalue existing \<noteq> mvalue matcher) normalized)"

fun normalize_loop ::
  "FieldMatcher list \<Rightarrow> FieldMatcher list \<Rightarrow> (string \<times> string) list \<Rightarrow> string \<Rightarrow> FieldMatcher list api_result" where
  "normalize_loop normalized [] supported why = Inr normalized"
| "normalize_loop normalized (m # ms) supported why =
     (case List.find (\<lambda>p. fst p = field m) supported of
        None \<Rightarrow> Inl (ApiError_new 400 why (''unsupported label '' @ field m @ '' in v0 selector''))
      | Some p \<Rightarrow>
          if conflicts normalized (snd p) m
          then Inl (ApiError_new 400 why (''conflicting values for label '' @ snd p))
          else normalize_loop
                 (normalized @ [\<lparr>field = snd p, mvalue = mvalue m, match_op = match_op m\<rparr>])
                 ms supported why)"

definition normalize_matchers ::
  "FieldMatcher list \<Rightarrow> (string \<times> string) list \<Rightarrow> string \<Rightarrow> FieldMatcher list api_result" where
  "normalize_matchers ms supported why = normalize_loop [] ms supported why"

section \<open>Splitting at unquoted commas\<close>

text \<open>
  Reading text with no unquoted comma: the quote and escape state it ends in, or
  \<open>None\<close> at such a comma. A part is \<^emph>\<open>balanced\<close> when it ends outside quotes.
\<close>

fun quote_scan :: "bool \<Rightarrow> bool \<Rightarrow> string \<Rightarrow> (bool \<times> bool) option" where
  "quote_scan q e [] = Some (q, e)"
| "quote_scan q e (c # cs) =
     (if e then quote_scan q False cs
      else if c = BSLASH \<and> q then quote_scan q True cs
      else if c = DQ then quote_scan (\<not> q) False cs
      else if c = CHR '','' \<and> \<not> q then None
      else quote_scan q False cs)"

definition balanced_part :: "string \<Rightarrow> bool" where
  "balanced_part p = (quote_scan False False p = Some (False, False))"

lemma quote_scan_append:
  "quote_scan q e (s @ t) = Option.bind (quote_scan q e s) (\<lambda>(q', e'). quote_scan q' e' t)"
  by (induction q e s rule: quote_scan.induct) auto

lemma split_scan_quote_scan:
  "quote_scan q e s = Some (q', e') \<Longrightarrow>
   split_scan q e part (s @ rest) = split_scan q' e' (part @ s) rest"
  by (induction q e s arbitrary: part rule: quote_scan.induct) (auto split: if_splits)

lemma split_scan_join:
  "split_scan q e part cs = (ps, b) \<Longrightarrow> ps \<noteq> [] \<and> join '','' ps = part @ cs"
proof (induction q e part cs arbitrary: ps b rule: split_scan.induct)
  case (1 q e part)
  then show ?case by auto
next
  case (2 q e part c cs)
  then show ?case
    by (auto simp: join_Cons split: if_splits prod.splits)
qed

lemma split_scan_balanced:
  "split_scan q e part cs = (ps, False) \<Longrightarrow> quote_scan False False part = Some (q, e) \<Longrightarrow>
   (e \<longrightarrow> q) \<Longrightarrow> list_all balanced_part ps"
proof (induction q e part cs arbitrary: ps rule: split_scan.induct)
  case (1 q e part)
  then show ?case by (auto simp: balanced_part_def)
next
  case (2 q e part c cs)
  have step: "quote_scan False False (part @ [c]) = quote_scan q e [c]"
    using 2(7) by (simp add: quote_scan_append)
  show ?case
  proof (cases "\<not> e \<and> c = CHR '','' \<and> \<not> q")
    case True
    then obtain qs where qs: "split_scan q False [] cs = (qs, False)" "ps = part # qs"
      using 2(6) by (auto split: prod.splits if_splits)
    with 2(4) True have "list_all balanced_part qs" by simp
    with qs True 2(7) show ?thesis by (simp add: balanced_part_def [of part])
  next
    case False
    then show ?thesis
      using 2(1,2,3,5,6,8) step by (auto split: if_splits)
  qed
qed

lemma split_scan_of_balanced:
  "ps \<noteq> [] \<Longrightarrow> list_all balanced_part ps \<Longrightarrow> split_scan False False [] (join '','' ps) = (ps, False)"
proof (induction ps)
  case Nil
  then show ?case by simp
next
  case (Cons p ps)
  then have p: "quote_scan False False p = Some (False, False)"
    by (simp add: balanced_part_def)
  show ?case
  proof (cases "ps = []")
    case True
    then show ?thesis using split_scan_quote_scan [OF p, of "[]" "[]"] by simp
  next
    case False
    with Cons split_scan_quote_scan [OF p, of "[]" "CHR '','' # join '','' ps"]
    show ?thesis by (simp add: join_Cons)
  qed
qed

section \<open>Printing matchers\<close>

fun op_text :: "MatchOp \<Rightarrow> string" where
  "op_text Eq = ''=''"
| "op_text NotEq = ''!=''"
| "op_text Regex = ''=~''"
| "op_text NotRegex = ''!~''"

definition print_matcher :: "FieldMatcher \<Rightarrow> string" where
  "print_matcher m = field m @ op_text (match_op m) @ [DQ] @ mvalue m @ [DQ]"

definition print_selector :: "string \<Rightarrow> FieldMatcher list \<Rightarrow> string" where
  "print_selector name ms = name @ ''{'' @ join '','' (map print_matcher ms) @ ''}''"

text \<open>
  Which matchers survive printing and parsing: the parser looks for the operators in the
  whole text of a matcher, the quoted value included, and never unescapes a value.
\<close>

fun foreign_ops :: "MatchOp \<Rightarrow> string list" where
  "foreign_ops Eq = [''!~'', ''=~'', ''!='']"
| "foreign_ops NotEq = [''!~'', ''=~'']"
| "foreign_ops Regex = [''!~'']"
| "foreign_ops NotRegex = []"

definition printable :: "FieldMatcher \<Rightarrow> bool" where
  "printable m =
     (field m \<noteq> [] \<and> list_all is_ident_char (field m) \<and>
      DQ \<notin> set (mvalue m) \<and> BSLASH \<notin> set (mvalue m) \<and>
      list_all (\<lambda>p. \<not> str_contains (mvalue m) p) (foreign_ops (match_op m)))"

lemma is_ident_char_plain: "is_ident_char c \<Longrightarrow> plain_char c"
proof -
  assume "is_ident_char c"
  then consider "48 \<le> byte c \<and> byte c \<le> (122::nat)" | "c \<in> {CHR ''_'', CHR '':'', CHR ''.''}"
    unfolding is_ident_char_def Let_def by fastforce
  then show "plain_char c"
    by cases (auto simp: plain_char_def)
qed

lemma not_ident_chars:
  "x \<in> {DQ, BSLASH, CHR '','', CHR ''!'', CHR ''='', CHR ''~'', CHR ''{'', CHR ''}'', CHR ''('', CHR '')'', SQ} \<Longrightarrow>
   \<not> is_ident_char x"
  by (elim insertE emptyE) (simp_all add: is_ident_char_def)

lemma ident_chars_notin:
  "list_all is_ident_char s \<Longrightarrow>
   x \<in> {DQ, BSLASH, CHR '','', CHR ''!'', CHR ''='', CHR ''~'', CHR ''{'', CHR ''}'', CHR ''('', CHR '')'', SQ} \<Longrightarrow>
   x \<notin> set s"
  using not_ident_chars unfolding list_all_iff by blast

lemma ident_trim [simp]: "list_all is_ident_char s \<Longrightarrow> trim s = s"
  by (rule trim_all_plain) (auto simp: list_all_iff dest: is_ident_char_plain)

lemma str_contains_iff: "str_contains s p \<longleftrightarrow> (\<exists>a b. s = a @ p @ b)"
  by (simp add: str_contains_def str_find_None_iff)

lemma split_once_Some_first:
  assumes "p \<noteq> []" and "hd p \<notin> set k"
  shows "split_once p (k @ p @ v) = Some (k, v)"
  using assms
proof (induction k)
  case Nil
  then show ?case by (cases p) auto
next
  case (Cons c k)
  then show ?case by (cases p) (auto simp: strip_prefix_None_iff)
qed

lemma split_once_absent: "\<not> str_contains s p \<Longrightarrow> split_once p s = None"
  by (simp add: split_once_None_iff str_contains_iff)

text \<open>A character outside a two-character pattern separates its occurrences.\<close>

lemma contains2_across:
  assumes "z \<noteq> x" and "z \<noteq> y"
  shows "str_contains (a @ z # b) [x, y] \<longleftrightarrow> str_contains a [x, y] \<or> str_contains b [x, y]"
proof
  assume "str_contains (a @ z # b) [x, y]"
  then obtain u w where eq: "a @ z # b = u @ x # y # w" by (auto simp: str_contains_iff)
  then consider us where "a = u @ us" "us @ z # b = x # y # w"
    | us where "u = a @ us" "z # b = us @ x # y # w"
    by (auto simp: append_eq_append_conv2)
  then show "str_contains a [x, y] \<or> str_contains b [x, y]"
  proof cases
    case (1 us)
    with assms obtain us' where "us = x # y # us'"
      by (cases us; cases "tl us") auto
    with 1 show ?thesis by (auto simp: str_contains_iff)
  next
    case (2 us)
    with assms obtain us' where "us = z # us'" by (cases us) auto
    with 2 show ?thesis by (auto simp: str_contains_iff)
  qed
next
  assume "str_contains a [x, y] \<or> str_contains b [x, y]"
  then show "str_contains (a @ z # b) [x, y]"
  proof
    assume "str_contains a [x, y]"
    then obtain u w where "a = u @ [x, y] @ w" by (auto simp: str_contains_iff)
    then have "a @ z # b = u @ [x, y] @ (w @ z # b)" by simp
    then show ?thesis unfolding str_contains_iff by blast
  next
    assume "str_contains b [x, y]"
    then obtain u w where "b = u @ [x, y] @ w" by (auto simp: str_contains_iff)
    then have "a @ z # b = (a @ z # u) @ [x, y] @ w" by simp
    then show ?thesis unfolding str_contains_iff by blast
  qed
qed

lemma contains2_set: "str_contains s [x, y] \<Longrightarrow> x \<in> set s \<and> y \<in> set s"
  by (auto simp: str_contains_iff)

lemma contains2_free:
  "x \<notin> set s \<Longrightarrow> \<not> str_contains s [x, y]"
  "y \<notin> set s \<Longrightarrow> \<not> str_contains s [x, y]"
  using contains2_set by blast+

section \<open>Parsing a printed matcher\<close>

lemma contains_matcher_text:
  assumes key: "list_all is_ident_char k" and op: "DQ \<notin> set opt"
    and xy: "x \<noteq> DQ" "y \<noteq> DQ"
  shows "str_contains (k @ opt @ [DQ] @ v @ [DQ]) [x, y] \<longleftrightarrow>
    str_contains (k @ opt) [x, y] \<or> str_contains v [x, y]"
proof -
  have "str_contains (k @ opt @ [DQ] @ v @ [DQ]) [x, y] \<longleftrightarrow>
      str_contains (k @ opt) [x, y] \<or> str_contains (v @ [DQ]) [x, y]"
    using contains2_across [of DQ x y "k @ opt" "v @ [DQ]"] xy by auto
  moreover have "str_contains (v @ [DQ]) [x, y] \<longleftrightarrow> str_contains v [x, y]"
    using contains2_across [of DQ x y v "[]"] xy contains2_set [of "[]" x y] by auto
  ultimately show ?thesis by simp
qed

lemma split_operator_print:
  assumes "printable m"
  shows "split_operator (print_matcher m) =
    Some (match_op m, field m, [DQ] @ mvalue m @ [DQ])"
proof -
  from assms have key: "list_all is_ident_char (field m)"
    and safe: "list_all (\<lambda>p. \<not> str_contains (mvalue m) p) (foreign_ops (match_op m))"
    by (simp_all add: printable_def)
  have bang: "CHR ''!'' \<notin> set (field m)" and eq: "CHR ''='' \<notin> set (field m)"
    and tilde: "CHR ''~'' \<notin> set (field m)"
    using ident_chars_notin [OF key] by blast+
  note no = split_once_absent
  let ?t = "[DQ] @ mvalue m @ [DQ]"
  show ?thesis
  proof (cases "match_op m")
    case Eq
    have a: "\<not> str_contains (field m @ ''='' @ ?t) p" if "p \<in> set (foreign_ops Eq)" for p
      using that safe Eq bang tilde
      by (auto simp: contains_matcher_text [OF key, of "''=''", simplified] contains2_free)
    have "split_once ''!~'' (field m @ ''='' @ ?t) = None"
      "split_once ''=~'' (field m @ ''='' @ ?t) = None"
      "split_once ''!='' (field m @ ''='' @ ?t) = None"
      by (rule no, rule a, simp)+
    moreover have "split_once ''='' (field m @ ''='' @ ?t) = Some (field m, ?t)"
      by (rule split_once_Some_first) (use eq in auto)
    ultimately show ?thesis using Eq by (simp add: split_operator_def print_matcher_def)
  next
    case NotEq
    have a: "\<not> str_contains (field m @ ''!='' @ ?t) p" if "p \<in> set (foreign_ops NotEq)" for p
      using that safe NotEq tilde
      by (auto simp: contains_matcher_text [OF key, of "''!=''", simplified] contains2_free)
    have "split_once ''!~'' (field m @ ''!='' @ ?t) = None"
      "split_once ''=~'' (field m @ ''!='' @ ?t) = None"
      by (rule no, rule a, simp)+
    moreover have "split_once ''!='' (field m @ ''!='' @ ?t) = Some (field m, ?t)"
      by (rule split_once_Some_first) (use bang in auto)
    ultimately show ?thesis using NotEq by (simp add: split_operator_def print_matcher_def)
  next
    case Regex
    have a: "\<not> str_contains (field m @ ''=~'' @ ?t) p" if "p \<in> set (foreign_ops Regex)" for p
      using that safe Regex bang
      by (auto simp: contains_matcher_text [OF key, of "''=~''", simplified] contains2_free)
    have "split_once ''!~'' (field m @ ''=~'' @ ?t) = None"
      by (rule no, rule a, simp)
    moreover have "split_once ''=~'' (field m @ ''=~'' @ ?t) = Some (field m, ?t)"
      by (rule split_once_Some_first) (use eq in auto)
    ultimately show ?thesis using Regex by (simp add: split_operator_def print_matcher_def)
  next
    case NotRegex
    have "split_once ''!~'' (field m @ ''!~'' @ ?t) = Some (field m, ?t)"
      by (rule split_once_Some_first) (use bang in auto)
    then show ?thesis using NotRegex by (simp add: split_operator_def print_matcher_def)
  qed
qed

lemma trim_quoted: "trim ([DQ] @ v @ [DQ]) = [DQ] @ v @ [DQ]"
  by (rule trim_plain) (simp add: plain_char_def)

lemma unquote_quoted: "DQ \<notin> set v \<Longrightarrow> unquote ([DQ] @ v @ [DQ]) = v"
proof -
  assume v: "DQ \<notin> set v"
  have stop: "dropWhile (\<lambda>c. c = DQ) (u @ w) = u @ w" if "DQ \<notin> set u" "u \<noteq> []" for u w
    using that by (cases u) auto
  show ?thesis
  proof (cases "v = []")
    case True
    then show ?thesis unfolding unquote_def trim_quoted
      by (simp add: trim_matches_def trim_start_matches_def trim_end_matches_def)
  next
    case False
    with v stop [of v "[DQ]"] stop [of "rev v" "[]"] show ?thesis
      unfolding unquote_def trim_quoted
      by (simp add: trim_matches_def trim_start_matches_def trim_end_matches_def)
  qed
qed

lemma trim_print_matcher: "printable m \<Longrightarrow> trim (print_matcher m) = print_matcher m"
  by (rule trim_plain)
    (auto simp: printable_def print_matcher_def plain_char_def list_all_iff
      dest!: is_ident_char_plain split: if_splits)

lemma parse_parts_print:
  "list_all printable ms \<Longrightarrow> parse_parts (map print_matcher ms) why = Inr ms"
proof (induction ms)
  case Nil
  then show ?case by simp
next
  case (Cons m ms)
  then have m: "printable m" by simp
  then have ne: "print_matcher m \<noteq> []" by (simp add: print_matcher_def)
  have key: "trim (field m) = field m" and v: "unquote ([DQ] @ mvalue m @ [DQ]) = mvalue m"
    using m by (simp_all add: printable_def unquote_quoted [simplified])
  show ?case
    using Cons ne key v trim_print_matcher [OF m] split_operator_print [OF m] trim_quoted [of "mvalue m"]
    by simp
qed

lemma quote_scan_plain:
  "DQ \<notin> set s \<Longrightarrow> BSLASH \<notin> set s \<Longrightarrow> (\<not> q \<longrightarrow> CHR '','' \<notin> set s) \<Longrightarrow>
   quote_scan q False s = Some (q, False)"
  by (induction s) auto

lemma balanced_print_matcher: "printable m \<Longrightarrow> balanced_part (print_matcher m)"
proof -
  assume m: "printable m"
  then have k: "list_all is_ident_char (field m)" and v: "DQ \<notin> set (mvalue m)" "BSLASH \<notin> set (mvalue m)"
    by (simp_all add: printable_def)
  have "quote_scan False False (field m @ op_text (match_op m)) = Some (False, False)"
    using ident_chars_notin [OF k] by (intro quote_scan_plain) (cases "match_op m"; auto)+
  moreover have "quote_scan True False (mvalue m) = Some (True, False)"
    using v by (intro quote_scan_plain) auto
  ultimately show ?thesis
    using quote_scan_append [of False False "field m @ op_text (match_op m)" "[DQ] @ mvalue m @ [DQ]"]
    by (simp add: balanced_part_def print_matcher_def quote_scan_append)
qed

lemma parse_label_matchers_print:
  assumes "list_all printable ms"
  shows "parse_label_matchers (join '','' (map print_matcher ms)) why = Inr ms"
proof (cases "ms = []")
  case True
  then show ?thesis by (simp add: parse_label_matchers_def split_label_matchers_def)
next
  case False
  have "list_all balanced_part (map print_matcher ms)"
    using assms by (auto simp: list_all_iff balanced_print_matcher)
  with False have "split_scan False False [] (join '','' (map print_matcher ms))
      = (map print_matcher ms, False)"
    by (intro split_scan_of_balanced) auto
  with parse_parts_print [OF assms] show ?thesis
    by (simp add: parse_label_matchers_def split_label_matchers_def)
qed

lemma trim_print_selector:
  assumes "list_all is_ident_char name"
  shows "trim (print_selector name ms) = print_selector name ms"
proof (rule trim_plain)
  have "plain_char (hd (name @ ''{''))"
    using assms by (cases name) (auto simp: plain_char_def dest: is_ident_char_plain)
  then show "print_selector name ms = [] \<or>
      plain_char (hd (print_selector name ms)) \<and> plain_char (last (print_selector name ms))"
    by (cases name) (simp_all add: print_selector_def plain_char_def)
qed

lemma parse_print_selector:
  assumes name: "list_all is_ident_char name" and ms: "list_all printable ms"
  shows "parse_selector_matchers (print_selector name ms) why = Inr (name, ms)"
proof -
  let ?body = "join '','' (map print_matcher ms)"
  have "CHR ''{'' \<notin> set name" using ident_chars_notin [OF name] by blast
  then have "split_once ''{'' (print_selector name ms) = Some (name, ?body @ ''}'')"
    unfolding print_selector_def by (intro split_once_Some_first) auto
  then show ?thesis
    using trim_print_selector [OF name] parse_label_matchers_print [OF ms] name
    by (simp add: parse_selector_matchers_def)
qed

section \<open>What normalising produces\<close>

definition canonical_matcher :: "(string \<times> string) list \<Rightarrow> FieldMatcher \<Rightarrow> FieldMatcher" where
  "canonical_matcher supported m =
     \<lparr>field = the (map_of supported (field m)), mvalue = mvalue m, match_op = match_op m\<rparr>"

definition consistent :: "FieldMatcher list \<Rightarrow> bool" where
  "consistent ms =
     list_all (\<lambda>a. list_all (\<lambda>b. match_op a = Eq \<and> match_op b = Eq \<and> field a = field b
                              \<longrightarrow> mvalue a = mvalue b) ms) ms"

lemma consistent_snoc:
  "consistent (ns @ [n]) \<longleftrightarrow> consistent ns \<and> \<not> conflicts ns (field n) n"
  by (auto simp: consistent_def conflicts_def list_all_iff list_ex_iff)

lemma consistent_append: "consistent (ns @ ms) \<Longrightarrow> consistent ns"
  by (auto simp: consistent_def list_all_iff)

lemma supported_find:
  "List.find (\<lambda>p. fst p = k) supported = Some p \<Longrightarrow> map_of supported k = Some (snd p)"
  using find_eq_map_of [of k supported] by simp

lemma unsupported_find:
  "List.find (\<lambda>p. fst p = k) supported = None \<Longrightarrow> map_of supported k = None"
  using find_eq_map_of [of k supported] by simp

lemma normalize_loop_iff:
  "consistent acc \<Longrightarrow>
   normalize_loop acc ms supported why = Inr ns \<longleftrightarrow>
     (\<forall>m \<in> set ms. map_of supported (field m) \<noteq> None) \<and>
     ns = acc @ map (canonical_matcher supported) ms \<and> consistent ns"
proof (induction ms arbitrary: acc)
  case Nil
  then show ?case by auto
next
  case (Cons m ms)
  show ?case
  proof (cases "List.find (\<lambda>p. fst p = field m) supported")
    case None
    with unsupported_find [OF None] show ?thesis by simp
  next
    case (Some p)
    let ?n = "canonical_matcher supported m"
    have n: "?n = \<lparr>field = snd p, mvalue = mvalue m, match_op = match_op m\<rparr>"
      using supported_find [OF Some] by (simp add: canonical_matcher_def)
    have conf: "conflicts acc (snd p) m \<longleftrightarrow> \<not> consistent (acc @ [?n])"
      using consistent_snoc [of acc ?n] Cons.prems by (simp add: n conflicts_def)
    show ?thesis
    proof (cases "conflicts acc (snd p) m")
      case True
      then have "\<not> consistent (acc @ ?n # map (canonical_matcher supported) ms)"
        using conf consistent_append [of "acc @ [?n]"] by auto
      with True Some show ?thesis by auto
    next
      case False
      with conf have "consistent (acc @ [?n])" by simp
      from Cons.IH [OF this] False Some supported_find [OF Some] show ?thesis
        by (simp add: n)
    qed
  qed
qed

lemma normalize_matchers_iff:
  "normalize_matchers ms supported why = Inr ns \<longleftrightarrow>
     (\<forall>m \<in> set ms. map_of supported (field m) \<noteq> None) \<and>
     ns = map (canonical_matcher supported) ms \<and> consistent ns"
  unfolding normalize_matchers_def using normalize_loop_iff [of "[]"]
  by (simp add: consistent_def)

lemma normalize_matchers_fields:
  assumes "normalize_matchers ms supported why = Inr ns" and "n \<in> set ns"
  shows "\<exists>raw. map_of supported raw = Some (field n)"
  using assms by (auto simp: normalize_matchers_iff canonical_matcher_def)

lemma normalize_loop_error:
  "normalize_loop acc ms supported why = Inl e \<Longrightarrow> status e = 400 \<and> reason e = why"
  by (induction acc ms supported why rule: normalize_loop.induct)
    (auto split: option.splits if_splits)

section \<open>Properties of selectors\<close>

text \<open>
  Splitting a selector's label list is exact: the parts it returns are the one way to
  cut the text at commas into nonempty lists of parts each of whose quotes are closed and
  whose unquoted text has no comma.
\<close>

theorem split_label_matchers_exact:
  "split_label_matchers raw why = Inr parts \<longleftrightarrow>
     parts \<noteq> [] \<and> join '','' parts = raw \<and> list_all balanced_part parts"
proof
  assume "split_label_matchers raw why = Inr parts"
  then have scan: "split_scan False False [] raw = (parts, False)"
    by (auto simp: split_label_matchers_def split: prod.splits if_splits)
  with split_scan_join [OF scan] split_scan_balanced [OF scan]
  show "parts \<noteq> [] \<and> join '','' parts = raw \<and> list_all balanced_part parts" by simp
next
  assume "parts \<noteq> [] \<and> join '','' parts = raw \<and> list_all balanced_part parts"
  with split_scan_of_balanced [of parts] show "split_label_matchers raw why = Inr parts"
    by (auto simp: split_label_matchers_def)
qed

text \<open>
  C7. Printing and parsing a selector is a round trip, for every name of identifier
  characters and all matchers whose value has no quote or backslash and none of the
  operators the parser would look for before the matcher's own.
\<close>

theorem selector_roundtrip:
  assumes "list_all is_ident_char name" and "list_all printable ms"
  shows "parse_selector_matchers (print_selector name ms) why = Inr (name, ms)"
  by (rule parse_print_selector [OF assms])

theorem selector_roundtrip_witness:
  "parse_selector_matchers
     (print_selector ''up'' [\<lparr>field = ''http.route'', mvalue = ''/a,b{c}'', match_op = NotRegex\<rparr>,
                            \<lparr>field = ''job'', mvalue = '' x '', match_op = Eq\<rparr>]) ''bad'' =
   Inr (''up'', [\<lparr>field = ''http.route'', mvalue = ''/a,b{c}'', match_op = NotRegex\<rparr>,
                 \<lparr>field = ''job'', mvalue = '' x '', match_op = Eq\<rparr>])"
  by (rule selector_roundtrip)
    (simp_all add: printable_def is_ident_char_def str_contains_def starts_with_def)

text \<open>
  C17. Normalising accepts a list of matchers exactly when every field is a supported
  spelling and no two equalities on one label contradict each other; the result is then
  the same matchers, in order, with each field replaced by its canonical name.
\<close>

theorem normalize_matchers_exact:
  "normalize_matchers ms supported why = Inr ns \<longleftrightarrow>
     list_all (\<lambda>m. map_of supported (field m) \<noteq> None) ms \<and>
     ns = map (canonical_matcher supported) ms \<and> consistent ns"
  by (simp add: normalize_matchers_iff list_all_iff)

text \<open>Operators are looked for in the quoted value too: the label and the operator are then wrong.\<close>

lemma operator_inside_value:
  "case parse_label_matchers ''service_name=\"a!=b\"'' why of
     Inr [m] \<Rightarrow> field m = ''service_name=\"a'' \<and> match_op m = NotEq | _ \<Rightarrow> False"
  by code_simp

end
