(* ===== verification/Sql.thy ===== *)
theory Sql
  imports Rust_Str
begin

text \<open>
  The SQL text builders of \<^verbatim>\<open>src/src/db/sql.rs\<close> and a reader for SQL string
  literals. Times are nanoseconds since the epoch; rendering one as a timestamp is the
  time library's work, so \<open>fmt\<close> is an argument wherever the code calls it.

  \<open>sql_code\<close> is the text a statement has outside its string literals: what a value
  must never be able to change.
\<close>

section \<open>Quoting\<close>

definition escape_value :: "string \<Rightarrow> string" where
  "escape_value value = concat (map (\<lambda>c. if c = SQ then [SQ, SQ] else [c]) value)"

definition quote :: "string \<Rightarrow> string" where
  "quote value = [SQ] @ escape_value value @ [SQ]"

section \<open>Predicates and expressions\<close>

definition time_predicate :: "(int \<Rightarrow> string) \<Rightarrow> string \<Rightarrow> int \<Rightarrow> int \<Rightarrow> string" where
  "time_predicate fmt time_col from to =
     time_col @ '' >= TIMESTAMP '' @ quote (fmt from) @ '' AND '' @
     time_col @ '' < TIMESTAMP '' @ quote (fmt to)"

definition json_attr :: "string \<Rightarrow> string \<Rightarrow> string" where
  "json_attr column key =
     ''json_extract_string('' @ column @ '', '' @ [SQ] @ ''$.'' @ [DQ] @ key @ [DQ] @ [SQ] @ '')''"

definition json_attr_i32 :: "string \<Rightarrow> string \<Rightarrow> string" where
  "json_attr_i32 column key = ''try_cast('' @ json_attr column key @ '' AS INTEGER)''"

definition coalesce_expr :: "string list \<Rightarrow> string" where
  "coalesce_expr exprs = ''coalesce('' @ join '', '' exprs @ '')''"

definition logs_deployment_environment_expr :: "unit \<Rightarrow> string" where
  "logs_deployment_environment_expr _ = json_attr ''resource_attributes'' ''deployment.environment''"

definition logs_http_method_expr :: "unit \<Rightarrow> string" where
  "logs_http_method_expr _ =
     coalesce_expr
       [json_attr ''log_attributes'' ''http.request.method'',
        json_attr ''log_attributes'' ''http.method'']"

definition logs_http_status_code_expr :: "unit \<Rightarrow> string" where
  "logs_http_status_code_expr _ =
     coalesce_expr
       [json_attr_i32 ''log_attributes'' ''http.response.status_code'',
        json_attr_i32 ''log_attributes'' ''http.status_code'']"

definition logs_http_route_expr :: "unit \<Rightarrow> string" where
  "logs_http_route_expr _ = json_attr ''log_attributes'' ''http.route''"

definition spans_deployment_environment_expr :: "unit \<Rightarrow> string" where
  "spans_deployment_environment_expr _ = json_attr ''resource_attributes'' ''deployment.environment''"

definition spans_http_method_expr :: "unit \<Rightarrow> string" where
  "spans_http_method_expr _ =
     coalesce_expr
       [json_attr ''span_attributes'' ''http.request.method'',
        json_attr ''span_attributes'' ''http.method'']"

definition spans_http_status_code_expr :: "unit \<Rightarrow> string" where
  "spans_http_status_code_expr _ =
     coalesce_expr
       [json_attr_i32 ''span_attributes'' ''http.response.status_code'',
        json_attr_i32 ''span_attributes'' ''http.status_code'']"

definition spans_http_route_expr :: "unit \<Rightarrow> string" where
  "spans_http_route_expr _ = json_attr ''span_attributes'' ''http.route''"

definition metrics_deployment_environment_expr :: "unit \<Rightarrow> string" where
  "metrics_deployment_environment_expr _ = json_attr ''resource_attributes'' ''deployment.environment''"

definition trace_id_hex_expr :: "unit \<Rightarrow> string" where
  "trace_id_hex_expr _ = ''lower(trace_id)''"

definition span_id_hex_expr :: "unit \<Rightarrow> string" where
  "span_id_hex_expr _ = ''lower(span_id)''"

lemmas sql_expr_defs =
  json_attr_def json_attr_i32_def coalesce_expr_def
  logs_deployment_environment_expr_def logs_http_method_expr_def
  logs_http_status_code_expr_def logs_http_route_expr_def
  spans_deployment_environment_expr_def spans_http_method_expr_def
  spans_http_status_code_expr_def spans_http_route_expr_def
  metrics_deployment_environment_expr_def trace_id_hex_expr_def span_id_hex_expr_def

section \<open>Reading SQL string literals\<close>

text \<open>
  After an opening quote: the literal's value and the text after its closing quote. A
  doubled quote stands for one quote.
\<close>

fun read_literal :: "string \<Rightarrow> (string \<times> string) option" where
  "read_literal [] = None"
| "read_literal [c] = (if c = SQ then Some ([], []) else None)"
| "read_literal (c # d # cs) =
     (if c \<noteq> SQ then map_option (\<lambda>(v, r). (c # v, r)) (read_literal (d # cs))
      else if d = SQ then map_option (\<lambda>(v, r). (SQ # v, r)) (read_literal cs)
      else Some ([], d # cs))"

text \<open>
  The text outside string literals, and whether a literal is still open at the end. A
  doubled quote inside a literal closes and reopens it, which leaves both unchanged.
\<close>

fun sql_code :: "bool \<Rightarrow> string \<Rightarrow> string" where
  "sql_code lit [] = []"
| "sql_code lit (c # cs) =
     (if c = SQ then sql_code (\<not> lit) cs
      else if lit then sql_code lit cs else c # sql_code lit cs)"

fun sql_open :: "bool \<Rightarrow> string \<Rightarrow> bool" where
  "sql_open lit [] = lit"
| "sql_open lit (c # cs) = sql_open (if c = SQ then \<not> lit else lit) cs"

lemma sql_open_append [simp]: "sql_open lit (a @ b) = sql_open (sql_open lit a) b"
  by (induction lit a rule: sql_open.induct) auto

lemma sql_code_append: "sql_code lit (a @ b) = sql_code lit a @ sql_code (sql_open lit a) b"
  by (induction a arbitrary: lit) auto

lemma sql_open_code_free: "SQ \<notin> set s \<Longrightarrow> sql_open lit s = lit"
  by (induction s) auto

lemma sql_code_free: "SQ \<notin> set s \<Longrightarrow> sql_code False s = s"
  by (induction s) auto

lemma escape_value_simps [simp]:
  "escape_value [] = []"
  "escape_value (c # cs) = (if c = SQ then [SQ, SQ] else [c]) @ escape_value cs"
  by (simp_all add: escape_value_def)

lemma read_literal_escape:
  "rest = [] \<or> hd rest \<noteq> SQ \<Longrightarrow> read_literal (escape_value v @ SQ # rest) = Some (v, rest)"
proof (induction v)
  case Nil
  then show ?case by (cases rest) auto
next
  case (Cons c v)
  then show ?case
    by (cases "escape_value v @ SQ # rest") auto
qed

lemma sql_open_escape [simp]: "sql_open True (escape_value v) = True"
  by (induction v) auto

lemma sql_code_escape [simp]: "sql_code True (escape_value v) = []"
  by (induction v) auto

section \<open>The quoting interface\<close>

text \<open>
  What a builder of SQL text needs from the function that quotes its values: the
  literal ends where it ends, adds nothing to the text outside literals, and reads back
  as the value it was made from.
\<close>

locale sql_quoting =
  fixes q :: "string \<Rightarrow> string"
  assumes q_closed: "sql_open False (q v) = False"
    and q_hidden: "sql_code False (q v) = []"
    and q_reads: "rest = [] \<or> hd rest \<noteq> SQ \<Longrightarrow> \<exists>s. q v = SQ # s \<and> read_literal (s @ rest) = Some (v, rest)"
begin

lemma code_around_value:
  "sql_open False a = False \<Longrightarrow>
   sql_code False (a @ q v @ b) = sql_code False a @ sql_code False b"
  by (simp add: sql_code_append q_closed q_hidden)

lemma open_around_value:
  "sql_open False a = False \<Longrightarrow> sql_open False (a @ q v @ b) = sql_open False b"
  by (simp add: q_closed)

lemma value_cannot_matter:
  "sql_open False a = False \<Longrightarrow>
   sql_code False (a @ q v @ b) = sql_code False (a @ q w @ b)"
  by (simp only: code_around_value)

lemma q_injective: "q v = q w \<Longrightarrow> v = w"
proof -
  assume eq: "q v = q w"
  from q_reads [of "[]" v] obtain s where s: "q v = SQ # s" "read_literal s = Some (v, [])"
    by auto
  from q_reads [of "[]" w] obtain t where t: "q w = SQ # t" "read_literal t = Some (w, [])"
    by auto
  from eq s t show ?thesis by simp
qed

end

interpretation lit: sql_quoting quote
proof
  fix v rest :: string
  show "sql_open False (quote v) = False"
    by (simp add: quote_def)
  show "sql_code False (quote v) = []"
    by (simp add: quote_def sql_code_append)
  show "\<exists>s. quote v = SQ # s \<and> read_literal (s @ rest) = Some (v, rest)"
    if "rest = [] \<or> hd rest \<noteq> SQ"
    using that by (simp add: quote_def read_literal_escape)
qed

text \<open>
  A builder's text is \<^emph>\<open>closed\<close> when every literal it opens it also closes, so that
  what follows it is read outside a literal.
\<close>

definition closed_sql :: "string \<Rightarrow> bool" where
  "closed_sql s = (\<not> sql_open False s)"

lemma closed_sql_append [intro]:
  "closed_sql a \<Longrightarrow> closed_sql b \<Longrightarrow> closed_sql (a @ b)"
  by (simp add: closed_sql_def)

lemma closed_sql_quote [simp, intro]: "closed_sql (quote v)"
  by (simp add: closed_sql_def lit.q_closed)

lemma closed_sql_free: "SQ \<notin> set s \<Longrightarrow> closed_sql s"
  by (simp add: closed_sql_def sql_open_code_free)

lemma sql_code_closed_append:
  "closed_sql a \<Longrightarrow> sql_code False (a @ b) = sql_code False a @ sql_code False b"
  by (simp add: closed_sql_def sql_code_append)

lemma closed_sql_join:
  "closed_sql sep \<Longrightarrow> list_all closed_sql xs \<Longrightarrow> closed_sql (join sep xs)"
  by (induction xs) (auto simp: join_Cons closed_sql_def)

lemma sql_code_join:
  "closed_sql sep \<Longrightarrow> list_all closed_sql xs \<Longrightarrow>
   sql_code False (join sep xs) = join (sql_code False sep) (map (sql_code False) xs)"
  by (induction xs) (auto simp: join_Cons sql_code_closed_append)

section \<open>Property\<close>

text \<open>
  Quoting is a round trip: reading the literal that quoting produced gives back the
  value, whatever it contains, and ends exactly at the literal's own closing quote.
\<close>

theorem quote_reads_back:
  assumes "rest = [] \<or> hd rest \<noteq> SQ"
  shows "\<exists>body. quote v = SQ # body \<and> read_literal (body @ rest) = Some (v, rest)"
  using lit.q_reads [OF assms] .

theorem quote_reads_back_witness:
  "\<exists>body. quote (''it'' @ [SQ] @ ''s'') = SQ # body \<and>
     read_literal (body @ '' OR 1=1'') = Some (''it'' @ [SQ] @ ''s'', '' OR 1=1'')"
  by (rule quote_reads_back) simp

end
