(* ===== verification/Label_Table.thy ===== *)
theory Label_Table
  imports Sql
begin

text \<open>
  The label registry's data: the types of \<^verbatim>\<open>src/src/semantic_labels.rs\<close>, its
  source lists and its label definitions, in the order of the file. A label names a
  canonical field, the spellings clients may use for it, and for each signal it exists
  in the SQL expression it is read from.
\<close>

section \<open>Types\<close>

datatype LabelScope = Logs | Spans | Metrics

datatype LabelSource =
  Column string
| ResourceAttr string
| SpanAttr string
| MetricAttr string
| Sql "unit \<Rightarrow> string"
| Missing

record ScopedLabelSource =
  scope :: LabelScope
  source :: LabelSource

record LabelDef =
  canonical :: string
  aliases :: "string list"
  sources :: "ScopedLabelSource list"
  loki_stream :: bool
  tempo_tag :: "string option"
  prom_promoted :: bool
  project :: "LabelScope list"

section \<open>Where labels are read from, and the labels\<close>

definition SERVICE_NAME_SOURCES :: "ScopedLabelSource list" where
  "SERVICE_NAME_SOURCES =
    [\<lparr>scope = Logs, source = Column ''service_name''\<rparr>,
     \<lparr>scope = Spans, source = Column ''service_name''\<rparr>,
     \<lparr>scope = Metrics, source = Column ''service_name''\<rparr>]"

definition SERVICE_NAMESPACE_SOURCES :: "ScopedLabelSource list" where
  "SERVICE_NAMESPACE_SOURCES =
    [\<lparr>scope = Logs, source = Column ''service_namespace''\<rparr>,
     \<lparr>scope = Spans, source = Column ''service_namespace''\<rparr>,
     \<lparr>scope = Metrics, source = Column ''service_namespace''\<rparr>]"

definition SERVICE_INSTANCE_SOURCES :: "ScopedLabelSource list" where
  "SERVICE_INSTANCE_SOURCES =
    [\<lparr>scope = Logs, source = Column ''service_instance_id''\<rparr>,
     \<lparr>scope = Spans, source = Column ''service_instance_id''\<rparr>,
     \<lparr>scope = Metrics, source = Column ''service_instance_id''\<rparr>]"

definition DEPLOYMENT_ENV_SOURCES :: "ScopedLabelSource list" where
  "DEPLOYMENT_ENV_SOURCES =
    [\<lparr>scope = Logs, source = Sql logs_deployment_environment_expr\<rparr>,
     \<lparr>scope = Spans, source = Sql spans_deployment_environment_expr\<rparr>,
     \<lparr>scope = Metrics, source = Sql metrics_deployment_environment_expr\<rparr>]"

definition HOST_NAME_SOURCES :: "ScopedLabelSource list" where
  "HOST_NAME_SOURCES =
    [\<lparr>scope = Logs, source = ResourceAttr ''host.name''\<rparr>,
     \<lparr>scope = Spans, source = ResourceAttr ''host.name''\<rparr>,
     \<lparr>scope = Metrics, source = ResourceAttr ''host.name''\<rparr>]"

definition K8S_CLUSTER_SOURCES :: "ScopedLabelSource list" where
  "K8S_CLUSTER_SOURCES =
    [\<lparr>scope = Logs, source = ResourceAttr ''k8s.cluster.name''\<rparr>,
     \<lparr>scope = Spans, source = ResourceAttr ''k8s.cluster.name''\<rparr>,
     \<lparr>scope = Metrics, source = ResourceAttr ''k8s.cluster.name''\<rparr>]"

definition K8S_NODE_SOURCES :: "ScopedLabelSource list" where
  "K8S_NODE_SOURCES =
    [\<lparr>scope = Logs, source = ResourceAttr ''k8s.node.name''\<rparr>,
     \<lparr>scope = Spans, source = ResourceAttr ''k8s.node.name''\<rparr>,
     \<lparr>scope = Metrics, source = ResourceAttr ''k8s.node.name''\<rparr>]"

definition K8S_STATEFULSET_SOURCES :: "ScopedLabelSource list" where
  "K8S_STATEFULSET_SOURCES =
    [\<lparr>scope = Logs, source = ResourceAttr ''k8s.statefulset.name''\<rparr>,
     \<lparr>scope = Spans, source = ResourceAttr ''k8s.statefulset.name''\<rparr>,
     \<lparr>scope = Metrics, source = ResourceAttr ''k8s.statefulset.name''\<rparr>]"

definition K8S_DEPLOYMENT_SOURCES :: "ScopedLabelSource list" where
  "K8S_DEPLOYMENT_SOURCES =
    [\<lparr>scope = Logs, source = ResourceAttr ''k8s.deployment.name''\<rparr>,
     \<lparr>scope = Spans, source = ResourceAttr ''k8s.deployment.name''\<rparr>,
     \<lparr>scope = Metrics, source = ResourceAttr ''k8s.deployment.name''\<rparr>]"

definition LOG_SCOPE_SOURCES :: "ScopedLabelSource list" where
  "LOG_SCOPE_SOURCES =
    [\<lparr>scope = Logs, source = Column ''scope_name''\<rparr>]"

definition LOG_SEVERITY_SOURCES :: "ScopedLabelSource list" where
  "LOG_SEVERITY_SOURCES =
    [\<lparr>scope = Logs, source = Column ''severity_text''\<rparr>]"

definition TRACE_ID_SOURCES :: "ScopedLabelSource list" where
  "TRACE_ID_SOURCES =
    [\<lparr>scope = Logs, source = Sql trace_id_hex_expr\<rparr>,
     \<lparr>scope = Spans, source = Sql trace_id_hex_expr\<rparr>]"

definition SPAN_ID_SOURCES :: "ScopedLabelSource list" where
  "SPAN_ID_SOURCES =
    [\<lparr>scope = Logs, source = Sql span_id_hex_expr\<rparr>,
     \<lparr>scope = Spans, source = Sql span_id_hex_expr\<rparr>]"

definition HTTP_ROUTE_SOURCES :: "ScopedLabelSource list" where
  "HTTP_ROUTE_SOURCES =
    [\<lparr>scope = Logs, source = Sql logs_http_route_expr\<rparr>,
     \<lparr>scope = Spans, source = Sql spans_http_route_expr\<rparr>,
     \<lparr>scope = Metrics, source = MetricAttr ''http.route''\<rparr>]"

definition HTTP_METHOD_SOURCES :: "ScopedLabelSource list" where
  "HTTP_METHOD_SOURCES =
    [\<lparr>scope = Logs, source = Sql logs_http_method_expr\<rparr>,
     \<lparr>scope = Spans, source = Sql spans_http_method_expr\<rparr>,
     \<lparr>scope = Metrics, source = MetricAttr ''http.request.method''\<rparr>]"

definition HTTP_STATUS_SOURCES :: "ScopedLabelSource list" where
  "HTTP_STATUS_SOURCES =
    [\<lparr>scope = Logs, source = Sql logs_http_status_code_expr\<rparr>,
     \<lparr>scope = Spans, source = Sql spans_http_status_code_expr\<rparr>]"

definition HTTP_RESPONSE_STATUS_METRIC_SOURCES :: "ScopedLabelSource list" where
  "HTTP_RESPONSE_STATUS_METRIC_SOURCES =
    [\<lparr>scope = Metrics, source = MetricAttr ''http.response.status_code''\<rparr>]"

definition SPAN_NAME_SOURCES :: "ScopedLabelSource list" where
  "SPAN_NAME_SOURCES =
    [\<lparr>scope = Spans, source = Column ''name''\<rparr>,
     \<lparr>scope = Metrics, source = MetricAttr ''span.name''\<rparr>]"

definition STATUS_CODE_SOURCES :: "ScopedLabelSource list" where
  "STATUS_CODE_SOURCES =
    [\<lparr>scope = Spans, source = Column ''status_code''\<rparr>,
     \<lparr>scope = Metrics, source = MetricAttr ''status.code''\<rparr>]"

definition JOB_SOURCES :: "ScopedLabelSource list" where
  "JOB_SOURCES =
    [\<lparr>scope = Metrics, source = Missing\<rparr>]"

definition INSTANCE_SOURCES :: "ScopedLabelSource list" where
  "INSTANCE_SOURCES =
    [\<lparr>scope = Metrics, source = Missing\<rparr>]"

definition METRIC_STATE_SOURCES :: "ScopedLabelSource list" where
  "METRIC_STATE_SOURCES =
    [\<lparr>scope = Metrics, source = MetricAttr ''state''\<rparr>]"

definition METRIC_TYPE_SOURCES :: "ScopedLabelSource list" where
  "METRIC_TYPE_SOURCES =
    [\<lparr>scope = Metrics, source = MetricAttr ''type''\<rparr>]"

definition METRIC_CPU_SOURCES :: "ScopedLabelSource list" where
  "METRIC_CPU_SOURCES =
    [\<lparr>scope = Metrics, source = MetricAttr ''cpu''\<rparr>]"

definition METRIC_EXPORTER_SOURCES :: "ScopedLabelSource list" where
  "METRIC_EXPORTER_SOURCES =
    [\<lparr>scope = Metrics, source = MetricAttr ''exporter''\<rparr>]"

definition METRIC_RECEIVER_SOURCES :: "ScopedLabelSource list" where
  "METRIC_RECEIVER_SOURCES =
    [\<lparr>scope = Metrics, source = MetricAttr ''receiver''\<rparr>]"

definition METRIC_PROCESSOR_SOURCES :: "ScopedLabelSource list" where
  "METRIC_PROCESSOR_SOURCES =
    [\<lparr>scope = Metrics, source = MetricAttr ''processor''\<rparr>]"

definition OTEL_SIGNAL_SOURCES :: "ScopedLabelSource list" where
  "OTEL_SIGNAL_SOURCES =
    [\<lparr>scope = Metrics, source = MetricAttr ''otel_signal''\<rparr>]"

definition DATA_TYPE_SOURCES :: "ScopedLabelSource list" where
  "DATA_TYPE_SOURCES =
    [\<lparr>scope = Metrics, source = MetricAttr ''data_type''\<rparr>]"

definition POSTGRES_DB_SOURCES :: "ScopedLabelSource list" where
  "POSTGRES_DB_SOURCES =
    [\<lparr>scope = Metrics, source = MetricAttr ''postgresql.database.name''\<rparr>]"

definition RPC_SERVICE_SOURCES :: "ScopedLabelSource list" where
  "RPC_SERVICE_SOURCES =
    [\<lparr>scope = Spans, source = SpanAttr ''rpc.service''\<rparr>,
     \<lparr>scope = Metrics, source = MetricAttr ''rpc.service''\<rparr>]"

definition RPC_METHOD_SOURCES :: "ScopedLabelSource list" where
  "RPC_METHOD_SOURCES =
    [\<lparr>scope = Spans, source = SpanAttr ''rpc.method''\<rparr>,
     \<lparr>scope = Metrics, source = MetricAttr ''rpc.method''\<rparr>]"

definition RPC_GRPC_STATUS_SOURCES :: "ScopedLabelSource list" where
  "RPC_GRPC_STATUS_SOURCES =
    [\<lparr>scope = Spans, source = SpanAttr ''rpc.grpc.status_code''\<rparr>,
     \<lparr>scope = Metrics, source = MetricAttr ''rpc.grpc.status_code''\<rparr>]"

definition SERVER_ADDRESS_SOURCES :: "ScopedLabelSource list" where
  "SERVER_ADDRESS_SOURCES =
    [\<lparr>scope = Spans, source = SpanAttr ''server.address''\<rparr>,
     \<lparr>scope = Metrics, source = MetricAttr ''server.address''\<rparr>]"

definition DB_NAMESPACE_SOURCES :: "ScopedLabelSource list" where
  "DB_NAMESPACE_SOURCES =
    [\<lparr>scope = Spans, source = SpanAttr ''db.namespace''\<rparr>,
     \<lparr>scope = Metrics, source = MetricAttr ''db.namespace''\<rparr>]"

definition URL_TEMPLATE_SOURCES :: "ScopedLabelSource list" where
  "URL_TEMPLATE_SOURCES =
    [\<lparr>scope = Metrics, source = MetricAttr ''url.template''\<rparr>]"

definition EXCEPTION_TYPE_SOURCES :: "ScopedLabelSource list" where
  "EXCEPTION_TYPE_SOURCES =
    [\<lparr>scope = Spans, source = SpanAttr ''exception.type''\<rparr>]"

definition label_service_name :: LabelDef where
  "label_service_name =
    \<lparr>canonical = ''service_name'',
     aliases = [''service.name'', ''resource.service.name'', ''serviceName'',
        ''service-name''],
     sources = SERVICE_NAME_SOURCES,
     loki_stream = True,
     tempo_tag = Some ''service.name'',
     prom_promoted = True,
     project = [Logs]\<rparr>"

definition label_service_namespace :: LabelDef where
  "label_service_namespace =
    \<lparr>canonical = ''service_namespace'',
     aliases = [''service.namespace'', ''resource.service.namespace'', ''service-namespace''],
     sources = SERVICE_NAMESPACE_SOURCES,
     loki_stream = True,
     tempo_tag = Some ''service.namespace'',
     prom_promoted = False,
     project = [Logs]\<rparr>"

definition label_service_instance_id :: LabelDef where
  "label_service_instance_id =
    \<lparr>canonical = ''service_instance_id'',
     aliases = [''service.instance.id'', ''resource.service.instance.id'', ''service-instance-id''],
     sources = SERVICE_INSTANCE_SOURCES,
     loki_stream = True,
     tempo_tag = Some ''service.instance.id'',
     prom_promoted = False,
     project = [Logs]\<rparr>"

definition label_deployment_environment :: LabelDef where
  "label_deployment_environment =
    \<lparr>canonical = ''deployment_environment'',
     aliases = [''deployment.environment'', ''deployment_environment_name'', ''deployment-environment''],
     sources = DEPLOYMENT_ENV_SOURCES,
     loki_stream = True,
     tempo_tag = Some ''deployment.environment'',
     prom_promoted = True,
     project = [Logs]\<rparr>"

definition label_host_name :: LabelDef where
  "label_host_name =
    \<lparr>canonical = ''host_name'',
     aliases = [''host.name'', ''resource.host.name'', ''host-name''],
     sources = HOST_NAME_SOURCES,
     loki_stream = True,
     tempo_tag = Some ''host.name'',
     prom_promoted = False,
     project = [Logs]\<rparr>"

definition label_k8s_cluster_name :: LabelDef where
  "label_k8s_cluster_name =
    \<lparr>canonical = ''k8s_cluster_name'',
     aliases = [''k8s.cluster.name''],
     sources = K8S_CLUSTER_SOURCES,
     loki_stream = False,
     tempo_tag = None,
     prom_promoted = False,
     project = []\<rparr>"

definition label_k8s_node_name :: LabelDef where
  "label_k8s_node_name =
    \<lparr>canonical = ''k8s_node_name'',
     aliases = [''k8s.node.name''],
     sources = K8S_NODE_SOURCES,
     loki_stream = False,
     tempo_tag = None,
     prom_promoted = False,
     project = []\<rparr>"

definition label_k8s_statefulset_name :: LabelDef where
  "label_k8s_statefulset_name =
    \<lparr>canonical = ''k8s_statefulset_name'',
     aliases = [''k8s.statefulset.name''],
     sources = K8S_STATEFULSET_SOURCES,
     loki_stream = False,
     tempo_tag = None,
     prom_promoted = False,
     project = []\<rparr>"

definition label_k8s_deployment_name :: LabelDef where
  "label_k8s_deployment_name =
    \<lparr>canonical = ''k8s_deployment_name'',
     aliases = [''k8s.deployment.name''],
     sources = K8S_DEPLOYMENT_SOURCES,
     loki_stream = False,
     tempo_tag = Some ''k8s.deployment.name'',
     prom_promoted = False,
     project = []\<rparr>"

definition label_scope_name :: LabelDef where
  "label_scope_name =
    \<lparr>canonical = ''scope_name'',
     aliases = [''instrumentationScope.name'', ''instrumentation_scope_name''],
     sources = LOG_SCOPE_SOURCES,
     loki_stream = True,
     tempo_tag = None,
     prom_promoted = False,
     project = [Logs]\<rparr>"

definition label_severity_text :: LabelDef where
  "label_severity_text =
    \<lparr>canonical = ''severity_text'',
     aliases = [''severity.text''],
     sources = LOG_SEVERITY_SOURCES,
     loki_stream = True,
     tempo_tag = None,
     prom_promoted = False,
     project = [Logs]\<rparr>"

definition label_trace_id :: LabelDef where
  "label_trace_id =
    \<lparr>canonical = ''trace_id'',
     aliases = [''traceID''],
     sources = TRACE_ID_SOURCES,
     loki_stream = True,
     tempo_tag = Some ''traceID'',
     prom_promoted = False,
     project = [Logs]\<rparr>"

definition label_span_id :: LabelDef where
  "label_span_id =
    \<lparr>canonical = ''span_id'',
     aliases = [''spanID''],
     sources = SPAN_ID_SOURCES,
     loki_stream = True,
     tempo_tag = Some ''spanID'',
     prom_promoted = False,
     project = [Logs]\<rparr>"

definition label_http_route :: LabelDef where
  "label_http_route =
    \<lparr>canonical = ''http_route'',
     aliases = [''http.route'', ''http-route''],
     sources = HTTP_ROUTE_SOURCES,
     loki_stream = True,
     tempo_tag = Some ''http.route'',
     prom_promoted = False,
     project = [Logs]\<rparr>"

definition label_http_method :: LabelDef where
  "label_http_method =
    \<lparr>canonical = ''http_method'',
     aliases = [''http.method'', ''http.request.method'', ''http-method''],
     sources = HTTP_METHOD_SOURCES,
     loki_stream = True,
     tempo_tag = Some ''http.method'',
     prom_promoted = False,
     project = [Logs]\<rparr>"

definition label_http_status_code :: LabelDef where
  "label_http_status_code =
    \<lparr>canonical = ''http_status_code'',
     aliases = [''http.status_code'', ''http.response.status_code'', ''http-status-code''],
     sources = HTTP_STATUS_SOURCES,
     loki_stream = False,
     tempo_tag = Some ''http.status_code'',
     prom_promoted = False,
     project = [Logs]\<rparr>"

definition label_http_response_status_code :: LabelDef where
  "label_http_response_status_code =
    \<lparr>canonical = ''http_response_status_code'',
     aliases = [''http.response.status_code''],
     sources = HTTP_RESPONSE_STATUS_METRIC_SOURCES,
     loki_stream = False,
     tempo_tag = None,
     prom_promoted = False,
     project = []\<rparr>"

definition label_span_name :: LabelDef where
  "label_span_name =
    \<lparr>canonical = ''span_name'',
     aliases = [''span.name'', ''span-name'', ''name''],
     sources = SPAN_NAME_SOURCES,
     loki_stream = False,
     tempo_tag = Some ''span.name'',
     prom_promoted = False,
     project = []\<rparr>"

definition label_status_code :: LabelDef where
  "label_status_code =
    \<lparr>canonical = ''status_code'',
     aliases = [''status.code'', ''status''],
     sources = STATUS_CODE_SOURCES,
     loki_stream = False,
     tempo_tag = Some ''status.code'',
     prom_promoted = False,
     project = []\<rparr>"

definition label_job :: LabelDef where
  "label_job =
    \<lparr>canonical = ''job'',
     aliases = [],
     sources = JOB_SOURCES,
     loki_stream = False,
     tempo_tag = None,
     prom_promoted = False,
     project = []\<rparr>"

definition label_instance :: LabelDef where
  "label_instance =
    \<lparr>canonical = ''instance'',
     aliases = [],
     sources = INSTANCE_SOURCES,
     loki_stream = False,
     tempo_tag = None,
     prom_promoted = False,
     project = []\<rparr>"

definition label_state :: LabelDef where
  "label_state =
    \<lparr>canonical = ''state'',
     aliases = [],
     sources = METRIC_STATE_SOURCES,
     loki_stream = False,
     tempo_tag = None,
     prom_promoted = False,
     project = []\<rparr>"

definition label_type :: LabelDef where
  "label_type =
    \<lparr>canonical = ''type'',
     aliases = [],
     sources = METRIC_TYPE_SOURCES,
     loki_stream = False,
     tempo_tag = None,
     prom_promoted = False,
     project = []\<rparr>"

definition label_cpu :: LabelDef where
  "label_cpu =
    \<lparr>canonical = ''cpu'',
     aliases = [],
     sources = METRIC_CPU_SOURCES,
     loki_stream = False,
     tempo_tag = None,
     prom_promoted = False,
     project = []\<rparr>"

definition label_exporter :: LabelDef where
  "label_exporter =
    \<lparr>canonical = ''exporter'',
     aliases = [],
     sources = METRIC_EXPORTER_SOURCES,
     loki_stream = False,
     tempo_tag = None,
     prom_promoted = False,
     project = []\<rparr>"

definition label_receiver :: LabelDef where
  "label_receiver =
    \<lparr>canonical = ''receiver'',
     aliases = [],
     sources = METRIC_RECEIVER_SOURCES,
     loki_stream = False,
     tempo_tag = None,
     prom_promoted = False,
     project = []\<rparr>"

definition label_processor :: LabelDef where
  "label_processor =
    \<lparr>canonical = ''processor'',
     aliases = [],
     sources = METRIC_PROCESSOR_SOURCES,
     loki_stream = False,
     tempo_tag = None,
     prom_promoted = False,
     project = []\<rparr>"

definition label_otel_signal :: LabelDef where
  "label_otel_signal =
    \<lparr>canonical = ''otel_signal'',
     aliases = [],
     sources = OTEL_SIGNAL_SOURCES,
     loki_stream = False,
     tempo_tag = None,
     prom_promoted = False,
     project = []\<rparr>"

definition label_data_type :: LabelDef where
  "label_data_type =
    \<lparr>canonical = ''data_type'',
     aliases = [],
     sources = DATA_TYPE_SOURCES,
     loki_stream = False,
     tempo_tag = None,
     prom_promoted = False,
     project = []\<rparr>"

definition label_postgresql_database_name :: LabelDef where
  "label_postgresql_database_name =
    \<lparr>canonical = ''postgresql_database_name'',
     aliases = [''postgresql.database.name''],
     sources = POSTGRES_DB_SOURCES,
     loki_stream = False,
     tempo_tag = None,
     prom_promoted = False,
     project = []\<rparr>"

definition label_rpc_service :: LabelDef where
  "label_rpc_service =
    \<lparr>canonical = ''rpc_service'',
     aliases = [''rpc.service''],
     sources = RPC_SERVICE_SOURCES,
     loki_stream = False,
     tempo_tag = Some ''rpc.service'',
     prom_promoted = False,
     project = []\<rparr>"

definition label_rpc_method :: LabelDef where
  "label_rpc_method =
    \<lparr>canonical = ''rpc_method'',
     aliases = [''rpc.method''],
     sources = RPC_METHOD_SOURCES,
     loki_stream = False,
     tempo_tag = Some ''rpc.method'',
     prom_promoted = False,
     project = []\<rparr>"

definition label_rpc_grpc_status_code :: LabelDef where
  "label_rpc_grpc_status_code =
    \<lparr>canonical = ''rpc_grpc_status_code'',
     aliases = [''rpc.grpc.status_code''],
     sources = RPC_GRPC_STATUS_SOURCES,
     loki_stream = False,
     tempo_tag = Some ''rpc.grpc.status_code'',
     prom_promoted = False,
     project = []\<rparr>"

definition label_server_address :: LabelDef where
  "label_server_address =
    \<lparr>canonical = ''server_address'',
     aliases = [''server.address''],
     sources = SERVER_ADDRESS_SOURCES,
     loki_stream = False,
     tempo_tag = Some ''server.address'',
     prom_promoted = False,
     project = []\<rparr>"

definition label_url_template :: LabelDef where
  "label_url_template =
    \<lparr>canonical = ''url_template'',
     aliases = [''url.template''],
     sources = URL_TEMPLATE_SOURCES,
     loki_stream = False,
     tempo_tag = None,
     prom_promoted = False,
     project = []\<rparr>"

definition label_db_namespace :: LabelDef where
  "label_db_namespace =
    \<lparr>canonical = ''db_namespace'',
     aliases = [''db.namespace''],
     sources = DB_NAMESPACE_SOURCES,
     loki_stream = False,
     tempo_tag = Some ''db.namespace'',
     prom_promoted = False,
     project = []\<rparr>"

definition label_exception_type :: LabelDef where
  "label_exception_type =
    \<lparr>canonical = ''exception_type'',
     aliases = [''exception.type''],
     sources = EXCEPTION_TYPE_SOURCES,
     loki_stream = False,
     tempo_tag = Some ''exception.type'',
     prom_promoted = False,
     project = []\<rparr>"

definition LABELS :: "LabelDef list" where
  "LABELS =
    [label_service_name, label_service_namespace, label_service_instance_id,
     label_deployment_environment, label_host_name, label_k8s_cluster_name,
     label_k8s_node_name, label_k8s_statefulset_name, label_k8s_deployment_name,
     label_scope_name, label_severity_text, label_trace_id,
     label_span_id, label_http_route, label_http_method,
     label_http_status_code, label_http_response_status_code, label_span_name,
     label_status_code, label_job, label_instance,
     label_state, label_type, label_cpu,
     label_exporter, label_receiver, label_processor,
     label_otel_signal, label_data_type, label_postgresql_database_name,
     label_rpc_service, label_rpc_method, label_rpc_grpc_status_code,
     label_server_address, label_url_template, label_db_namespace,
     label_exception_type]"

lemmas source_defs =
  SERVICE_NAME_SOURCES_def SERVICE_NAMESPACE_SOURCES_def SERVICE_INSTANCE_SOURCES_def DEPLOYMENT_ENV_SOURCES_def
  HOST_NAME_SOURCES_def K8S_CLUSTER_SOURCES_def K8S_NODE_SOURCES_def K8S_STATEFULSET_SOURCES_def
  K8S_DEPLOYMENT_SOURCES_def LOG_SCOPE_SOURCES_def LOG_SEVERITY_SOURCES_def TRACE_ID_SOURCES_def
  SPAN_ID_SOURCES_def HTTP_ROUTE_SOURCES_def HTTP_METHOD_SOURCES_def HTTP_STATUS_SOURCES_def
  HTTP_RESPONSE_STATUS_METRIC_SOURCES_def SPAN_NAME_SOURCES_def STATUS_CODE_SOURCES_def JOB_SOURCES_def
  INSTANCE_SOURCES_def METRIC_STATE_SOURCES_def METRIC_TYPE_SOURCES_def METRIC_CPU_SOURCES_def
  METRIC_EXPORTER_SOURCES_def METRIC_RECEIVER_SOURCES_def METRIC_PROCESSOR_SOURCES_def OTEL_SIGNAL_SOURCES_def
  DATA_TYPE_SOURCES_def POSTGRES_DB_SOURCES_def RPC_SERVICE_SOURCES_def RPC_METHOD_SOURCES_def
  RPC_GRPC_STATUS_SOURCES_def SERVER_ADDRESS_SOURCES_def DB_NAMESPACE_SOURCES_def URL_TEMPLATE_SOURCES_def
  EXCEPTION_TYPE_SOURCES_def

lemmas label_defs =
  label_service_name_def label_service_namespace_def label_service_instance_id_def
  label_deployment_environment_def label_host_name_def label_k8s_cluster_name_def
  label_k8s_node_name_def label_k8s_statefulset_name_def label_k8s_deployment_name_def
  label_scope_name_def label_severity_text_def label_trace_id_def
  label_span_id_def label_http_route_def label_http_method_def
  label_http_status_code_def label_http_response_status_code_def label_span_name_def
  label_status_code_def label_job_def label_instance_def
  label_state_def label_type_def label_cpu_def
  label_exporter_def label_receiver_def label_processor_def
  label_otel_signal_def label_data_type_def label_postgresql_database_name_def
  label_rpc_service_def label_rpc_method_def label_rpc_grpc_status_code_def
  label_server_address_def label_url_template_def label_db_namespace_def
  label_exception_type_def

end
