(* ===== verification/Semantic_Labels.thy ===== *)
theory Semantic_Labels
  imports Label_Table "HOL-Library.List_Lexorder" "HOL-Library.Char_ord"
begin

text \<open>
  Lookups in the label registry (\<^verbatim>\<open>src/src/semantic_labels.rs\<close>): resolving the
  spelling a client used, finding a label's SQL expression, and the label lists each
  protocol advertises.
\<close>

section \<open>Operations\<close>

fun label_source_expr :: "LabelSource \<Rightarrow> string" where
  "label_source_expr (Column column) = column"
| "label_source_expr (ResourceAttr key) = json_attr ''resource_attributes'' key"
| "label_source_expr (SpanAttr key) = json_attr ''span_attributes'' key"
| "label_source_expr (MetricAttr key) = json_attr ''metric_attributes'' key"
| "label_source_expr (Sql expr) = expr ()"
| "label_source_expr Missing = ''NULL''"

definition has_scope :: "LabelDef \<Rightarrow> LabelScope \<Rightarrow> bool" where
  "has_scope label s = list_ex (\<lambda>src. scope src = s) (sources label)"

definition label_def :: "LabelScope \<Rightarrow> string \<Rightarrow> LabelDef option" where
  "label_def s name = List.find (\<lambda>label. canonical label = name \<and> has_scope label s) LABELS"

definition label_expr :: "LabelScope \<Rightarrow> string \<Rightarrow> string option" where
  "label_expr s name =
     Option.bind (label_def s name)
       (\<lambda>def. map_option (\<lambda>src. label_source_expr (source src))
                (List.find (\<lambda>src. scope src = s) (sources def)))"

definition alias_pairs :: "LabelScope \<Rightarrow> (string \<times> string) list" where
  "alias_pairs s =
     concat (map (\<lambda>label. if has_scope label s
                   then (canonical label, canonical label) #
                        map (\<lambda>alias. (alias, canonical label)) (aliases label)
                   else []) LABELS)"

definition canonical_for_alias :: "LabelScope \<Rightarrow> string \<Rightarrow> string option" where
  "canonical_for_alias s raw =
     (case label_def s raw of
        Some label \<Rightarrow> Some (canonical label)
      | None \<Rightarrow>
          find_map (\<lambda>label. if raw \<in> set (aliases label) then Some (canonical label) else None)
            (filter (\<lambda>label. has_scope label s) LABELS))"

definition loki_stream_labels :: "string list" where
  "loki_stream_labels =
     map canonical (filter (\<lambda>label. loki_stream label \<and> has_scope label Logs) LABELS)"

definition loki_label_names :: "string list" where
  "loki_label_names =
     map canonical (filter loki_stream (filter (\<lambda>label. has_scope label Logs) LABELS))"

definition projected_labels :: "LabelScope \<Rightarrow> (string \<times> string) list" where
  "projected_labels s =
     List.map_filter (\<lambda>label. map_option (\<lambda>expr. (canonical label, expr)) (label_expr s (canonical label)))
       (filter (\<lambda>label. s \<in> set (project label)) LABELS)"

definition prometheus_label_names :: "string list" where
  "prometheus_label_names =
     ''__name__'' #
     map canonical (filter prom_promoted (filter (\<lambda>label. has_scope label Metrics) LABELS))"

definition HIGH_CARDINALITY :: "string list" where
  "HIGH_CARDINALITY = [''trace_id'', ''span_id'', ''service_instance_id'']"

definition metadata_label_allowed :: "LabelScope \<Rightarrow> LabelDef \<Rightarrow> bool" where
  "metadata_label_allowed s label =
     (if canonical label \<in> set HIGH_CARDINALITY then False
      else (case s of
              Logs \<Rightarrow> loki_stream label
            | Spans \<Rightarrow> tempo_tag label \<noteq> None
            | Metrics \<Rightarrow> prom_promoted label))"

definition metadata_labels :: "LabelScope \<Rightarrow> (string \<times> string) list" where
  "metadata_labels s =
     List.map_filter
       (\<lambda>label. Option.bind (case s of Spans \<Rightarrow> tempo_tag label | _ \<Rightarrow> Some (canonical label))
          (\<lambda>metadata_name. map_option (\<lambda>expr. (metadata_name, expr)) (label_expr s (canonical label))))
       (filter (metadata_label_allowed s) (filter (\<lambda>label. has_scope label s) LABELS))"

definition prometheus_grouping_labels :: "string list" where
  "prometheus_grouping_labels = map canonical (filter (\<lambda>label. has_scope label Metrics) LABELS)"

text \<open>A \<open>BTreeSet\<close> of strings is read back in byte order, without duplicates.\<close>

definition tempo_tag_names :: "string list" where
  "tempo_tag_names =
     sort (remdups (concat (map
       (\<lambda>label. case tempo_tag label of
                  Some tag \<Rightarrow> tag # canonical label # aliases label
                | None \<Rightarrow> [])
       (filter (\<lambda>label. has_scope label Spans) LABELS))))"

definition tempo_tag_name :: "string \<Rightarrow> string option" where
  "tempo_tag_name raw =
     find_map (\<lambda>label. case tempo_tag label of
                 Some tag \<Rightarrow>
                   (if tag = raw \<or> canonical label = raw \<or> raw \<in> set (aliases label)
                    then Some tag else None)
               | None \<Rightarrow> None) LABELS"

section \<open>Laws that hold for any table\<close>

lemma has_scope_find:
  "has_scope label s \<Longrightarrow> \<exists>src. List.find (\<lambda>src. scope src = s) (sources label) = Some src"
  by (auto simp: has_scope_def list_ex_iff intro: find_exists)

lemma label_def_SomeD:
  "label_def s name = Some d \<Longrightarrow> d \<in> set LABELS \<and> canonical d = name \<and> has_scope d s"
  unfolding label_def_def by (blast dest: find_SomeD)

lemma label_def_registered:
  "d \<in> set LABELS \<Longrightarrow> has_scope d s \<Longrightarrow> \<exists>d'. label_def s (canonical d) = Some d'"
  unfolding label_def_def by (rule find_exists) auto

lemma label_expr_registered:
  assumes "d \<in> set LABELS" and "has_scope d s"
  shows "\<exists>e. label_expr s (canonical d) = Some e"
proof -
  obtain d' where d': "label_def s (canonical d) = Some d'"
    using label_def_registered [OF assms] by blast
  then obtain src where "List.find (\<lambda>src. scope src = s) (sources d') = Some src"
    using label_def_SomeD has_scope_find by blast
  with d' show ?thesis by (simp add: label_expr_def)
qed

lemma canonical_for_alias_SomeD:
  "canonical_for_alias s raw = Some c \<Longrightarrow>
   \<exists>d \<in> set LABELS. has_scope d s \<and> canonical d = c \<and> (raw = c \<or> raw \<in> set (aliases d))"
  unfolding canonical_for_alias_def
  by (auto dest!: label_def_SomeD find_map_SomeD split: option.splits if_splits)

lemma canonical_for_alias_canonical:
  assumes "d \<in> set LABELS" and "has_scope d s"
  shows "canonical_for_alias s (canonical d) = Some (canonical d)"
proof -
  obtain d' where d': "label_def s (canonical d) = Some d'"
    using label_def_registered [OF assms] by blast
  then have "canonical d' = canonical d" by (blast dest: label_def_SomeD)
  with d' show ?thesis by (simp add: canonical_for_alias_def)
qed

lemma alias_pairs_iff:
  "(raw, c) \<in> set (alias_pairs s) \<longleftrightarrow>
   (\<exists>d \<in> set LABELS. has_scope d s \<and> canonical d = c \<and> (raw = c \<or> raw \<in> set (aliases d)))"
  by (auto simp: alias_pairs_def split: if_splits)


section \<open>Facts about this table, by evaluation\<close>

lemma alias_pairs_distinct: "distinct (map fst (alias_pairs s))"
proof (cases s)
  case Logs
  then show ?thesis by (simp only:) code_simp
next
  case Spans
  then show ?thesis by (simp only:) code_simp
next
  case Metrics
  then show ?thesis by (simp only:) code_simp
qed

lemma label_sources_closed:
  "list_all (\<lambda>d. list_all (\<lambda>src. closed_sql (label_source_expr (source src))) (sources d)) LABELS"
  by code_simp

lemma projections_have_scope:
  "list_all (\<lambda>d. list_all (has_scope d) (project d)) LABELS"
  by code_simp

lemma canonicals_plain:
  "list_all (\<lambda>d. canonical d \<noteq> [] \<and> list_all (\<lambda>c. plain_char c \<and> c \<notin> set [SQ, DQ, BSLASH]) (canonical d)) LABELS"
  by code_simp

lemma tempo_tags_supported:
  "list_all (\<lambda>d. case tempo_tag d of None \<Rightarrow> True
     | Some tag \<Rightarrow> has_scope d Spans \<and> (tag = canonical d \<or> tag \<in> set (aliases d))) LABELS"
  by code_simp

lemma tempo_canonicals_distinct:
  "distinct (map canonical (filter (\<lambda>d. tempo_tag d \<noteq> None) LABELS))"
  by code_simp

lemma label_expr_closed: "label_expr s name = Some e \<Longrightarrow> closed_sql e"
  using label_sources_closed
  by (auto simp: label_expr_def bind_eq_Some_conv list_all_iff
      dest!: label_def_SomeD find_SomeD)

section \<open>The resolver interface\<close>

text \<open>
  What the query planner and the SQL builder rely on: an unambiguous list of accepted
  spellings, every one of which leads to a canonical name that is itself accepted and
  has a SQL expression whose string literals are closed.
\<close>

locale label_resolver =
  fixes supported :: "(string \<times> string) list"
    and expr :: "string \<Rightarrow> string option"
  assumes unambiguous: "distinct (map fst supported)"
    and canonical_supported: "(raw, c) \<in> set supported \<Longrightarrow> (c, c) \<in> set supported"
    and has_expr: "(raw, c) \<in> set supported \<Longrightarrow> \<exists>e. expr c = Some e"
    and expr_closed: "expr c = Some e \<Longrightarrow> closed_sql e"
begin

lemma resolve_iff: "map_of supported raw = Some c \<longleftrightarrow> (raw, c) \<in> set supported"
  using unambiguous by simp

lemma resolve_idem: "map_of supported raw = Some c \<Longrightarrow> map_of supported c = Some c"
  using canonical_supported by (simp add: resolve_iff)

lemma resolve_has_expr: "map_of supported raw = Some c \<Longrightarrow> \<exists>e. expr c = Some e \<and> closed_sql e"
  using has_expr expr_closed by (fastforce simp: resolve_iff)

end

lemma alias_pairs_resolver: "label_resolver (alias_pairs s) (label_expr s)"
proof
  show "distinct (map fst (alias_pairs s))" by (rule alias_pairs_distinct)
  show "(c, c) \<in> set (alias_pairs s)" if "(raw, c) \<in> set (alias_pairs s)" for raw c
    using that by (auto simp: alias_pairs_iff)
  show "\<exists>e. label_expr s c = Some e" if "(raw, c) \<in> set (alias_pairs s)" for raw c
    using that label_expr_registered by (auto simp: alias_pairs_iff)
  show "closed_sql e" if "label_expr s c = Some e" for c e
    using that by (rule label_expr_closed)
qed

interpretation logs_labels: label_resolver "alias_pairs Logs" "label_expr Logs"
  by (rule alias_pairs_resolver)

interpretation spans_labels: label_resolver "alias_pairs Spans" "label_expr Spans"
  by (rule alias_pairs_resolver)

interpretation metrics_labels: label_resolver "alias_pairs Metrics" "label_expr Metrics"
  by (rule alias_pairs_resolver)

text \<open>The two ways the code resolves a spelling agree.\<close>

lemma canonical_for_alias_iff:
  "canonical_for_alias s raw = Some c \<longleftrightarrow> (raw, c) \<in> set (alias_pairs s)"
proof
  show "(raw, c) \<in> set (alias_pairs s)" if "canonical_for_alias s raw = Some c"
    using canonical_for_alias_SomeD [OF that] by (simp add: alias_pairs_iff)
next
  assume mem: "(raw, c) \<in> set (alias_pairs s)"
  then obtain d where d: "d \<in> set LABELS" "has_scope d s"
    "raw = canonical d \<or> raw \<in> set (aliases d)"
    unfolding alias_pairs_iff by blast
  have "canonical_for_alias s raw \<noteq> None"
  proof (cases "label_def s raw")
    case None
    with label_def_registered [OF d(1,2)] have "raw \<noteq> canonical d" by auto
    with d(3) have "raw \<in> set (aliases d)" by blast
    with d(1,2) have "find_map (\<lambda>label. if raw \<in> set (aliases label) then Some (canonical label) else None)
            (filter (\<lambda>label. has_scope label s) LABELS) \<noteq> None"
      unfolding find_map_None_iff by force
    with None show ?thesis by (simp add: canonical_for_alias_def)
  next
    case (Some label)
    then show ?thesis by (simp add: canonical_for_alias_def)
  qed
  then obtain c' where c': "canonical_for_alias s raw = Some c'" by blast
  have mem': "(raw, c') \<in> set (alias_pairs s)"
    using canonical_for_alias_SomeD [OF c'] by (simp add: alias_pairs_iff)
  have "c' = c"
    using label_resolver.resolve_iff [OF alias_pairs_resolver, of s raw c]
      label_resolver.resolve_iff [OF alias_pairs_resolver, of s raw c'] mem mem' by simp
  with c' show "canonical_for_alias s raw = Some c" by simp
qed

lemma canonical_for_alias_map_of: "canonical_for_alias s raw = map_of (alias_pairs s) raw"
proof (rule option.expand)
  show "(canonical_for_alias s raw = None) = (map_of (alias_pairs s) raw = None)"
    using canonical_for_alias_iff [of s raw]
      label_resolver.resolve_iff [OF alias_pairs_resolver, of s raw]
    by (metis not_None_eq)
next
  assume "canonical_for_alias s raw \<noteq> None"
  then obtain c where c: "canonical_for_alias s raw = Some c" by blast
  then have "map_of (alias_pairs s) raw = Some c"
    using canonical_for_alias_iff label_resolver.resolve_iff [OF alias_pairs_resolver] by blast
  with c show "the (canonical_for_alias s raw) = the (map_of (alias_pairs s) raw)" by simp
qed

section \<open>Tempo tags\<close>

lemma tempo_tag_name_SomeD:
  "tempo_tag_name raw = Some tag \<Longrightarrow>
   \<exists>d \<in> set LABELS. tempo_tag d = Some tag \<and>
     (tag = raw \<or> canonical d = raw \<or> raw \<in> set (aliases d))"
  unfolding tempo_tag_name_def
  by (auto dest!: find_map_SomeD split: option.splits if_splits)

lemma tempo_tag_supported:
  assumes "d \<in> set LABELS" and "tempo_tag d = Some tag"
  shows "has_scope d Spans" and "tag = canonical d \<or> tag \<in> set (aliases d)"
  using tempo_tags_supported assms by (auto simp: list_all_iff)

lemma tempo_tag_resolves:
  assumes "tempo_tag_name raw = Some tag"
  shows "\<exists>c d. d \<in> set LABELS \<and> tempo_tag d = Some tag \<and> c = canonical d \<and>
    canonical_for_alias Spans raw = Some c \<and> canonical_for_alias Spans tag = Some c"
proof -
  obtain d where d: "d \<in> set LABELS" "tempo_tag d = Some tag"
    "tag = raw \<or> canonical d = raw \<or> raw \<in> set (aliases d)"
    using tempo_tag_name_SomeD [OF assms] by blast
  note sup = tempo_tag_supported [OF d(1,2)]
  from sup d have "(raw, canonical d) \<in> set (alias_pairs Spans)"
    unfolding alias_pairs_iff by blast
  moreover from sup d have "(tag, canonical d) \<in> set (alias_pairs Spans)"
    unfolding alias_pairs_iff by blast
  ultimately show ?thesis using d(1,2) by (blast intro: canonical_for_alias_iff [THEN iffD2])
qed

lemma tempo_tag_by_canonical:
  assumes "d \<in> set LABELS" "d' \<in> set LABELS" "tempo_tag d = Some t" "tempo_tag d' = Some t'"
    and "canonical d = canonical d'"
  shows "t = t'"
proof -
  have "d = d'"
    using tempo_canonicals_distinct assms unfolding distinct_map
    by (auto dest: inj_onD)
  with assms show ?thesis by simp
qed

lemma tempo_tag_name_total:
  assumes "d \<in> set LABELS" "tempo_tag d = Some tag"
    and "raw = tag \<or> canonical d = raw \<or> raw \<in> set (aliases d)"
  shows "tempo_tag_name raw = Some tag"
proof -
  have "tempo_tag_name raw \<noteq> None"
    unfolding tempo_tag_name_def find_map_None_iff using assms by force
  then obtain t where t: "tempo_tag_name raw = Some t" by blast
  then obtain d' where d': "d' \<in> set LABELS" "tempo_tag d' = Some t"
    "canonical_for_alias Spans raw = Some (canonical d')"
    using tempo_tag_resolves by blast
  from tempo_tag_supported [OF assms(1,2)] assms
  have "(raw, canonical d) \<in> set (alias_pairs Spans)"
    unfolding alias_pairs_iff by blast
  then have "canonical d = canonical d'"
    using d'(3) canonical_for_alias_iff [of Spans raw "canonical d"] by simp
  with tempo_tag_by_canonical [OF assms(1) d'(1) assms(2) d'(2)] t show ?thesis by simp
qed

lemma set_tempo_tag_names:
  "raw \<in> set tempo_tag_names \<longleftrightarrow>
   (\<exists>d \<in> set LABELS. \<exists>tag. tempo_tag d = Some tag \<and> has_scope d Spans \<and>
      (raw = tag \<or> canonical d = raw \<or> raw \<in> set (aliases d)))"
proof
  assume "raw \<in> set tempo_tag_names"
  then show "\<exists>d \<in> set LABELS. \<exists>tag. tempo_tag d = Some tag \<and> has_scope d Spans \<and>
      (raw = tag \<or> canonical d = raw \<or> raw \<in> set (aliases d))"
    by (simp add: tempo_tag_names_def split: option.splits) (metis not_None_eq option.inject)
next
  assume "\<exists>d \<in> set LABELS. \<exists>tag. tempo_tag d = Some tag \<and> has_scope d Spans \<and>
      (raw = tag \<or> canonical d = raw \<or> raw \<in> set (aliases d))"
  then obtain d tag where "d \<in> set LABELS" "tempo_tag d = Some tag" "has_scope d Spans"
    "raw = tag \<or> canonical d = raw \<or> raw \<in> set (aliases d)" by blast
  then show "raw \<in> set tempo_tag_names"
    by (auto simp: tempo_tag_names_def intro!: bexI [of _ d])
qed

section \<open>Properties of the registry\<close>

text \<open>
  C15. The registry is unambiguous and its two lookups agree: no spelling is accepted for
  two labels of a scope, and resolving a spelling through the label definitions gives what
  the list of accepted spellings gives.
\<close>

theorem resolution_unambiguous:
  "distinct (map fst (alias_pairs s)) \<and> canonical_for_alias s raw = map_of (alias_pairs s) raw"
  by (simp add: alias_pairs_distinct canonical_for_alias_map_of)

text \<open>
  Whatever spelling a client used, the label it resolves to is usable: the canonical
  name resolves to itself, and has a SQL expression that closes all its string literals.
\<close>

theorem resolved_label_usable:
  assumes "canonical_for_alias s raw = Some c"
  shows "canonical_for_alias s c = Some c \<and> (\<exists>e. label_expr s c = Some e \<and> closed_sql e)"
  using assms label_resolver.resolve_idem [OF alias_pairs_resolver]
    label_resolver.resolve_has_expr [OF alias_pairs_resolver]
  unfolding canonical_for_alias_map_of by blast

theorem resolved_label_usable_witness:
  "canonical_for_alias Logs ''service.name'' = Some ''service_name'' \<and>
   canonical_for_alias Logs ''service_name'' = Some ''service_name''"
proof -
  have "canonical_for_alias Logs ''service.name'' = Some ''service_name''" by code_simp
  with resolved_label_usable [OF this] show ?thesis by blast
qed

text \<open>
  Every tag name Tempo is told about can be asked for: it has a Tempo tag, that tag is
  its own tag, and both are spellings of the same span label.
\<close>

theorem tempo_tags_resolve:
  assumes "raw \<in> set tempo_tag_names"
  shows "\<exists>tag c. tempo_tag_name raw = Some tag \<and> tempo_tag_name tag = Some tag \<and>
    canonical_for_alias Spans raw = Some c \<and> canonical_for_alias Spans tag = Some c"
proof -
  from assms obtain d tag where d: "d \<in> set LABELS" "tempo_tag d = Some tag"
    "raw = tag \<or> canonical d = raw \<or> raw \<in> set (aliases d)"
    unfolding set_tempo_tag_names by blast
  have raw: "tempo_tag_name raw = Some tag" by (rule tempo_tag_name_total [OF d])
  have tag: "tempo_tag_name tag = Some tag" by (rule tempo_tag_name_total [OF d(1,2)]) simp
  from tempo_tag_resolves [OF raw] raw tag show ?thesis by blast
qed

theorem tempo_tags_resolve_witness:
  "\<exists>tag c. tempo_tag_name ''http_route'' = Some tag \<and> tempo_tag_name tag = Some tag \<and>
    canonical_for_alias Spans ''http_route'' = Some c \<and> canonical_for_alias Spans tag = Some c"
proof -
  have "list_ex (\<lambda>d. tempo_tag d \<noteq> None \<and> has_scope d Spans \<and> canonical d = ''http_route'') LABELS"
    by code_simp
  then have "''http_route'' \<in> set tempo_tag_names"
    unfolding set_tempo_tag_names list_ex_iff by blast
  from tempo_tags_resolve [OF this] show ?thesis .
qed

end
