(* ===== verification/PromQL.thy ===== *)
theory PromQL
  imports Plan Semantic_Labels
begin

text \<open>
  The PromQL subset (\<^verbatim>\<open>src/src/query/prometheus.rs\<close>): parentheses, aggregation
  expressions, grouping labels, range selectors and metric names, up to the checked
  \<open>PromQuery\<close>.
\<close>

section \<open>Parentheses and functions\<close>

text \<open>The text before and after the parenthesis that closes the \<open>depth\<close> open ones.\<close>

fun close_paren :: "int \<Rightarrow> string \<Rightarrow> (string \<times> string) option" where
  "close_paren depth [] = None"
| "close_paren depth (c # cs) =
     (if c = CHR '')'' \<and> depth - 1 = 0 then Some ([], cs)
      else map_option (\<lambda>(a, b). (c # a, b))
        (close_paren (if c = CHR ''('' then depth + 1
                      else if c = CHR '')'' then depth - 1 else depth) cs))"

definition parenthesized_with_suffix :: "string \<Rightarrow> (string \<times> string) option" where
  "parenthesized_with_suffix raw =
     Option.bind (strip_prefix ''('' raw)
       (\<lambda>r. map_option (\<lambda>(a, b). (trim a, trim b)) (close_paren 1 r))"

lemma close_paren_SomeD: "close_paren d s = Some (a, b) \<Longrightarrow> s = a @ CHR '')'' # b"
  by (induction d s arbitrary: a b rule: close_paren.induct) (auto split: if_splits)

lemma parenthesized_shorter:
  assumes "parenthesized_with_suffix raw = Some (inner, suffix)"
  shows "length inner < length raw"
proof -
  from assms obtain r a b where r: "raw = ''('' @ r" and c: "close_paren 1 r = Some (a, b)"
    and i: "inner = trim a"
    by (auto simp: parenthesized_with_suffix_def bind_eq_Some_conv strip_prefix_Some_iff)
  from close_paren_SomeD [OF c] length_trim_le [of a] r i show ?thesis by simp
qed

function strip_parens_loop :: "string \<Rightarrow> string" where
  "strip_parens_loop current =
     (case parenthesized_with_suffix current of
        None \<Rightarrow> current
      | Some (inner, suffix) \<Rightarrow> if suffix = [] then strip_parens_loop inner else current)"
  by pat_completeness auto
termination
  by (relation "measure length") (auto dest: parenthesized_shorter)

declare strip_parens_loop.simps [simp del]

definition strip_outer_parens :: "string \<Rightarrow> string" where
  "strip_outer_parens raw = strip_parens_loop (trim raw)"

definition unwrap_func :: "string \<Rightarrow> (string \<times> string) option" where
  "unwrap_func query =
     Option.bind (str_find ''('' query) (\<lambda>open_at.
     Option.bind (rfind_char (CHR '')'') query) (\<lambda>close_at.
       if close_at = length query - 1
       then Some (trim (take open_at query),
                  trim (take (close_at - Suc open_at) (drop (Suc open_at) query)))
       else None))"

definition strip_range_selector :: "string \<Rightarrow> string" where
  "strip_range_selector text =
     (let raw = trim text in
      case Option.bind (strip_suffix '']'' raw) (rfind_char (CHR ''['')) of
        Some end_at \<Rightarrow> trim (take end_at raw)
      | None \<Rightarrow> raw)"

definition split_ident :: "string \<Rightarrow> (string \<times> string) option" where
  "split_ident raw =
     Option.bind (position (\<lambda>c. \<not> is_ident_char c) raw)
       (\<lambda>end_at. if end_at > 0 then Some (take end_at raw, drop end_at raw) else None)"

section \<open>Aggregations\<close>

definition AGGREGATIONS :: "string list" where
  "AGGREGATIONS = [''avg'', ''min'', ''max'', ''sum'', ''count'', ''rate'']"

definition aggregation_keyword :: "string \<Rightarrow> string option" where
  "aggregation_keyword func = (if func \<in> set AGGREGATIONS then Some func else None)"

definition unsupported_promql :: ApiError where
  "unsupported_promql = ApiError_new 400 ''unsupported_promql''
     ''supported PromQL subset is metric selectors plus avg/min/max/sum/count/rate(metric) and avg/min/max/sum/count by/without supported labels''"

definition normalize_group_label :: "string \<Rightarrow> string api_result" where
  "normalize_group_label label =
     ok_or (canonical_for_alias Metrics label)
       (ApiError_new 400 ''unsupported_promql''
          (''unsupported grouping label '' @ label @ '' in v0 PromQL subset''))"

fun collect_group_labels :: "string list \<Rightarrow> string list \<Rightarrow> string list api_result" where
  "collect_group_labels labels [] = Inr labels"
| "collect_group_labels labels (l # ls) =
     and_then (normalize_group_label l) (\<lambda>normalized.
       collect_group_labels
         (if normalized \<in> set labels then labels else labels @ [normalized]) ls)"

definition parse_label_list :: "string \<Rightarrow> (string list \<times> string) api_result" where
  "parse_label_list raw =
     and_then (ok_or (Option.bind (strip_prefix ''('' raw) (split_once '')'')) unsupported_promql)
       (\<lambda>inner. and_then
          (collect_group_labels [] (filter (\<lambda>s. s \<noteq> []) (map trim (split_char (CHR '','') (fst inner)))))
          (\<lambda>labels. Inr (labels, snd inner)))"

record AggregationExpr =
  expr_aggregation :: string
  expr_group_by :: "string list"
  expr_explicit :: bool
  expr_inner :: string

definition at_grouping :: "string \<Rightarrow> bool" where
  "at_grouping rest = (starts_with rest ''by'' \<or> starts_with rest ''without'')"

text \<open>After the keyword; \<open>by\<close> is tried first, and the caller knows one of the two is there.\<close>

definition after_grouping_keyword :: "string \<Rightarrow> string" where
  "after_grouping_keyword rest =
     trim_start (case strip_prefix ''by'' rest of
                   Some r \<Rightarrow> r
                 | None \<Rightarrow> the (strip_prefix ''without'' rest))"

definition grouping :: "bool \<Rightarrow> string list \<Rightarrow> string list" where
  "grouping without labels =
     (if without then filter (\<lambda>label. label \<notin> set labels) prometheus_grouping_labels else labels)"

text \<open>
  The grouping before the parenthesis (\<open>prefix_grouping\<close>) and after it
  (\<open>suffix_grouping\<close>): labels, whether \<open>without\<close>, whether given at all.
\<close>

definition prefix_grouping :: "string \<Rightarrow> (string list \<times> bool \<times> bool \<times> string) api_result" where
  "prefix_grouping rest =
     (if at_grouping rest then
        and_then (parse_label_list (after_grouping_keyword rest))
          (\<lambda>(labels, r). Inr (labels, starts_with rest ''without'', True, r))
      else Inr ([], False, False, rest))"

definition suffix_grouping ::
  "string list \<Rightarrow> bool \<Rightarrow> bool \<Rightarrow> string \<Rightarrow> (string list \<times> bool \<times> bool) api_result" where
  "suffix_grouping labels without explicit suffix =
     (if \<not> explicit \<and> at_grouping suffix then
        and_then (parse_label_list (after_grouping_keyword suffix))
          (\<lambda>(parsed, label_rest).
             if trim label_rest \<noteq> [] then Inl unsupported_promql
             else Inr (parsed, starts_with suffix ''without'', True))
      else if suffix \<noteq> [] then Inl unsupported_promql
      else Inr (labels, without, explicit))"

definition parse_aggregation :: "string \<Rightarrow> AggregationExpr option api_result" where
  "parse_aggregation query =
     (case split_ident query of
        None \<Rightarrow> Inr None
      | Some (func, rest) \<Rightarrow>
          (case aggregation_keyword func of
             None \<Rightarrow> Inr None
           | Some agg \<Rightarrow>
               if agg = ''rate'' then Inr None
               else
                 and_then (prefix_grouping (trim_start rest)) (\<lambda>(labels, without, explicit, rest).
                 and_then (ok_or (parenthesized_with_suffix (trim_start rest)) unsupported_promql)
                   (\<lambda>(inner, suffix).
                 and_then (suffix_grouping labels without explicit (trim_start suffix))
                   (\<lambda>(labels, without, explicit).
                 Inr (Some \<lparr>expr_aggregation = agg, expr_group_by = grouping without labels,
                            expr_explicit = explicit, expr_inner = inner\<rparr>))))))"

section \<open>Metric names\<close>

record MetricDef =
  def_name :: string
  def_signal :: string

definition METRIC_NAME_OVERRIDES :: "(string \<times> string) list" where
  "METRIC_NAME_OVERRIDES =
     [(''process_runtime_cpython_cpu_time_seconds_total'', ''process.runtime.cpython.cpu_time''),
      (''otelcol_process_uptime_seconds_total'', ''otelcol_process_uptime''),
      (''demo_recommendation_requests_total'', ''app_recommendations_counter'')]"

definition strip_prometheus_unit_suffix :: "string \<Rightarrow> string" where
  "strip_prometheus_unit_suffix raw =
     (case find_map (\<lambda>suffix. strip_suffix suffix raw)
             [''_seconds'', ''_milliseconds'', ''_bytes'', ''_ratio'', ''_count'', ''_total''] of
        Some s \<Rightarrow> s
      | None \<Rightarrow> raw)"

definition resolve_metric_name :: "string \<Rightarrow> string" where
  "resolve_metric_name raw =
     (case List.find (\<lambda>p. fst p = raw) METRIC_NAME_OVERRIDES of
        Some p \<Rightarrow> snd p
      | None \<Rightarrow>
          (let without_total = (case strip_suffix ''_total'' raw of Some s \<Rightarrow> s | None \<Rightarrow> raw) in
           if starts_with raw ''otelcol_exporter_'' \<or> starts_with raw ''otelcol_process_''
           then without_total
           else if starts_with raw ''traces_span_metrics_'' \<or> starts_with raw ''system_''
                   \<or> starts_with raw ''process_runtime_''
           then map (\<lambda>c. if c = CHR ''_'' then CHR ''.'' else c)
                  (strip_prometheus_unit_suffix without_total)
           else raw))"

definition normalize_metric_name :: "string \<Rightarrow> string \<Rightarrow> MetricDef" where
  "normalize_metric_name raw aggregation =
     (let name = resolve_metric_name raw in
      \<lparr>def_name = name,
       def_signal = (if aggregation = ''rate'' \<or> ends_with raw ''_total'' \<or> ends_with name ''.sum''
                     then ''sum'' else ''gauge'')\<rparr>)"

section \<open>Queries\<close>

record PromQuery =
  metric_name :: string
  signal :: string
  aggregation :: string
  filters :: "FieldMatcher list"
  group_by :: "string list"
  explicit_grouping :: bool

text \<open>A function call around the query replaces the aggregation found so far.\<close>

definition apply_func :: "string \<Rightarrow> string \<Rightarrow> (string \<times> string) api_result" where
  "apply_func current query =
     (case unwrap_func query of
        Some (func, inner) \<Rightarrow>
          and_then (ok_or (aggregation_keyword func) unsupported_promql)
            (\<lambda>agg. Inr (agg, strip_outer_parens inner))
      | None \<Rightarrow> Inr (current, query))"

text \<open>
  The expression around the selector: aggregation, grouping labels, whether grouping was
  given, and the selector's text.
\<close>

definition parse_expression :: "string \<Rightarrow> (string \<times> string list \<times> bool \<times> string) api_result" where
  "parse_expression raw =
     (let query = strip_outer_parens (trim raw) in
      and_then (parse_aggregation query) (\<lambda>parsed.
      and_then
        (case parsed of
           Some e \<Rightarrow> Inr (expr_aggregation e, expr_group_by e, expr_explicit e,
                          strip_outer_parens (expr_inner e))
         | None \<Rightarrow> map_ok (\<lambda>(agg, q). (agg, [], False, q)) (apply_func ''avg'' query))
        (\<lambda>(agg, groups, explicit, query).
           map_ok (\<lambda>(agg, q). (agg, groups, explicit, q)) (apply_func agg query))))"

text \<open>A selector without a metric name takes it from its first \<open>__name__\<close> equality.\<close>

definition take_metric_name ::
  "string \<times> FieldMatcher list \<Rightarrow> (string \<times> FieldMatcher list) api_result" where
  "take_metric_name sel =
     (case sel of (name, ms) \<Rightarrow>
        if name = [] then
          map_ok (\<lambda>i. (mvalue (ms ! i), remove_at i ms))
            (ok_or (position (\<lambda>m. field m = ''__name__'' \<and> match_op m = Eq) ms)
               (ApiError_new 400 ''unsupported_promql''
                  ''metric queries require a metric name or __name__ label''))
        else Inr (name, ms))"

definition parse_prom_query :: "string \<Rightarrow> PromQuery api_result" where
  "parse_prom_query raw =
     and_then (parse_expression raw) (\<lambda>(agg, groups, explicit, query).
     and_then (parse_selector_matchers (strip_range_selector query) ''unsupported_promql'') (\<lambda>sel.
     and_then (take_metric_name sel) (\<lambda>(name, raw_filters).
     let metric = normalize_metric_name name agg in
     and_then (normalize_matchers raw_filters (alias_pairs Metrics) ''unsupported_promql'') (\<lambda>normalized.
     and_then (collect_results (map normalize_group_label groups)) (\<lambda>groups.
     Inr \<lparr>metric_name = def_name metric, signal = def_signal metric, aggregation = agg,
          filters = normalized, group_by = groups, explicit_grouping = explicit\<rparr>)))))"

section \<open>Grouping labels\<close>

definition metrics_label :: "string \<Rightarrow> bool" where
  "metrics_label l = (canonical_for_alias Metrics l = Some l)"

lemma metrics_label_resolved: "canonical_for_alias Metrics raw = Some c \<Longrightarrow> metrics_label c"
  unfolding metrics_label_def canonical_for_alias_map_of by (rule metrics_labels.resolve_idem)

lemma metrics_label_expr: "metrics_label l \<Longrightarrow> \<exists>e. label_expr Metrics l = Some e \<and> closed_sql e"
  unfolding metrics_label_def canonical_for_alias_map_of by (rule metrics_labels.resolve_has_expr)

lemma normalize_group_label_Inr [result_simps]:
  "normalize_group_label l = Inr c \<longleftrightarrow> canonical_for_alias Metrics l = Some c"
  by (simp add: normalize_group_label_def result_simps)

lemma normalize_group_label_Inl:
  "normalize_group_label l = Inl e \<Longrightarrow> status e = 400 \<and> reason e = ''unsupported_promql''"
  by (auto simp: normalize_group_label_def result_simps)

lemma collect_group_labels_Inr:
  "collect_group_labels acc ls = Inr labels \<Longrightarrow> distinct acc \<Longrightarrow> list_all metrics_label acc \<Longrightarrow>
   distinct labels \<and> list_all metrics_label labels"
proof (induction acc ls rule: collect_group_labels.induct)
  case (1 labels)
  then show ?case by simp
next
  case (2 acc l ls)
  then obtain c where c: "canonical_for_alias Metrics l = Some c"
    "collect_group_labels (if c \<in> set acc then acc else acc @ [c]) ls = Inr labels"
    by (auto simp: result_simps)
  with 2 metrics_label_resolved [OF c(1)] show ?case
    by (auto simp: result_simps split: if_splits)
qed

lemma collect_group_labels_Inl:
  "collect_group_labels acc ls = Inl e \<Longrightarrow> status e = 400 \<and> reason e = ''unsupported_promql''"
proof (induction acc ls rule: collect_group_labels.induct)
  case (1 labels)
  then show ?case by simp
next
  case (2 acc l ls)
  then show ?case
    using normalize_group_label_Inl by (auto simp: result_simps)
qed

lemma parse_label_list_Inr:
  "parse_label_list raw = Inr (labels, rest) \<Longrightarrow> distinct labels \<and> list_all metrics_label labels"
  by (auto simp: parse_label_list_def result_simps dest: collect_group_labels_Inr)

lemma metrics_grouping_registered:
  "set prometheus_grouping_labels = {c. metrics_label c}"
proof (rule set_eqI)
  fix c
  have "metrics_label c \<longleftrightarrow> (\<exists>d \<in> set LABELS. has_scope d Metrics \<and> canonical d = c)"
    unfolding metrics_label_def canonical_for_alias_iff alias_pairs_iff by blast
  then show "c \<in> set prometheus_grouping_labels \<longleftrightarrow> c \<in> {c. metrics_label c}"
    by (auto simp: prometheus_grouping_labels_def)
qed

lemma distinct_grouping_labels: "distinct prometheus_grouping_labels"
proof -
  have part: "distinct (map canonical (filter (\<lambda>d. has_scope d s) ds))"
    if "distinct (map fst (concat (map (\<lambda>label. if has_scope label s
                   then (canonical label, canonical label) #
                        map (\<lambda>alias. (alias, canonical label)) (aliases label)
                   else []) ds)))" for s ds
    using that by (induction ds) (force split: if_splits)+
  from part [of Metrics LABELS] alias_pairs_distinct [of Metrics] show ?thesis
    unfolding prometheus_grouping_labels_def alias_pairs_def by blast
qed

lemma grouping_labels_ok:
  "distinct labels \<Longrightarrow> list_all metrics_label labels \<Longrightarrow>
   distinct (grouping wo labels) \<and> list_all metrics_label (grouping wo labels)"
  using distinct_grouping_labels metrics_grouping_registered
  by (auto simp: grouping_def list_all_iff)

lemma prefix_grouping_Inr:
  "prefix_grouping rest = Inr (labels, wo, ex, r) \<Longrightarrow>
   distinct labels \<and> list_all metrics_label labels \<and> (\<not> ex \<longrightarrow> labels = [] \<and> \<not> wo)"
  unfolding prefix_grouping_def
  by (auto simp: result_simps dest: parse_label_list_Inr split: if_splits)

lemma suffix_grouping_Inr:
  "suffix_grouping labels wo ex suffix = Inr (labels', wo', ex') \<Longrightarrow>
   distinct labels \<and> list_all metrics_label labels \<and> (\<not> ex \<longrightarrow> labels = [] \<and> \<not> wo) \<Longrightarrow>
   distinct labels' \<and> list_all metrics_label labels' \<and> (\<not> ex' \<longrightarrow> labels' = [] \<and> \<not> wo')"
  unfolding suffix_grouping_def
  by (auto simp: result_simps dest: parse_label_list_Inr split: if_splits)

lemma aggregation_keyword_Some [result_simps]:
  "aggregation_keyword f = Some a \<longleftrightarrow> a = f \<and> f \<in> set AGGREGATIONS"
  by (auto simp: aggregation_keyword_def)

lemma parse_aggregation_Inr:
  assumes "parse_aggregation query = Inr (Some e)"
  shows "expr_aggregation e \<in> set AGGREGATIONS \<and> distinct (expr_group_by e) \<and>
    list_all metrics_label (expr_group_by e) \<and> (\<not> expr_explicit e \<longrightarrow> expr_group_by e = [])"
proof -
  from assms obtain agg labels wo ex rest labels' wo' ex' rest0 suffix inner where
    agg: "agg \<in> set AGGREGATIONS" and pre: "prefix_grouping rest0 = Inr (labels, wo, ex, rest)"
    and suf: "suffix_grouping labels wo ex suffix = Inr (labels', wo', ex')"
    and e: "e = \<lparr>expr_aggregation = agg, expr_group_by = grouping wo' labels',
                 expr_explicit = ex', expr_inner = inner\<rparr>"
    unfolding parse_aggregation_def
    by (auto simp: result_simps split: option.splits if_splits prod.splits)
  from suffix_grouping_Inr [OF suf prefix_grouping_Inr [OF pre]]
  have "distinct labels'" "list_all metrics_label labels'" "\<not> ex' \<longrightarrow> labels' = [] \<and> \<not> wo'"
    by simp_all
  with grouping_labels_ok [of labels' wo'] agg e show ?thesis
    by (auto simp: grouping_def)
qed

lemma apply_func_Inr:
  "apply_func cur q = Inr (agg, q') \<Longrightarrow> agg = cur \<or> agg \<in> set AGGREGATIONS"
  by (auto simp: apply_func_def result_simps split: option.splits)

lemma parse_expression_Inr:
  assumes "parse_expression raw = Inr (agg, groups, ex, q)"
  shows "agg \<in> set AGGREGATIONS \<and> distinct groups \<and> list_all metrics_label groups \<and> (\<not> ex \<longrightarrow> groups = [])"
proof -
  let ?q = "strip_outer_parens (trim raw)"
  from assms obtain parsed cur q0 where p: "parse_aggregation ?q = Inr parsed"
    and base: "(case parsed of
           Some e \<Rightarrow> Inr (expr_aggregation e, expr_group_by e, expr_explicit e,
                          strip_outer_parens (expr_inner e))
         | None \<Rightarrow> map_ok (\<lambda>(agg, q). (agg, [], False, q)) (apply_func ''avg'' ?q))
        = Inr (cur, groups, ex, q0)"
    and last: "apply_func cur q0 = Inr (agg, q)"
    unfolding parse_expression_def Let_def by (auto simp: result_simps)
  have "cur \<in> set AGGREGATIONS \<and> distinct groups \<and> list_all metrics_label groups \<and> (\<not> ex \<longrightarrow> groups = [])"
  proof (cases parsed)
    case None
    with base obtain q1 where "apply_func ''avg'' ?q = Inr (cur, q1)" "groups = []"
      by (auto simp: result_simps)
    then show ?thesis using apply_func_Inr [of "''avg''" ?q cur q1] by (auto simp: AGGREGATIONS_def)
  next
    case (Some e)
    with base parse_aggregation_Inr p show ?thesis by auto
  qed
  with apply_func_Inr [OF last] show ?thesis by auto
qed

lemma collect_metrics_labels:
  assumes "collect_results (map normalize_group_label groups) = Inr groups'"
    and "list_all metrics_label groups"
  shows "groups' = groups"
proof -
  have "map normalize_group_label groups = map Inr groups"
    using assms(2) by (auto simp: list_all_iff metrics_label_def normalize_group_label_def)
  with assms(1) show ?thesis by (simp add: collect_results_Inr_iff)
qed

lemma parse_prom_query_Inr:
  assumes "parse_prom_query raw = Inr q"
  obtains agg groups ex query name sel ms where
    "parse_expression raw = Inr (agg, groups, ex, query)"
    "parse_selector_matchers (strip_range_selector query) ''unsupported_promql'' = Inr sel"
    "take_metric_name sel = Inr (name, ms)"
    "normalize_matchers ms (alias_pairs Metrics) ''unsupported_promql'' = Inr (filters q)"
    "collect_results (map normalize_group_label groups) = Inr (group_by q)"
    "aggregation q = agg" "explicit_grouping q = ex"
    "metric_name q = resolve_metric_name name"
    "signal q = def_signal (normalize_metric_name name agg)"
  using assms unfolding parse_prom_query_def
  by (fastforce simp: result_simps Let_def normalize_metric_name_def)

section \<open>Stripping parentheses\<close>

lemma strip_parens_loop_fixed:
  "case parenthesized_with_suffix (strip_parens_loop s) of None \<Rightarrow> True | Some (i, suffix) \<Rightarrow> suffix \<noteq> []"
proof (induction s rule: strip_parens_loop.induct)
  case (1 s)
  show ?case
  proof (cases "parenthesized_with_suffix s")
    case None
    then show ?thesis by (simp add: strip_parens_loop.simps [of s])
  next
    case (Some p)
    with 1 show ?thesis
      by (cases p) (auto simp: strip_parens_loop.simps [of s])
  qed
qed

text \<open>The depth after reading text, as long as it never closes more than it opened.\<close>

fun paren_depth :: "nat \<Rightarrow> string \<Rightarrow> nat option" where
  "paren_depth d [] = Some d"
| "paren_depth d (c # cs) =
     (if c = CHR ''('' then paren_depth (Suc d) cs
      else if c = CHR '')'' then (case d of 0 \<Rightarrow> None | Suc d' \<Rightarrow> paren_depth d' cs)
      else paren_depth d cs)"

definition parens_balanced :: "string \<Rightarrow> bool" where
  "parens_balanced s = (paren_depth 0 s = Some 0)"

lemma close_paren_balanced:
  "paren_depth d s = Some d' \<Longrightarrow>
   close_paren (int d + 1) (s @ rest) =
     map_option (\<lambda>(a, b). (s @ a, b)) (close_paren (int d' + 1) rest)"
proof (induction d s rule: paren_depth.induct)
  case (1 d)
  then show ?case by (simp add: option.map_ident_strong split: prod.splits)
next
  case (2 d c cs)
  consider "c = CHR ''(''" | e where "c = CHR '')''" "d = Suc e" | "c \<noteq> CHR ''(''" "c \<noteq> CHR '')''"
    using 2(4) by (cases d) (auto split: if_splits)
  then show ?case
  proof cases
    case 1
    with 2(1,4) show ?thesis
      by (simp add: option.map_comp comp_def case_prod_beta' algebra_simps)
  next
    case (2 e)
    with "2.IH"(2) "2.prems" show ?thesis
      by (simp add: option.map_comp comp_def case_prod_beta' algebra_simps)
  next
    case 3
    with 2(3,4) show ?thesis
      by (simp add: option.map_comp comp_def case_prod_beta')
  qed
qed

lemma parenthesized_balanced:
  "parens_balanced s \<Longrightarrow> parenthesized_with_suffix (''('' @ s @ '')'') = Some (trim s, [])"
  using close_paren_balanced [of 0 s 0 "'')''"]
  by (simp add: parens_balanced_def parenthesized_with_suffix_def)

lemma trim_parenthesized: "trim (''('' @ s @ '')'') = ''('' @ s @ '')''"
  by (rule trim_plain) (simp add: plain_char_def)

lemma strip_outer_parens_wrap:
  assumes "parens_balanced s"
  shows "strip_outer_parens (''('' @ s @ '')'') = strip_outer_parens s"
  using parenthesized_balanced [OF assms]
  unfolding strip_outer_parens_def trim_parenthesized
  by (subst strip_parens_loop.simps) simp

lemma strip_outer_parens_trim [simp]: "strip_outer_parens (trim s) = strip_outer_parens s"
  by (simp add: strip_outer_parens_def)

section \<open>Errors\<close>

abbreviation "query_error why e \<equiv>
  status e = 400 \<and> (reason e = why \<or> reason e = ''invalid_selector'')"

lemma unsupported_promql_sel [simp]:
  "status unsupported_promql = 400" "reason unsupported_promql = ''unsupported_promql''"
  by (simp_all add: unsupported_promql_def)

lemma parse_label_list_Inl:
  "parse_label_list raw = Inl e \<Longrightarrow> query_error ''unsupported_promql'' e"
  by (auto simp: parse_label_list_def result_simps dest: collect_group_labels_Inl)

lemma parse_aggregation_Inl:
  assumes "parse_aggregation q = Inl e"
  shows "query_error ''unsupported_promql'' e"
proof -
  have pre: "query_error ''unsupported_promql'' e" if "prefix_grouping rest = Inl e" for rest
    using that parse_label_list_Inl by (auto simp: prefix_grouping_def result_simps split: if_splits)
  have suf: "query_error ''unsupported_promql'' e" if "suffix_grouping ls wo ex sfx = Inl e" for ls wo ex sfx
    using that parse_label_list_Inl by (auto simp: suffix_grouping_def result_simps split: if_splits)
  from assms show ?thesis
    unfolding parse_aggregation_def
    by (auto simp: result_simps split: option.splits if_splits prod.splits dest: pre suf)
qed

lemma apply_func_Inl: "apply_func cur q = Inl e \<Longrightarrow> query_error ''unsupported_promql'' e"
  by (auto simp: apply_func_def result_simps split: option.splits)

lemma parse_expression_Inl:
  "parse_expression raw = Inl e \<Longrightarrow> query_error ''unsupported_promql'' e"
  unfolding parse_expression_def Let_def
  by (auto simp: result_simps split: option.splits dest: parse_aggregation_Inl apply_func_Inl)

lemma parse_parts_Inl: "parse_parts ps why = Inl e \<Longrightarrow> query_error why e"
  by (induction ps why rule: parse_parts.induct)
    (auto simp: Let_def result_simps split: if_splits option.splits)

lemma parse_label_matchers_Inl: "parse_label_matchers raw why = Inl e \<Longrightarrow> query_error why e"
  by (auto simp: parse_label_matchers_def split_label_matchers_def result_simps
      split: prod.splits if_splits dest: parse_parts_Inl)

lemma parse_selector_matchers_Inl:
  "parse_selector_matchers raw why = Inl e \<Longrightarrow> query_error why e"
  unfolding parse_selector_matchers_def Let_def
  by (auto simp: result_simps split: option.splits if_splits dest: parse_label_matchers_Inl)

lemma take_metric_name_Inl: "take_metric_name sel = Inl e \<Longrightarrow> query_error ''unsupported_promql'' e"
  by (auto simp: take_metric_name_def result_simps split: prod.splits if_splits)

lemma normalize_matchers_Inl: "normalize_matchers ms supported why = Inl e \<Longrightarrow> query_error why e"
  unfolding normalize_matchers_def by (drule normalize_loop_error) simp

lemma collect_groups_Inl:
  "collect_results (map normalize_group_label gs) = Inl e \<Longrightarrow> query_error ''unsupported_promql'' e"
  by (induction gs) (auto simp: result_simps dest: normalize_group_label_Inl)

section \<open>Properties of accepted and rejected queries\<close>

lemma parse_prom_query_typed:
  assumes "parse_prom_query raw = Inr q"
  shows "is_ok (MetricAggregation_parse (aggregation q)) \<and> is_ok (MetricSignal_parse (signal q)) \<and>
    (aggregation q = ''rate'' \<longrightarrow> signal q = ''sum'') \<and>
    distinct (group_by q) \<and> (explicit_grouping q \<or> group_by q = []) \<and>
    (\<forall>l \<in> set (group_by q). canonical_for_alias Metrics l = Some l \<and> (\<exists>e. label_expr Metrics l = Some e \<and> closed_sql e)) \<and>
    (\<forall>m \<in> set (filters q). \<exists>e. label_expr Metrics (field m) = Some e \<and> closed_sql e) \<and>
    consistent (filters q)"
proof -
  from assms obtain agg groups ex query sel name ms where
    e: "parse_expression raw = Inr (agg, groups, ex, query)"
    and n: "normalize_matchers ms (alias_pairs Metrics) ''unsupported_promql'' = Inr (filters q)"
    and g: "collect_results (map normalize_group_label groups) = Inr (group_by q)"
    and sel: "aggregation q = agg" "explicit_grouping q = ex"
    and sig: "signal q = def_signal (normalize_metric_name name agg)"
    by (elim parse_prom_query_Inr)
  note expr = parse_expression_Inr [OF e]
  then have groups: "group_by q = groups" using collect_metrics_labels [OF g] by simp
  have labels: "\<forall>l \<in> set groups. canonical_for_alias Metrics l = Some l \<and> (\<exists>e. label_expr Metrics l = Some e \<and> closed_sql e)"
    using expr metrics_label_expr by (auto simp: list_all_iff metrics_label_def)
  have fields: "\<exists>e. label_expr Metrics (field m) = Some e \<and> closed_sql e" if "m \<in> set (filters q)" for m
    using normalize_matchers_fields [OF n that] metrics_labels.resolve_has_expr by blast
  have "consistent (filters q)" using n unfolding normalize_matchers_iff by blast
  moreover have "is_ok (MetricAggregation_parse agg)"
    using expr by (auto simp: AGGREGATIONS_def MetricAggregation_parse_def)
  moreover have "is_ok (MetricSignal_parse (signal q)) \<and> (agg = ''rate'' \<longrightarrow> signal q = ''sum'')"
    by (simp add: sig normalize_metric_name_def Let_def MetricSignal_parse_def)
  ultimately show ?thesis
    using expr groups labels fields sel by auto
qed

text \<open>
  C5. A PromQL query that is accepted is well typed for the SQL builder: its aggregation
  and signal are ones the metric plan knows, a rate is only asked of a sum, the grouping
  labels are distinct canonical metric labels that have a SQL expression, grouping labels
  appear only when the query grouped explicitly, and every filter is on a metric label
  that has a SQL expression, with no two contradicting equalities.
\<close>

theorem parse_prom_query_sound:
  assumes "parse_prom_query raw = Inr q"
  shows "is_ok (MetricAggregation_parse (aggregation q)) \<and> is_ok (MetricSignal_parse (signal q)) \<and>
    (aggregation q = ''rate'' \<longrightarrow> signal q = ''sum'') \<and>
    distinct (group_by q) \<and> (explicit_grouping q \<or> group_by q = []) \<and>
    (\<forall>l \<in> set (group_by q). canonical_for_alias Metrics l = Some l \<and> (\<exists>e. label_expr Metrics l = Some e \<and> closed_sql e)) \<and>
    (\<forall>m \<in> set (filters q). \<exists>e. label_expr Metrics (field m) = Some e \<and> closed_sql e) \<and>
    consistent (filters q)"
  by (rule parse_prom_query_typed [OF assms])

lemma prom_example:
  "parse_prom_query ''sum by (service.name) (rate(http_total{http.method=~GET}[5m]))'' =
   Inr \<lparr>metric_name = ''http_total'', signal = ''sum'', aggregation = ''rate'',
        filters = [\<lparr>field = ''http_method'', mvalue = ''GET'', match_op = Regex\<rparr>],
        group_by = [''service_name''], explicit_grouping = True\<rparr>"
  by code_simp

theorem parse_prom_query_sound_witness:
  "consistent [\<lparr>field = ''http_method'', mvalue = ''GET'', match_op = Regex\<rparr>] \<and>
   (\<exists>e. label_expr Metrics ''service_name'' = Some e \<and> closed_sql e)"
  using parse_prom_query_sound [OF prom_example] by simp

text \<open>
  A PromQL query that is rejected is rejected as the client's error: status 400, with
  the reason \<open>unsupported_promql\<close>, or \<open>invalid_selector\<close> for unclosed braces.
\<close>

theorem parse_prom_query_client_error:
  assumes "parse_prom_query raw = Inl e"
  shows "status e = 400 \<and> (reason e = ''unsupported_promql'' \<or> reason e = ''invalid_selector'')"
  using assms unfolding parse_prom_query_def Let_def
  by (auto simp: result_simps dest: parse_expression_Inl parse_selector_matchers_Inl
      take_metric_name_Inl normalize_matchers_Inl collect_groups_Inl)

theorem parse_prom_query_client_error_witness:
  "\<exists>e. parse_prom_query ''irate(x)'' = Inl e \<and> status e = 400"
proof -
  have "parse_prom_query ''irate(x)'' = Inl unsupported_promql" by code_simp
  with parse_prom_query_client_error [OF this] show ?thesis by blast
qed

text \<open>
  Enclosing parentheses are invisible: for text whose parentheses match, parsing it
  with a pair around it is parsing it.
\<close>

theorem parse_prom_query_parens:
  assumes "parens_balanced s"
  shows "parse_prom_query (''('' @ s @ '')'') = parse_prom_query s"
proof -
  have "strip_outer_parens (trim (''('' @ s @ '')'')) = strip_outer_parens (trim s)"
    using strip_outer_parens_wrap [OF assms] by (simp only: strip_outer_parens_trim)
  then have "parse_expression (''('' @ s @ '')'') = parse_expression s"
    by (simp only: parse_expression_def)
  then show ?thesis by (simp only: parse_prom_query_def)
qed

theorem parse_prom_query_parens_witness:
  "parse_prom_query ''((rate(up)))'' = parse_prom_query ''(rate(up))''"
  using parse_prom_query_parens [of "''(rate(up))''"] by (simp add: parens_balanced_def)

text \<open>Of two nested aggregations the inner one is kept and the outer one dropped.\<close>

lemma nested_aggregation_keeps_inner:
  "case parse_prom_query ''sum(max(x))'' of
     Inr p \<Rightarrow> aggregation p = ''max'' \<and> metric_name p = ''x'' | _ \<Rightarrow> False"
  by code_simp

end
