(* ===== verification/LogQL.thy ===== *)
theory LogQL
  imports Plan Semantic_Labels
begin

text \<open>
  Loki queries and Tempo searches: the log pipeline of \<^verbatim>\<open>src/src/query/log.rs\<close> and
  the tag extraction of \<^verbatim>\<open>src/src/query/trace.rs\<close>. Request parameters are an
  association list, the first entry for a name being its value.
\<close>

section \<open>Log queries\<close>

definition parse_log_pipeline :: "string \<Rightarrow> string \<times> TextFilter list" where
  "parse_log_pipeline raw =
     (let stage = (case (str_find ''|='' raw, str_find ''|~'' raw) of
                     (Some c, Some r) \<Rightarrow> if r < c then Some (r, True) else Some (c, False)
                   | (Some c, None) \<Rightarrow> Some (c, False)
                   | (None, Some r) \<Rightarrow> Some (r, True)
                   | (None, None) \<Rightarrow> None) in
      case stage of
        None \<Rightarrow> (trim raw, [])
      | Some (idx, regex_filter) \<Rightarrow>
          (let selector = trim (take idx raw);
               term = unquote (trim (drop (idx + 2) raw)) in
           (selector, [if regex_filter then BodyRegex term else BodyContains term])))"

definition parse_loki_query :: "string \<Rightarrow> TimeBounds \<Rightarrow> nat \<Rightarrow> string \<Rightarrow> LogPlan api_result" where
  "parse_loki_query raw bounds limit dir =
     (case parse_log_pipeline raw of (selector, filters) \<Rightarrow>
        and_then (parse_selector_matchers selector ''unsupported_selector'') (\<lambda>sel.
        and_then (normalize_matchers (snd sel) (alias_pairs Logs) ''unsupported_selector'') (\<lambda>ms.
        Inr \<lparr>log_selector = \<lparr>resource = None, matchers = ms, text_filters = filters\<rparr>,
             log_bounds = bounds, log_limit = limit, direction = from_loki dir,
             stream_labels = loki_stream_labels\<rparr>)))"

section \<open>Trace searches\<close>

definition tag_separator :: "char \<Rightarrow> bool" where
  "tag_separator c =
     (let n = byte c in
      \<not> (48 \<le> n \<and> n \<le> 57 \<or> 65 \<le> n \<and> n \<le> 90 \<or> 97 \<le> n \<and> n \<le> (122::nat)
         \<or> c = CHR ''_'' \<or> c = CHR ''-'' \<or> c = CHR ''.''))"

text \<open>
  The text after the first usable occurrence of the tag: not the tail of a longer name,
  and followed by an operator. Occurrences are taken from the left without overlap, so
  after an occurrence the scan skips \<open>length tag\<close> characters (\<open>skip\<close>).
\<close>

fun tag_scan :: "string \<Rightarrow> bool \<Rightarrow> nat \<Rightarrow> string \<Rightarrow> string option" where
  "tag_scan tag boundary skip [] = None"
| "tag_scan tag boundary (Suc skip) (c # cs) = tag_scan tag (tag_separator c) skip cs"
| "tag_scan tag boundary 0 (c # cs) =
     (case strip_prefix tag (c # cs) of
        Some r \<Rightarrow>
          (let rest = trim_start r in
           if boundary \<and> (starts_with rest ''='' \<or> starts_with rest ''!='' \<or>
                          starts_with rest ''=~'' \<or> starts_with rest ''!~'')
           then Some rest
           else tag_scan tag (tag_separator c) (length tag - 1) cs)
      | None \<Rightarrow> tag_scan tag (tag_separator c) 0 cs)"

fun value_end :: "string \<Rightarrow> string" where
  "value_end [] = []"
| "value_end (c # cs) =
     (if at_whitespace (c # cs) \<or> c \<in> set '',}&|'' then [] else c # value_end cs)"

definition tag_operator :: "string \<Rightarrow> (MatchOp \<times> string) option" where
  "tag_operator rest =
     (case strip_prefix ''!='' rest of Some r \<Rightarrow> Some (NotEq, r) | None \<Rightarrow>
      case strip_prefix ''=~'' rest of Some r \<Rightarrow> Some (Regex, r) | None \<Rightarrow>
      case strip_prefix ''!~'' rest of Some r \<Rightarrow> Some (NotRegex, r) | None \<Rightarrow>
      map_option (\<lambda>r. (Eq, r)) (strip_prefix ''='' rest))"

definition tag_value :: "string \<Rightarrow> string option" where
  "tag_value rest =
     (case strip_prefix [DQ] rest of
        Some r \<Rightarrow> map_option (\<lambda>i. take i r) (str_find [DQ] r)
      | None \<Rightarrow> (let v = value_end rest in if v \<noteq> [] then Some v else None))"

definition extract_tag_matcher :: "string \<Rightarrow> string \<Rightarrow> (MatchOp \<times> string) option" where
  "extract_tag_matcher raw tag =
     Option.bind (tag_scan tag True 0 raw) (\<lambda>rest.
     Option.bind (tag_operator rest) (\<lambda>(mop, r).
     map_option (\<lambda>v. (mop, v)) (tag_value (trim_start r))))"

definition extract_traceql_matchers :: "string \<Rightarrow> FieldMatcher list \<Rightarrow> FieldMatcher list" where
  "extract_traceql_matchers raw labels =
     labels @ List.map_filter
       (\<lambda>(tag, _). map_option (\<lambda>(mop, v). \<lparr>field = tag, mvalue = v, match_op = mop\<rparr>)
                     (extract_tag_matcher raw tag))
       (alias_pairs Spans)"

definition param_matchers :: "(string \<times> string) list \<Rightarrow> FieldMatcher list" where
  "param_matchers params =
     List.map_filter
       (\<lambda>(param, _). case map_of params param of
          Some v \<Rightarrow> if v \<noteq> [] then Some \<lparr>field = param, mvalue = v, match_op = Eq\<rparr> else None
        | None \<Rightarrow> None)
       (alias_pairs Spans)"

definition tempo_matchers :: "(string \<times> string) list \<Rightarrow> FieldMatcher list" where
  "tempo_matchers params =
     (let ms = param_matchers params;
          ms = (case (case map_of params ''q'' of Some q \<Rightarrow> Some q | None \<Rightarrow> map_of params ''query'') of
                  Some q \<Rightarrow> extract_traceql_matchers q ms
                | None \<Rightarrow> ms) in
      case map_of params ''tags'' of
        Some tags \<Rightarrow> extract_traceql_matchers tags ms
      | None \<Rightarrow> ms)"

definition plan_tempo_search ::
  "(string \<times> string) list \<Rightarrow> TimeBounds \<Rightarrow> nat \<Rightarrow> TracePlan api_result" where
  "plan_tempo_search params bounds limit =
     and_then (normalize_matchers (tempo_matchers params) (alias_pairs Spans) ''unsupported_selector'')
       (\<lambda>ms. Inr \<lparr>trace_selector = \<lparr>resource = None, matchers = ms, text_filters = []\<rparr>,
                  trace_bounds = bounds, trace_limit = limit, trace_sort = TimestampDesc\<rparr>)"

section \<open>What is extracted is always supported\<close>

lemma extracted_supported:
  "m \<in> set (extract_traceql_matchers raw ms) \<Longrightarrow> m \<notin> set ms \<Longrightarrow>
   \<exists>c. (field m, c) \<in> set (alias_pairs Spans)"
  by (fastforce simp: extract_traceql_matchers_def map_filter_def split: prod.splits)

lemma param_matchers_supported:
  "m \<in> set (param_matchers params) \<Longrightarrow> \<exists>c. (field m, c) \<in> set (alias_pairs Spans)"
  by (fastforce simp: param_matchers_def map_filter_def split: option.splits if_splits prod.splits)

lemma tempo_matchers_supported:
  assumes "m \<in> set (tempo_matchers params)"
  shows "\<exists>c. map_of (alias_pairs Spans) (field m) = Some c"
proof -
  from assms have "\<exists>c. (field m, c) \<in> set (alias_pairs Spans)"
    using extracted_supported [of m] param_matchers_supported [of m params]
    unfolding tempo_matchers_def Let_def by (auto split: option.splits) blast+
  then show ?thesis using spans_labels.resolve_iff by blast
qed

lemma normalize_supported:
  assumes "\<forall>m \<in> set ms. \<exists>c. map_of supported (field m) = Some c"
  shows "is_ok (normalize_matchers ms supported why) \<longleftrightarrow>
    consistent (map (canonical_matcher supported) ms)"
  using assms by (auto simp: is_ok_iff normalize_matchers_iff)

section \<open>Pipelines\<close>

lemma pipeline_plain:
  "\<not> str_contains raw ''|='' \<Longrightarrow> \<not> str_contains raw ''|~'' \<Longrightarrow>
   parse_log_pipeline raw = (trim raw, [])"
  by (simp add: parse_log_pipeline_def str_contains_def)

section \<open>Printed log queries\<close>

lemma str_find_after:
  "p \<noteq> [] \<Longrightarrow> hd p \<notin> set a \<Longrightarrow> str_find p (a @ b) = map_option (\<lambda>i. length a + i) (str_find p b)"
proof (induction a)
  case Nil
  then show ?case by (simp add: option.map_ident)
next
  case (Cons c a)
  then have "\<not> starts_with ((c # a) @ b) p"
    by (cases p) (auto simp: starts_with_iff)
  with Cons show ?case by (simp add: option.map_comp comp_def)
qed

definition print_log_query :: "FieldMatcher list \<Rightarrow> string \<Rightarrow> string" where
  "print_log_query ms term = print_selector [] ms @ '' |= '' @ [DQ] @ term @ [DQ]"

definition log_printable :: "FieldMatcher \<Rightarrow> bool" where
  "log_printable m = (printable m \<and> CHR ''|'' \<notin> set (mvalue m))"

lemma bar_notin_join:
  "list_all (\<lambda>s. x \<notin> set s) ss \<Longrightarrow> x \<notin> set sep \<Longrightarrow> x \<notin> set (join sep ss)"
  by (induction ss) (auto simp: join_Cons)

lemma bar_notin_selector:
  assumes "list_all log_printable ms"
  shows "CHR ''|'' \<notin> set (print_selector [] ms)"
proof -
  have "CHR ''|'' \<notin> set (print_matcher m)" if "m \<in> set ms" for m
  proof -
    have "\<not> is_ident_char (CHR ''|'')" by (simp add: is_ident_char_def)
    moreover from that assms have "list_all is_ident_char (field m)" "CHR ''|'' \<notin> set (mvalue m)"
      by (auto simp: list_all_iff log_printable_def printable_def)
    ultimately show ?thesis
      by (cases "match_op m") (auto simp: print_matcher_def list_all_iff)
  qed
  then have "CHR ''|'' \<notin> set (join '','' (map print_matcher ms))"
    by (intro bar_notin_join) (auto simp: list_all_iff)
  then show ?thesis by (simp add: print_selector_def)
qed

lemma trim_end_space: "trim_end (s @ '' '') = trim_end s"
  by (simp add: trim_end_def trim_with.simps [of "map rev ws_chars" "CHR 0x20 # rev s"])
    (simp add: ws_chars_def)

lemma trim_selector_space: "trim (print_selector [] ms @ '' '') = print_selector [] ms"
proof -
  have "trim_start (print_selector [] ms @ '' '') = print_selector [] ms @ '' ''"
    by (simp add: print_selector_def trim_start_plain plain_char_def)
  moreover have "trim_end (print_selector [] ms) = print_selector [] ms"
    using trim_end_plain [of "CHR ''}''" "''{'' @ join '','' (map print_matcher ms)"]
    by (simp add: print_selector_def plain_char_def)
  ultimately show ?thesis by (simp add: trim_def trim_end_space)
qed

lemma unquote_trim_space:
  assumes "DQ \<notin> set t"
  shows "unquote (trim (CHR '' '' # DQ # t @ [DQ])) = t"
proof -
  have "trim (CHR '' '' # DQ # t @ [DQ]) = [DQ] @ t @ [DQ]"
    using trim_start_space [of "DQ # t @ [DQ]"] trim_quoted [of t] by (simp add: trim_def)
  then show ?thesis using unquote_quoted [OF assms] by simp
qed

lemma parse_log_pipeline_print:
  assumes ms: "list_all log_printable ms" and t: "DQ \<notin> set t"
  shows "parse_log_pipeline (print_log_query ms t) = (print_selector [] ms, [BodyContains t])"
proof -
  let ?a = "print_selector [] ms @ '' ''" and ?b = "''|= '' @ [DQ] @ t @ [DQ]"
  have q: "print_log_query ms t = ?a @ ?b" by (simp add: print_log_query_def)
  have bar: "CHR ''|'' \<notin> set ?a" using bar_notin_selector [OF ms] by simp
  have eq: "str_find ''|='' (?a @ ?b) = Some (length ?a)"
    using str_find_after [of "''|=''" ?a ?b] bar by (simp add: starts_with_def)
  have re: "case str_find ''|~'' (?a @ ?b) of None \<Rightarrow> True | Some r \<Rightarrow> \<not> r < length ?a"
    using str_find_after [of "''|~''" ?a ?b] bar
    by (auto split: option.splits)
  have sel: "trim (take (length ?a) (?a @ ?b)) = print_selector [] ms"
    using trim_selector_space [of ms] by simp
  have val: "unquote (trim (drop (length ?a + 2) (?a @ ?b))) = t"
    using unquote_trim_space [OF t] by simp
  show ?thesis
  proof (cases "str_find ''|~'' (?a @ ?b)")
    case None
    then show ?thesis
      unfolding q parse_log_pipeline_def eq Let_def using sel val by simp
  next
    case (Some r)
    with re have "\<not> r < length ?a" by simp
    with Some show ?thesis
      unfolding q parse_log_pipeline_def eq Let_def using sel val by simp
  qed
qed

section \<open>Properties of log and trace plans\<close>

text \<open>
  C16. A log query written for known labels is planned as written, when its values do not
  look like LogQL: selector and search term printed as LogQL parse back to the plan with the
  matchers' canonical names and the term. That is: no value holds a double quote, a backslash,
  a bar or an operator that the parser would take for the matcher's own (\<open>log_printable\<close>), the
  term holds no double quote, and no two equalities ask different values of one label
  (\<open>consistent\<close>), which the parser refuses.
\<close>

theorem loki_query_roundtrip:
  assumes "list_all log_printable ms" and "DQ \<notin> set t"
    and "list_all (\<lambda>m. canonical_for_alias Logs (field m) \<noteq> None) ms"
    and "consistent (map (canonical_matcher (alias_pairs Logs)) ms)"
  shows "parse_loki_query (print_log_query ms t) bounds limit dir =
    Inr \<lparr>log_selector = \<lparr>resource = None, matchers = map (canonical_matcher (alias_pairs Logs)) ms,
                         text_filters = [BodyContains t]\<rparr>,
         log_bounds = bounds, log_limit = limit, direction = from_loki dir,
         stream_labels = loki_stream_labels\<rparr>"
proof -
  have "list_all printable ms" using assms(1) by (auto simp: list_all_iff log_printable_def)
  then have "parse_selector_matchers (print_selector [] ms) ''unsupported_selector'' = Inr ([], ms)"
    by (intro parse_print_selector) simp_all
  moreover have "normalize_matchers ms (alias_pairs Logs) ''unsupported_selector'' =
      Inr (map (canonical_matcher (alias_pairs Logs)) ms)"
    using assms(3,4) unfolding normalize_matchers_iff canonical_for_alias_map_of
    by (simp add: list_all_iff)
  ultimately show ?thesis
    using parse_log_pipeline_print [OF assms(1,2)] by (simp add: parse_loki_query_def)
qed

theorem loki_query_roundtrip_witness:
  "\<exists>plan. parse_loki_query
      (print_log_query [\<lparr>field = ''service.name'', mvalue = ''check,out'', match_op = Eq\<rparr>] ''time out'')
      \<lparr>bounds_from = 0, bounds_to = 9\<rparr> 5 ''forward'' = Inr plan \<and> direction plan = Forward \<and>
    text_filters (log_selector plan) = [BodyContains ''time out'']"
proof -
  let ?ms = "[\<lparr>field = ''service.name'', mvalue = ''check,out'', match_op = Eq\<rparr>]"
  have "canonical_for_alias Logs ''service.name'' \<noteq> None" by code_simp
  then show ?thesis
    using loki_query_roundtrip [of ?ms "''time out''" "\<lparr>bounds_from = 0, bounds_to = 9\<rparr>" 5 "''forward''"]
    by (simp add: log_printable_def printable_def is_ident_char_def str_contains_def starts_with_def
        consistent_def from_loki_def)
qed

text \<open>
  C18. A trace search is refused for one reason only: every matcher it collects from the
  parameters, the query and the tags is on a supported span label, so it is planned
  exactly when no two of its equalities contradict each other.
\<close>

theorem tempo_search_refused_iff_conflict:
  "is_ok (plan_tempo_search params bounds limit) \<longleftrightarrow>
   consistent (map (canonical_matcher (alias_pairs Spans)) (tempo_matchers params))"
proof -
  have "is_ok (plan_tempo_search params bounds limit) \<longleftrightarrow>
      is_ok (normalize_matchers (tempo_matchers params) (alias_pairs Spans) ''unsupported_selector'')"
    by (auto simp: plan_tempo_search_def is_ok_iff result_simps)
  then show ?thesis
    using normalize_supported [of "tempo_matchers params" "alias_pairs Spans"] tempo_matchers_supported
    by blast
qed

end
