(* ===== verification/Text.thy ===== *)
theory Text
  imports Rust_Str
begin

text \<open>
  Further operations of Rust's standard library on text: decimal numbers in both
  directions, ASCII case, splitting at a string and replacing one.
\<close>

section \<open>Decimal numbers\<close>

definition digit_char :: "nat \<Rightarrow> char" where
  "digit_char d = char_of (48 + d)"

definition digit_val :: "char \<Rightarrow> nat option" where
  "digit_val c = (if 48 \<le> byte c \<and> byte c \<le> (57::nat) then Some (byte c - 48) else None)"

fun show_nat :: "nat \<Rightarrow> string" where
  "show_nat n = (if n < 10 then [digit_char n] else show_nat (n div 10) @ [digit_char (n mod 10)])"

declare show_nat.simps [simp del]

definition show_int :: "int \<Rightarrow> string" where
  "show_int i = (if i < 0 then CHR ''-'' # show_nat (nat (- i)) else show_nat (nat i))"

text \<open>\<open>parse_digits\<close>: one or more digits, most significant first.\<close>

fun parse_digits_from :: "nat \<Rightarrow> string \<Rightarrow> nat option" where
  "parse_digits_from acc [] = Some acc"
| "parse_digits_from acc (c # cs) =
     (case digit_val c of None \<Rightarrow> None | Some d \<Rightarrow> parse_digits_from (10 * acc + d) cs)"

definition parse_digits :: "string \<Rightarrow> nat option" where
  "parse_digits s = (if s = [] then None else parse_digits_from 0 s)"

text \<open>
  \<open>str::parse\<close> for an unsigned type with the given largest value: an optional plus
  sign, digits, and no overflow.
\<close>

definition parse_unsigned :: "nat \<Rightarrow> string \<Rightarrow> nat option" where
  "parse_unsigned limit s =
     Option.bind (parse_digits (case s of c # cs \<Rightarrow> if c = CHR ''+'' \<and> cs \<noteq> [] then cs else s | [] \<Rightarrow> s))
       (\<lambda>n. if n \<le> limit then Some n else None)"

definition parse_i64 :: "string \<Rightarrow> int option" where
  "parse_i64 s =
     (case s of
        c # cs \<Rightarrow>
          if c = CHR ''-'' then
            Option.bind (parse_digits cs) (\<lambda>n. if n \<le> 2 ^ 63 then Some (- int n) else None)
          else map_option int (parse_unsigned (2 ^ 63 - 1) s)
      | [] \<Rightarrow> None)"

abbreviation "U64_MAX \<equiv> (2 ^ 64 - 1 :: nat)"
abbreviation "U32_MAX \<equiv> (2 ^ 32 - 1 :: nat)"
abbreviation "U16_MAX \<equiv> (2 ^ 16 - 1 :: nat)"

lemma digit_char_range: "d < 10 \<Longrightarrow> byte (digit_char d) = (48 + d :: nat)"
  by (simp add: digit_char_def)

lemma digit_val_char [simp]: "d < 10 \<Longrightarrow> digit_val (digit_char d) = Some d"
  by (simp add: digit_val_def digit_char_range)

lemma parse_digits_from_append:
  "parse_digits_from acc (s @ t) = Option.bind (parse_digits_from acc s) (\<lambda>n. parse_digits_from n t)"
  by (induction acc s rule: parse_digits_from.induct) (auto split: option.splits)

lemma parse_digits_from_show: "parse_digits_from 0 (show_nat n) = Some n"
proof (induction n rule: show_nat.induct)
  case (1 n)
  show ?case
  proof (cases "n < 10")
    case True
    then show ?thesis by (subst show_nat.simps) simp
  next
    case False
    with 1 have "parse_digits_from 0 (show_nat (n div 10)) = Some (n div 10)" by simp
    with False show ?thesis
      by (subst show_nat.simps) (simp add: parse_digits_from_append)
  qed
qed

lemma show_nat_neq_Nil [simp]: "show_nat n \<noteq> []"
  by (subst show_nat.simps) simp

lemma show_nat_digits: "c \<in> set (show_nat n) \<Longrightarrow> 48 \<le> byte c \<and> byte c \<le> (57::nat)"
proof (induction n rule: show_nat.induct)
  case (1 n)
  show ?case
  proof (cases "n < 10")
    case True
    with 1(2) have "c = digit_char n" by (subst (asm) show_nat.simps) simp
    with True show ?thesis by (simp add: digit_char_range)
  next
    case False
    then have "show_nat n = show_nat (n div 10) @ [digit_char (n mod 10)]"
      by (subst show_nat.simps) simp
    with 1(2) have "c \<in> set (show_nat (n div 10)) \<or> c = digit_char (n mod 10)" by auto
    with 1(1) [OF False] show ?thesis by (auto simp: digit_char_range)
  qed
qed

lemma digit_plain: "48 \<le> byte c \<and> byte c \<le> (57::nat) \<Longrightarrow> plain_char c \<and> c \<noteq> SQ \<and> c \<noteq> CHR ''+'' \<and> c \<noteq> CHR ''-''"
  by (auto simp: plain_char_def)

lemma SQ_notin_show_nat [simp]: "SQ \<notin> set (show_nat n)"
  using show_nat_digits digit_plain by blast

lemma SQ_notin_show_int [simp]: "SQ \<notin> set (show_int i)"
  by (simp add: show_int_def)

lemma parse_unsigned_show: "n \<le> limit \<Longrightarrow> parse_unsigned limit (show_nat n) = Some n"
proof -
  assume n: "n \<le> limit"
  obtain c cs where s: "show_nat n = c # cs" by (cases "show_nat n") simp_all
  then have "c \<noteq> CHR ''+''" using show_nat_digits digit_plain by (metis list.set_intros(1))
  with s n parse_digits_from_show [of n] show ?thesis
    by (simp add: parse_unsigned_def parse_digits_def)
qed

section \<open>ASCII case\<close>

definition ascii_upper_char :: "char \<Rightarrow> char" where
  "ascii_upper_char c = (if 97 \<le> byte c \<and> byte c \<le> (122::nat) then char_of (byte c - 32 :: nat) else c)"

definition ascii_lower_char :: "char \<Rightarrow> char" where
  "ascii_lower_char c = (if 65 \<le> byte c \<and> byte c \<le> (90::nat) then char_of (byte c + 32 :: nat) else c)"

definition to_ascii_uppercase :: "string \<Rightarrow> string" where
  "to_ascii_uppercase s = map ascii_upper_char s"

definition to_ascii_lowercase :: "string \<Rightarrow> string" where
  "to_ascii_lowercase s = map ascii_lower_char s"

definition eq_ignore_ascii_case :: "string \<Rightarrow> string \<Rightarrow> bool" where
  "eq_ignore_ascii_case s t = (to_ascii_lowercase s = to_ascii_lowercase t)"

section \<open>Splitting at a string and replacing one\<close>

text \<open>\<open>split\<close> and \<open>replace\<close> with a nonempty pattern: occurrences from the left.\<close>

function (sequential) split_str :: "string \<Rightarrow> string \<Rightarrow> string list" where
  "split_str p s =
     (if p = [] then [s]
      else case split_once p s of None \<Rightarrow> [s] | Some (a, b) \<Rightarrow> a # split_str p b)"
  by pat_completeness auto
termination
  by (relation "measure (length \<circ> snd)") (auto dest!: split_once_SomeD)

declare split_str.simps [simp del]

definition str_replace :: "string \<Rightarrow> string \<Rightarrow> string \<Rightarrow> string" where
  "str_replace p r s = join r (split_str p s)"

lemma split_str_neq_Nil [simp]: "split_str p s \<noteq> []"
  by (subst split_str.simps) (auto split: option.splits)

lemma join_split_str: "join p (split_str p s) = s"
proof (induction p s rule: split_str.induct)
  case (1 p s)
  show ?case
    by (subst split_str.simps) (auto simp: 1 join_Cons dest!: split_once_SomeD split: option.splits)
qed

lemma str_replace_absent: "\<not> str_contains s p \<Longrightarrow> str_replace p r s = s"
proof -
  assume "\<not> str_contains s p"
  then have "split_once p s = None"
    by (auto simp: str_contains_def str_find_split_once)
  then show ?thesis by (simp add: str_replace_def split_str.simps [of p s])
qed

end
