(* ===== verification/Query_Engine.thy ===== *)
theory Query_Engine
  imports Plan Semantic_Labels Text
begin

text \<open>
  The query engine (\<^verbatim>\<open>src/src/query/mod.rs\<close>): the SQL of log, trace and metric
  queries, reading result rows, and the page a query answers with. The database is
  outside: \<open>run\<close> is what the storage layer answers to a statement, \<open>prefix\<close> the table
  prefix it hands to the statement's builder, \<open>fmt\<close> the time library's timestamp text.
\<close>

section \<open>Errors from the storage layer\<close>

datatype AnyhowError = QueryTimeoutError string | OtherError string

fun storage_err :: "AnyhowError \<Rightarrow> ApiError" where
  "storage_err (QueryTimeoutError msg) = ApiError_new 503 ''query_timeout'' msg"
| "storage_err (OtherError msg) = ApiError_new 503 ''query_storage_unavailable'' msg"

fun map_err :: "('e \<Rightarrow> 'f) \<Rightarrow> 'e + 'a \<Rightarrow> 'f + 'a" where
  "map_err f (Inl e) = Inl (f e)"
| "map_err f (Inr a) = Inr a"

section \<open>Clauses\<close>

definition push_matcher ::
  "string list \<Rightarrow> FieldMatcher \<Rightarrow> LabelScope \<Rightarrow> string \<Rightarrow> string list api_result" where
  "push_matcher where_sql matcher s why =
     and_then (ok_or (label_expr s (field matcher))
                (ApiError_new 400 why (''unsupported label '' @ field matcher @ '' in v0 selector'')))
       (\<lambda>expr.
          let value_expr = ''coalesce(cast('' @ expr @ '' AS VARCHAR), '' @ [SQ, SQ] @ '')'' in
          Inr (where_sql @
            (case match_op matcher of
               Eq \<Rightarrow> [value_expr @ '' = '' @ quote (mvalue matcher)]
             | NotEq \<Rightarrow> [value_expr @ '' != '' @ quote (mvalue matcher)]
             | Regex \<Rightarrow>
                 if mvalue matcher = ''.*'' then []
                 else [''regexp_matches('' @ value_expr @ '', '' @ quote (mvalue matcher) @ '')'']
             | NotRegex \<Rightarrow>
                 if mvalue matcher = ''.*'' then [''FALSE'']
                 else [''NOT regexp_matches('' @ value_expr @ '', '' @ quote (mvalue matcher) @ '')''])))"

fun push_matchers ::
  "string list \<Rightarrow> FieldMatcher list \<Rightarrow> LabelScope \<Rightarrow> string \<Rightarrow> string list api_result" where
  "push_matchers where_sql [] s why = Inr where_sql"
| "push_matchers where_sql (m # ms) s why =
     and_then (push_matcher where_sql m s why) (\<lambda>w. push_matchers w ms s why)"

definition text_terms :: "string \<Rightarrow> string \<Rightarrow> string api_result" where
  "text_terms column query =
     (let upper = to_ascii_uppercase query in
      if str_contains upper ''('' \<or> str_contains upper '')''
      then Inl (ApiError_new 400 ''unsupported_query''
                  ''parentheses are not implemented in v0 text search'')
      else
        (let sep = (if str_contains upper '' OR '' then '' OR '' else '' AND '');
             terms = filter (\<lambda>term. term \<noteq> []) (map trim (split_str sep query));
             clauses = map (\<lambda>term. column @ '' ILIKE '' @ quote (''%'' @ term @ ''%'')) terms in
         Inr (if clauses = [] then ''TRUE'' else ''('' @ join sep clauses @ '')'')))"

fun push_filters :: "string list \<Rightarrow> TextFilter list \<Rightarrow> string list api_result" where
  "push_filters where_sql [] = Inr where_sql"
| "push_filters where_sql (BodyContains t # fs) =
     and_then (text_terms ''body'' t) (\<lambda>c. push_filters (where_sql @ [c]) fs)"
| "push_filters where_sql (BodyRegex pat # fs) =
     push_filters (where_sql @ [''regexp_matches(coalesce(body, '' @ [SQ, SQ] @ ''), '' @ quote pat @ '')'']) fs"

section \<open>Log queries\<close>

definition log_where_sql :: "(int \<Rightarrow> string) \<Rightarrow> LogPlan \<Rightarrow> string list api_result" where
  "log_where_sql fmt plan =
     and_then
       (push_matchers
          [time_predicate fmt ''time_unix_nano'' (bounds_from (log_bounds plan)) (bounds_to (log_bounds plan))]
          (matchers (log_selector plan)) Logs ''unsupported_selector'')
       (\<lambda>where_sql. push_filters where_sql (text_filters (log_selector plan)))"

definition log_select_sql ::
  "string \<Rightarrow> (string \<times> string) list \<Rightarrow> string list \<Rightarrow> string \<Rightarrow> nat \<Rightarrow> string" where
  "log_select_sql tbl projected where_sql dir limit =
     (let columns =
        [''time_unix_nano::VARCHAR AS timestamp'', ''body''] @
        map (\<lambda>(name, expr). ''cast('' @ expr @ '' AS VARCHAR) AS '' @ name) projected in
      ''SELECT '' @ join '', '' columns @ '' FROM '' @ tbl @ '' WHERE '' @
      join '' AND '' where_sql @ '' ORDER BY time_unix_nano '' @ dir @ '' LIMIT '' @ show_nat limit)"

definition log_sql :: "(int \<Rightarrow> string) \<Rightarrow> LogPlan \<Rightarrow> string api_result" where
  "log_sql fmt plan =
     map_ok (\<lambda>where_sql.
       log_select_sql (''{prefix}'' @ signal_as_str LogsSignal) (projected_labels Logs) where_sql
         (direction_sql (direction plan)) (log_limit plan + 1))
       (log_where_sql fmt plan)"

text \<open>
  A result row answers a column's text by name (or nothing, or an error). The JSON
  object of a log row is its list of keys and values.
\<close>

definition log_row ::
  "(string \<Rightarrow> 'e + string option) \<Rightarrow> (string \<times> string) list \<Rightarrow> 'e + (string \<times> string option) list" where
  "log_row get projected =
     collect_results (map (\<lambda>name. map_ok (\<lambda>v. (name, v)) (get name))
       ([''timestamp'', ''body''] @ map fst projected))"

record 'r QueryPage =
  page_rows :: "'r list"
  applied_limit :: nat
  truncated :: bool
  query_duration_ms :: nat

definition wrap_rows :: "'r list \<Rightarrow> nat \<Rightarrow> nat \<Rightarrow> 'r QueryPage" where
  "wrap_rows rows limit ms =
     \<lparr>page_rows = take limit rows, applied_limit = limit,
      truncated = (limit < length rows), query_duration_ms = ms\<rparr>"

definition run_sql :: "string \<Rightarrow> (string \<Rightarrow> AnyhowError + 'r list) \<Rightarrow> string \<Rightarrow> 'r list api_result" where
  "run_sql prefix run sql = map_err storage_err (run (str_replace ''{prefix}'' prefix sql))"

definition execute_logs ::
  "(int \<Rightarrow> string) \<Rightarrow> string \<Rightarrow> (string \<Rightarrow> AnyhowError + 'r list) \<Rightarrow> nat \<Rightarrow> LogPlan \<Rightarrow> 'r QueryPage api_result" where
  "execute_logs fmt prefix run elapsed plan =
     and_then (log_sql fmt plan) (\<lambda>sql.
       map_ok (\<lambda>rows. wrap_rows rows (log_limit plan) elapsed) (run_sql prefix run sql))"

section \<open>Trace searches\<close>

definition trace_sql :: "(int \<Rightarrow> string) \<Rightarrow> TracePlan \<Rightarrow> string api_result" where
  "trace_sql fmt plan =
     map_ok (\<lambda>where_sql.
       ''SELECT lower(trace_id), min(start_time_unix_nano)::VARCHAR, max(start_time_unix_nano)::VARCHAR, max(service_name), max(name), count(*), max(duration_time_unix_nano) FROM {prefix}'' @
       signal_as_str SpansSignal @ '' WHERE '' @ join '' AND '' where_sql @
       '' GROUP BY trace_id ORDER BY '' @
       (case trace_sort plan of DurationDesc \<Rightarrow> ''7 DESC'' | TimestampDesc \<Rightarrow> ''3 DESC'') @
       '' LIMIT '' @ show_nat (trace_limit plan + 1))
       (push_matchers
          [time_predicate fmt ''start_time_unix_nano'' (bounds_from (trace_bounds plan)) (bounds_to (trace_bounds plan))]
          (matchers (trace_selector plan)) Spans ''unsupported_selector'')"

definition execute_trace_search ::
  "(int \<Rightarrow> string) \<Rightarrow> string \<Rightarrow> (string \<Rightarrow> AnyhowError + 'r list) \<Rightarrow> nat \<Rightarrow> TracePlan \<Rightarrow> 'r QueryPage api_result" where
  "execute_trace_search fmt prefix run elapsed plan =
     and_then (trace_sql fmt plan) (\<lambda>sql.
       map_ok (\<lambda>rows. wrap_rows rows (trace_limit plan) elapsed) (run_sql prefix run sql))"

section \<open>Metric queries\<close>

definition VALUE_EXPR :: string where
  "VALUE_EXPR = ''coalesce(double_value, int_value::DOUBLE)''"

definition agg_sql :: "MetricAggregation \<Rightarrow> MetricSignal \<Rightarrow> string api_result" where
  "agg_sql agg sig =
     (case agg of
        AggAvg \<Rightarrow> Inr (''avg('' @ VALUE_EXPR @ '')'')
      | AggMin \<Rightarrow> Inr (''min('' @ VALUE_EXPR @ '')'')
      | AggMax \<Rightarrow> Inr (''max('' @ VALUE_EXPR @ '')'')
      | AggSum \<Rightarrow> Inr (''sum('' @ VALUE_EXPR @ '')'')
      | AggCount \<Rightarrow> Inr ''count(*)''
      | AggRate \<Rightarrow>
          if sig = SumSignal then
            Inr (''case when epoch(max(time_unix_nano)-min(time_unix_nano)) > 0 then (max('' @ VALUE_EXPR @
                 '')-min('' @ VALUE_EXPR @
                 ''))/epoch(max(time_unix_nano)-min(time_unix_nano)) else null end'')
          else Inl (ApiError_new 400 ''unsupported_aggregation'' ''unsupported aggregation''))"

definition clamp_step :: "int \<Rightarrow> int" where
  "clamp_step s = min (max s 1) 86400"

definition group_selects :: "string list \<Rightarrow> (string \<times> string) list" where
  "group_selects labels =
     List.map_filter (\<lambda>label. map_option (\<lambda>expr. (label, expr)) (label_expr Metrics label)) labels"

definition metric_select_sql ::
  "string \<Rightarrow> int \<Rightarrow> (string \<times> string) list \<Rightarrow> string \<Rightarrow> string list \<Rightarrow> string \<Rightarrow> nat \<Rightarrow> string" where
  "metric_select_sql agg step selects table where_sql order limit =
     ''SELECT to_timestamp(floor(epoch(time_unix_nano)/'' @ show_int step @ '')*'' @ show_int step @
     '')::VARCHAR AS bucket'' @ concat (map (\<lambda>(label, expr). '', '' @ expr @ '' AS '' @ label) selects) @
     '', '' @ agg @ '' AS value FROM {prefix}'' @ table @ '' WHERE '' @ join '' AND '' where_sql @
     '' GROUP BY bucket'' @ concat (map (\<lambda>(_, expr). '', '' @ expr) selects) @
     '' ORDER BY bucket '' @ order @ '' LIMIT '' @ show_nat limit"

definition metric_sql :: "(int \<Rightarrow> string) \<Rightarrow> MetricPlan \<Rightarrow> string api_result" where
  "metric_sql fmt plan =
     and_then (agg_sql (metric_aggregation plan) (metric_signal plan)) (\<lambda>agg.
     and_then (ok_or (resource (metric_selector plan))
                (ApiError_new 400 ''missing_metric_name'' ''metric_name is required'')) (\<lambda>name.
     map_ok (\<lambda>where_sql.
         metric_select_sql agg (clamp_step (step_seconds plan)) (group_selects (metric_group_by plan))
           (metric_table (metric_signal plan)) where_sql (direction_sql (metric_order plan))
           (metric_limit plan + 1))
       (push_matchers
          [time_predicate fmt ''time_unix_nano'' (bounds_from (metric_bounds plan)) (bounds_to (metric_bounds plan)),
           ''name = '' @ quote name]
          (matchers (metric_selector plan)) Metrics ''unsupported_promql'')))"

text \<open>A metric row: columns by index; the label columns follow the bucket.\<close>

record 'v MetricRow =
  row_timestamp :: string
  row_labels :: "(string \<times> string option) list"
  row_value :: "'v option"

definition metric_row ::
  "(nat \<Rightarrow> 'e + string) \<Rightarrow> (nat \<Rightarrow> 'e + string option) \<Rightarrow> (nat \<Rightarrow> 'e + 'v option) \<Rightarrow>
   string list \<Rightarrow> 'e + 'v MetricRow" where
  "metric_row get_text get_opt get_value labels =
     and_then (get_text 0) (\<lambda>ts.
     and_then (collect_results (map (\<lambda>(idx, column). map_ok (\<lambda>v. (column, v)) (get_opt (idx + 1)))
                 (enumerate 0 labels))) (\<lambda>cols.
     map_ok (\<lambda>v. \<lparr>row_timestamp = ts, row_labels = cols, row_value = v\<rparr>)
       (get_value (length labels + 1))))"

definition execute_metric ::
  "(int \<Rightarrow> string) \<Rightarrow> string \<Rightarrow> (string \<Rightarrow> AnyhowError + 'r list) \<Rightarrow> nat \<Rightarrow> MetricPlan \<Rightarrow> 'r QueryPage api_result" where
  "execute_metric fmt prefix run elapsed plan =
     and_then (metric_sql fmt plan) (\<lambda>sql.
       map_ok (\<lambda>rows. wrap_rows rows (metric_limit plan) elapsed) (run_sql prefix run sql))"

section \<open>Values stay inside their literals\<close>

text \<open>
  Two texts have the \<^emph>\<open>same code\<close> when they close every literal they open and are
  equal outside them. The shape of a matcher and of a text filter is all of it that the
  statement's code may depend on: of a matcher its label, its operator and whether it is a
  regular expression that is exactly \<open>.*\<close>, which has no clause, or negated is \<open>FALSE\<close>; of a
  text filter how many terms it has and whether any or all of them are searched for.
\<close>

definition same_code :: "string \<Rightarrow> string \<Rightarrow> bool" where
  "same_code a b = (closed_sql a \<and> closed_sql b \<and> sql_code False a = sql_code False b)"

definition matches_anything :: "FieldMatcher \<Rightarrow> bool" where
  "matches_anything m \<longleftrightarrow> match_op m \<in> {Regex, NotRegex} \<and> mvalue m = ''.*''"

definition matcher_shape :: "FieldMatcher \<Rightarrow> string \<times> MatchOp \<times> bool" where
  "matcher_shape m = (field m, match_op m, matches_anything m)"

definition text_or :: "string \<Rightarrow> bool" where
  "text_or query = str_contains (to_ascii_uppercase query) '' OR ''"

definition text_parts :: "string \<Rightarrow> string list" where
  "text_parts query =
     filter (\<lambda>term. term \<noteq> [])
       (map trim (split_str (if text_or query then '' OR '' else '' AND '') query))"


lemma same_code_append: "same_code a b \<Longrightarrow> same_code c d \<Longrightarrow> same_code (a @ c) (b @ d)"
  by (auto simp: same_code_def sql_code_closed_append)

lemma same_code_refl: "closed_sql a \<Longrightarrow> same_code a a"
  by (simp add: same_code_def)

lemma same_code_quote: "same_code (quote v) (quote w)"
  by (simp add: same_code_def lit.q_hidden)

lemma same_code_join:
  "list_all2 same_code xs ys \<Longrightarrow> closed_sql sep \<Longrightarrow> same_code (join sep xs) (join sep ys)"
proof (induction rule: list_all2_induct)
  case Nil
  then show ?case by (simp add: same_code_def closed_sql_def)
next
  case (Cons x xs y ys)
  then have "xs = [] \<longleftrightarrow> ys = []" by (auto dest: list_all2_lengthD)
  with Cons show ?case
    by (auto simp: join_Cons intro!: same_code_append same_code_refl)
qed

lemma closed_Nil [simp]: "closed_sql []"
  by (simp add: closed_sql_def)

lemma closed_Cons: "c \<noteq> SQ \<Longrightarrow> closed_sql (c # s) \<longleftrightarrow> closed_sql s"
  by (simp add: closed_sql_def)

lemma closed_empty_literal: "closed_sql (SQ # SQ # s) \<longleftrightarrow> closed_sql s"
  by (simp add: closed_sql_def)


lemma same_code_time_predicate:
  assumes "SQ \<notin> set col"
  shows "same_code (time_predicate fmt col f t) (time_predicate fmt' col f' t')"
proof -
  have a: "closed_sql (col @ '' >= TIMESTAMP '')" "closed_sql ('' AND '' @ col @ '' < TIMESTAMP '')"
    using assms by (auto intro!: closed_sql_free)
  have "same_code ((col @ '' >= TIMESTAMP '') @ quote (fmt f) @ ('' AND '' @ col @ '' < TIMESTAMP '') @ quote (fmt t))
     ((col @ '' >= TIMESTAMP '') @ quote (fmt' f') @ ('' AND '' @ col @ '' < TIMESTAMP '') @ quote (fmt' t'))"
    by (intro same_code_append same_code_quote same_code_refl a)
  then show ?thesis by (simp add: time_predicate_def)
qed

lemma value_expr_closed:
  "closed_sql expr \<Longrightarrow>
   closed_sql (''coalesce(cast('' @ expr @ '' AS VARCHAR), '' @ [SQ, SQ] @ '')'')"
  by (simp add: closed_sql_def)

lemma push_matcher_same_code:
  assumes "push_matcher w m s why = Inr a" and "push_matcher w' m' s why = Inr b"
    and "matcher_shape m = matcher_shape m'" and "list_all2 same_code w w'"
  shows "list_all2 same_code a b"
proof -
  from assms obtain e where e: "label_expr s (field m) = Some e" "label_expr s (field m') = Some e"
    by (auto simp: push_matcher_def matcher_shape_def result_simps)
  let ?v = "''coalesce(cast('' @ e @ '' AS VARCHAR), '' @ [SQ, SQ] @ '')''"
  have v: "closed_sql ?v" by (rule value_expr_closed) (rule label_expr_closed [OF e(1)])
  have cmp: "same_code (?v @ sep @ quote x) (?v @ sep @ quote y)" if "SQ \<notin> set sep" for sep x y
    by (intro same_code_append same_code_refl v same_code_quote closed_sql_free that)
  have rx: "same_code (f @ ?v @ '', '' @ quote x @ '')'') (f @ ?v @ '', '' @ quote y @ '')'')"
    if "SQ \<notin> set f" for f x y
    by (intro same_code_append same_code_refl v same_code_quote closed_sql_free that) simp_all
  have false: "same_code ''FALSE'' ''FALSE''"
    by (intro same_code_refl closed_sql_free) simp
  show ?thesis
  proof (cases "match_op m")
    case Eq
    with assms e cmp [of "'' = ''"] show ?thesis
      by (auto simp: push_matcher_def matcher_shape_def matches_anything_def intro!: list_all2_appendI)
  next
    case NotEq
    with assms e cmp [of "'' != ''"] show ?thesis
      by (auto simp: push_matcher_def matcher_shape_def matches_anything_def intro!: list_all2_appendI)
  next
    case Regex
    moreover have "match_op m' = Regex" "mvalue m = ''.*'' \<longleftrightarrow> mvalue m' = ''.*''"
      using assms(3) Regex by (auto simp: matcher_shape_def matches_anything_def)
    ultimately show ?thesis
      using assms(1,2,4) e rx [of "''regexp_matches(''"]
      by (cases "mvalue m' = ''.*''") (auto simp: push_matcher_def intro!: list_all2_appendI)
  next
    case NotRegex
    moreover have "match_op m' = NotRegex" "mvalue m = ''.*'' \<longleftrightarrow> mvalue m' = ''.*''"
      using assms(3) NotRegex by (auto simp: matcher_shape_def matches_anything_def)
    ultimately show ?thesis
      using assms(1,2,4) e rx [of "''NOT regexp_matches(''"] false
      by (cases "mvalue m' = ''.*''") (auto simp: push_matcher_def intro!: list_all2_appendI)
  qed
qed

lemma push_matchers_same_code:
  "push_matchers w ms s why = Inr a \<Longrightarrow> push_matchers w' ms' s why = Inr b \<Longrightarrow>
   map matcher_shape ms = map matcher_shape ms' \<Longrightarrow> list_all2 same_code w w' \<Longrightarrow>
   list_all2 same_code a b"
proof (induction ms arbitrary: w w' ms')
  case Nil
  then show ?case by simp
next
  case (Cons m ms)
  then obtain m' ns where ms': "ms' = m' # ns" "matcher_shape m = matcher_shape m'"
    "map matcher_shape ms = map matcher_shape ns" by auto
  with Cons.prems obtain u u' where
    "push_matcher w m s why = Inr u" "push_matchers u ms s why = Inr a"
    "push_matcher w' m' s why = Inr u'" "push_matchers u' ns s why = Inr b"
    by (auto simp: result_simps)
  with Cons.IH [of u u' ns] ms' Cons.prems(4) push_matcher_same_code show ?case by blast
qed

lemma push_matchers_ok:
  "(\<And>m. m \<in> set ms \<Longrightarrow> label_expr s (field m) \<noteq> None) \<Longrightarrow> \<exists>ws. push_matchers w ms s why = Inr ws"
proof (induction ms arbitrary: w)
  case Nil
  then show ?case by simp
next
  case (Cons m ms)
  then obtain e where "label_expr s (field m) = Some e" by force
  then obtain u where "push_matcher w m s why = Inr u"
    by (simp add: push_matcher_def Let_def)
  with Cons.IH [of u] Cons.prems show ?case by simp
qed




lemma canonical_free: "d \<in> set LABELS \<Longrightarrow> SQ \<notin> set (canonical d)"
  using canonicals_plain by (auto simp: list_all_iff)


lemma group_selects_closed:
  assumes "(label, expr) \<in> set (group_selects labels)"
  shows "closed_sql expr \<and> SQ \<notin> set label"
proof -
  from assms have e: "label_expr Metrics label = Some expr"
    by (auto simp: group_selects_def map_filter_def)
  then obtain d where "label_def Metrics label = Some d"
    by (auto simp: label_expr_def bind_eq_Some_conv)
  then have "d \<in> set LABELS \<and> canonical d = label" by (blast dest: label_def_SomeD)
  with canonical_free label_expr_closed [OF e] show ?thesis by blast
qed

lemma closed_concat: "list_all closed_sql xs \<Longrightarrow> closed_sql (concat xs)"
  by (induction xs) auto

lemma SQ_notin_direction [simp]: "SQ \<notin> set (direction_sql d)"
  by (cases d) simp_all

lemma SQ_notin_signal [simp]: "SQ \<notin> set (signal_as_str s)"
  by (cases s) simp_all


section \<open>Properties of the statements\<close>

text \<open>Plans to evaluate the statements on: one matcher whose value varies.\<close>

definition sample_selector :: "string \<Rightarrow> string option \<Rightarrow> SelectorPlan" where
  "sample_selector v name =
     \<lparr>resource = name, matchers = [\<lparr>field = ''service_name'', mvalue = v, match_op = Eq\<rparr>], text_filters = []\<rparr>"

definition sample_log :: "string \<Rightarrow> LogPlan" where
  "sample_log v = \<lparr>log_selector = sample_selector v None, log_bounds = \<lparr>bounds_from = 0, bounds_to = 1\<rparr>,
     log_limit = 10, direction = Forward, stream_labels = []\<rparr>"

definition sample_trace :: "string \<Rightarrow> TracePlan" where
  "sample_trace v = \<lparr>trace_selector = sample_selector v None, trace_bounds = \<lparr>bounds_from = 0, bounds_to = 1\<rparr>,
     trace_limit = 10, trace_sort = TimestampDesc\<rparr>"

definition sample_metric :: "string \<Rightarrow> string \<Rightarrow> MetricPlan" where
  "sample_metric v name = \<lparr>metric_selector = sample_selector v (Some name),
     metric_bounds = \<lparr>bounds_from = 0, bounds_to = 1\<rparr>, metric_signal = Gauge, metric_aggregation = AggAvg,
     metric_group_by = [''service_name''], step_seconds = 60, metric_limit = 10, metric_order = Forward\<rparr>"

lemmas sample_defs = sample_selector_def sample_log_def sample_trace_def sample_metric_def

lemma sample_label: "label_expr s ''service_name'' \<noteq> None"
  by (cases s) (simp only:, code_simp)+


lemma sample_trace_ok: "\<exists>a. trace_sql fmt (sample_trace v) = Inr a"
  using sample_label [of Spans]
  by (auto simp: sample_defs trace_sql_def push_matcher_def Let_def)

lemma sample_metric_ok: "\<exists>a. metric_sql fmt (sample_metric v name) = Inr a"
  using sample_label [of Metrics]
  by (auto simp: sample_defs metric_sql_def push_matcher_def Let_def agg_sql_def)



text \<open>
  The same for trace searches: values and times never reach the code of the SQL.
\<close>

theorem trace_sql_value_independent:
  assumes a: "trace_sql fmt p = Inr a" and b: "trace_sql fmt' p' = Inr b"
    and ms: "map matcher_shape (matchers (trace_selector p)) = map matcher_shape (matchers (trace_selector p'))"
    and same: "trace_limit p = trace_limit p'" "trace_sort p = trace_sort p'"
  shows "closed_sql a \<and> closed_sql b \<and> sql_code False a = sql_code False b"
proof -
  let ?w0 = "\<lambda>fmt p. [time_predicate fmt ''start_time_unix_nano'' (bounds_from (trace_bounds p)) (bounds_to (trace_bounds p))]"
  from a obtain w where w: "push_matchers (?w0 fmt p) (matchers (trace_selector p)) Spans ''unsupported_selector'' = Inr w"
    by (auto simp: trace_sql_def result_simps)
  from b obtain w' where w': "push_matchers (?w0 fmt' p') (matchers (trace_selector p')) Spans ''unsupported_selector'' = Inr w'"
    by (auto simp: trace_sql_def result_simps)
  have "list_all2 same_code w w'"
    by (rule push_matchers_same_code [OF w w' ms]) (simp add: same_code_time_predicate)
  then have j: "same_code (join '' AND '' w) (join '' AND '' w')"
    by (rule same_code_join) (simp add: closed_sql_free)
  have "same_code a b"
    using a b w w' same
    by (cases "trace_sort p'")
      (auto simp: trace_sql_def simp del: append_Cons append.simps
        intro!: same_code_append same_code_refl j closed_sql_append closed_sql_free)
  then show ?thesis by (simp add: same_code_def)
qed

theorem trace_sql_value_independent_witness:
  "\<exists>a b. trace_sql (\<lambda>_. ''t'') (sample_trace ''x'') = Inr a \<and> trace_sql (\<lambda>_. ''t'') (sample_trace (''x'' @ [SQ] @ '' OR TRUE --'')) = Inr b \<and>
     sql_code False a = sql_code False b"
proof -
  obtain a b where ab: "trace_sql (\<lambda>_. ''t'') (sample_trace ''x'') = Inr a" "trace_sql (\<lambda>_. ''t'') (sample_trace (''x'' @ [SQ] @ '' OR TRUE --'')) = Inr b"
    using sample_trace_ok by blast
  have "sql_code False a = sql_code False b"
    using trace_sql_value_independent [OF ab] by (simp add: sample_defs matcher_shape_def matches_anything_def)
  with ab show ?thesis by blast
qed

text \<open>
  C14. The same for metric queries, where the metric's name is a value too: for two plans
  with the same signal, aggregation, grouping labels, step, order and limit, whose matchers
  name the same labels with the same operators and agree on which regular expressions are
  exactly \<open>.*\<close>, the two statements are equal outside their literals, all of which are
  closed, whatever else the metric's name, the matcher values and the times are.
\<close>

theorem metric_sql_value_independent:
  assumes a: "metric_sql fmt p = Inr a" and b: "metric_sql fmt' p' = Inr b"
    and ms: "map matcher_shape (matchers (metric_selector p)) = map matcher_shape (matchers (metric_selector p'))"
    and same: "metric_limit p = metric_limit p'" "metric_order p = metric_order p'"
      "metric_group_by p = metric_group_by p'" "metric_signal p = metric_signal p'"
      "metric_aggregation p = metric_aggregation p'" "step_seconds p = step_seconds p'"
  shows "closed_sql a \<and> closed_sql b \<and> sql_code False a = sql_code False b"
proof -
  let ?w0 = "\<lambda>fmt p n. [time_predicate fmt ''time_unix_nano'' (bounds_from (metric_bounds p)) (bounds_to (metric_bounds p)),
           ''name = '' @ quote n]"
  let ?sel = "group_selects (metric_group_by p')"
  from a obtain agg n w where w: "push_matchers (?w0 fmt p n) (matchers (metric_selector p)) Metrics ''unsupported_promql'' = Inr w"
    and agg: "agg_sql (metric_aggregation p) (metric_signal p) = Inr agg"
    and A: "a = metric_select_sql agg (clamp_step (step_seconds p)) (group_selects (metric_group_by p))
           (metric_table (metric_signal p)) w (direction_sql (metric_order p)) (metric_limit p + 1)"
    by (auto simp: metric_sql_def result_simps)
  from b obtain agg' n' w' where w': "push_matchers (?w0 fmt' p' n') (matchers (metric_selector p')) Metrics ''unsupported_promql'' = Inr w'"
    and agg': "agg_sql (metric_aggregation p') (metric_signal p') = Inr agg'"
    and B: "b = metric_select_sql agg' (clamp_step (step_seconds p')) (group_selects (metric_group_by p'))
           (metric_table (metric_signal p')) w' (direction_sql (metric_order p')) (metric_limit p' + 1)"
    by (auto simp: metric_sql_def result_simps)
  have "same_code (''name = '' @ quote n) (''name = '' @ quote n')"
    by (intro same_code_append same_code_refl same_code_quote closed_sql_free) simp
  then have "list_all2 same_code w w'"
    by (intro push_matchers_same_code [OF w w' ms]) (simp add: same_code_time_predicate)
  then have j: "same_code (join '' AND '' w) (join '' AND '' w')"
    by (rule same_code_join) (simp add: closed_sql_free)
  have agg_free: "closed_sql agg'"
    using agg' by (auto simp: agg_sql_def VALUE_EXPR_def split: MetricAggregation.splits if_splits intro!: closed_sql_free)
  have sel: "closed_sql (concat (map (\<lambda>(label, expr). '', '' @ expr @ '' AS '' @ label) ?sel))"
    "closed_sql (concat (map (\<lambda>(_, expr). '', '' @ expr) ?sel))"
    using group_selects_closed [of _ _ "metric_group_by p'"]
    by (auto simp: list_all_iff closed_Cons closed_sql_free simp del: append_Cons
        intro!: closed_concat closed_sql_append)
  have "agg = agg'" using agg agg' same by simp
  then have "same_code a b"
    unfolding A B same metric_select_sql_def metric_table_def
    by (simp only:)
      (rule j sel agg_free | rule same_code_append | rule same_code_refl | rule closed_sql_append
        | (rule closed_sql_free, simp))+
  then show ?thesis by (simp add: same_code_def)
qed

theorem metric_sql_value_independent_witness:
  "\<exists>a b. metric_sql (\<lambda>_. ''t'') (sample_metric ''x'' ''up'') = Inr a \<and> metric_sql (\<lambda>_. ''t'') (sample_metric (''x'' @ [SQ] @ '' OR TRUE --'') ''down'') = Inr b \<and>
     sql_code False a = sql_code False b"
proof -
  obtain a b where ab: "metric_sql (\<lambda>_. ''t'') (sample_metric ''x'' ''up'') = Inr a" "metric_sql (\<lambda>_. ''t'') (sample_metric (''x'' @ [SQ] @ '' OR TRUE --'') ''down'') = Inr b"
    using sample_metric_ok by blast
  have "sql_code False a = sql_code False b"
    using metric_sql_value_independent [OF ab] by (simp add: sample_defs matcher_shape_def matches_anything_def)
  with ab show ?thesis by blast
qed

text \<open>
  A page never has more rows than the limit, its rows are the first ones of the
  result, and it says it was truncated exactly when rows were left out.
\<close>

theorem wrap_rows_page:
  "length (page_rows (wrap_rows rows limit ms)) \<le> limit \<and>
   (\<exists>rest. rows = page_rows (wrap_rows rows limit ms) @ rest \<and>
           (truncated (wrap_rows rows limit ms) = (rest \<noteq> []))) \<and>
   applied_limit (wrap_rows rows limit ms) = limit"
  by (auto simp: wrap_rows_def intro!: exI [of _ "drop limit rows"])

section \<open>Values the code reads in an unexpected way\<close>

text \<open>The regular expression that is left out, and the one that is \<open>FALSE\<close>.\<close>

lemma match_anything_clauses:
  assumes "label_expr s l = Some expr"
  shows "push_matcher w \<lparr>field = l, mvalue = ''.*'', match_op = Regex\<rparr> s why = Inr w"
    and "push_matcher w \<lparr>field = l, mvalue = ''.*'', match_op = NotRegex\<rparr> s why = Inr (w @ [''FALSE''])"
  using assms by (simp_all add: push_matcher_def Let_def)

text \<open>
  A disjunction is recognised in any case but split in upper case only: a lower-case
  \<^verbatim>\<open>or\<close> is searched for as text.
\<close>

lemma lower_case_or_is_text: "text_or ''a or b'' \<and> text_parts ''a or b'' = [''a or b'']"
  by code_simp

text \<open>The table prefix is put in by replacement over the whole statement, values included.\<close>

lemma prefix_in_value_is_replaced:
  "str_replace ''{prefix}'' ''lake.'' (quote ''{prefix}'') = quote ''lake.''"
  by code_simp

end
