(* ===== verification/BTree.thy ===== *)
theory BTree
  imports Prelude "HOL-Library.Char_ord" "HOL-Library.List_Lexorder" "HOL-Library.Product_Lexorder"
begin

text \<open>
  Rust's \<open>BTreeMap\<close> (standard library) as the list of its entries in key order, which is
  what iterating over it gives. Keys compare as Rust's derived \<open>Ord\<close> does: strings by
  bytes, tuples and vectors lexicographically, which are the library's orders imported
  here. Used by the metrics registry and the discovery cache.
\<close>

type_synonym ('k, 'v) btree = "('k \<times> 'v) list"

fun bt_insert :: "'k::linorder \<Rightarrow> 'v \<Rightarrow> ('k, 'v) btree \<Rightarrow> ('k, 'v) btree" where
  "bt_insert k v [] = [(k, v)]"
| "bt_insert k v ((k', v') # m) =
     (if k < k' then (k, v) # (k', v') # m
      else if k = k' then (k, v) # m
      else (k', v') # bt_insert k v m)"

definition bt_get :: "('k, 'v) btree \<Rightarrow> 'k \<Rightarrow> 'v option" where
  "bt_get m k = map_of m k"

definition bt_remove :: "'k \<Rightarrow> ('k, 'v) btree \<Rightarrow> ('k, 'v) btree" where
  "bt_remove k m = filter (\<lambda>e. fst e \<noteq> k) m"

text \<open>\<open>m.extend(n)\<close>: the entries of \<open>n\<close> are inserted in turn.\<close>

definition bt_extend :: "('k::linorder, 'v) btree \<Rightarrow> ('k, 'v) btree \<Rightarrow> ('k, 'v) btree" where
  "bt_extend m n = foldl (\<lambda>acc e. bt_insert (fst e) (snd e) acc) m n"

definition bt_wf :: "('k::linorder, 'v) btree \<Rightarrow> bool" where
  "bt_wf m = sorted_wrt (<) (map fst m)"

lemma bt_wf_Nil [simp]: "bt_wf []"
  by (simp add: bt_wf_def)

lemma bt_wf_Cons: "bt_wf (e # m) \<longleftrightarrow> (\<forall>k \<in> fst ` set m. fst e < k) \<and> bt_wf m"
  by (auto simp: bt_wf_def)

lemma bt_get_Nil [simp]: "bt_get [] = Map.empty"
  by (simp add: bt_get_def fun_eq_iff)

lemma bt_get_Cons: "bt_get (e # m) = (bt_get m)(fst e \<mapsto> snd e)"
  by (cases e) (simp add: bt_get_def fun_eq_iff)

lemma bt_get_insert [simp]: "bt_get (bt_insert k v m) = (bt_get m)(k \<mapsto> v)"
  by (induction k v m rule: bt_insert.induct) (auto simp: bt_get_def fun_eq_iff)

lemma set_bt_insert: "fst ` set (bt_insert k v m) = insert k (fst ` set m)"
  by (induction k v m rule: bt_insert.induct) auto

lemma bt_wf_insert [simp]: "bt_wf m \<Longrightarrow> bt_wf (bt_insert k v m)"
proof (induction k v m rule: bt_insert.induct)
  case (2 k v k' v' m)
  then show ?case by (force simp: bt_wf_Cons set_bt_insert)
qed (simp add: bt_wf_def)

lemma bt_wf_distinct: "bt_wf m \<Longrightarrow> distinct (map fst m)"
  by (induction m) (auto simp: bt_wf_Cons simp flip: image_set)

lemma bt_get_remove [simp]: "bt_get (bt_remove k m) = (bt_get m)(k := None)"
  by (induction m) (auto simp: bt_get_def bt_remove_def fun_eq_iff)

lemma bt_wf_remove [simp]: "bt_wf m \<Longrightarrow> bt_wf (bt_remove k m)"
  by (induction m) (auto simp: bt_remove_def bt_wf_Cons)

lemma length_bt_insert:
  "length (bt_insert k v m) = (if k \<in> fst ` set m then length m else Suc (length m))"
  if "bt_wf m"
  using that by (induction k v m rule: bt_insert.induct) (force simp: bt_wf_Cons)+

lemma bt_get_dom: "dom (bt_get m) = fst ` set m"
proof (induction m)
  case (Cons e m)
  then show ?case by (simp only: bt_get_Cons dom_fun_upd) simp
qed simp

lemma bt_get_extend [simp]:
  "bt_wf n \<Longrightarrow> bt_get (bt_extend m n) = bt_get m ++ bt_get n"
proof (induction n arbitrary: m)
  case (Cons e n)
  have "fst e \<notin> dom (bt_get n)"
    using Cons.prems by (auto simp: bt_get_dom bt_wf_Cons)
  moreover have "bt_extend m (e # n) = bt_extend (bt_insert (fst e) (snd e) m) n"
    by (simp add: bt_extend_def)
  moreover have "bt_wf n"
    using Cons.prems by (simp add: bt_wf_Cons)
  ultimately show ?case
    by (simp only: Cons.IH bt_get_Cons bt_get_insert map_add_upd_left map_add_upd simp_thms)
qed (simp add: bt_extend_def)

lemma bt_wf_extend [simp]: "bt_wf m \<Longrightarrow> bt_wf (bt_extend m n)"
  unfolding bt_extend_def by (induction n arbitrary: m) auto

text \<open>Two well-formed maps with the same lookups are the same list of entries.\<close>

lemma bt_wf_head_le: "bt_wf (e # m) \<Longrightarrow> k \<in> dom (bt_get (e # m)) \<Longrightarrow> fst e \<le> k"
  by (auto simp: bt_wf_Cons bt_get_dom intro: order_less_imp_le)

lemma bt_wf_head_fresh: "bt_wf (e # m) \<Longrightarrow> bt_get m (fst e) = None"
proof -
  assume "bt_wf (e # m)"
  then have "fst e \<notin> dom (bt_get m)" by (auto simp: bt_wf_Cons bt_get_dom)
  then show ?thesis by blast
qed

lemma bt_get_tail: "bt_wf (e # m) \<Longrightarrow> bt_get m = (bt_get (e # m))(fst e := None)"
  by (auto simp: bt_get_Cons fun_eq_iff bt_wf_head_fresh)

lemma bt_ext:
  assumes "bt_wf m" "bt_wf n" "bt_get m = bt_get n"
  shows "m = n"
  using assms
proof (induction m arbitrary: n)
  case Nil
  then have "dom (bt_get n) = {}" by simp
  then show ?case by (simp add: bt_get_dom)
next
  case (Cons e m)
  have dom_eq: "dom (bt_get (e # m)) = dom (bt_get n)"
    using Cons.prems(3) by simp
  then obtain e' n' where n: "n = e' # n'"
    by (cases n) (auto simp: bt_get_dom)
  have "fst e' \<in> dom (bt_get (e # m))" "fst e \<in> dom (bt_get (e' # n'))"
    using dom_eq n by (simp_all only: bt_get_dom) auto
  then have "fst e \<le> fst e'" "fst e' \<le> fst e"
    using Cons.prems(1,2) n bt_wf_head_le by blast+
  then have key: "fst e = fst e'" by simp
  have "bt_get (e # m) (fst e) = bt_get (e' # n') (fst e)"
    using Cons.prems(3) n by simp
  then have "e = e'"
    using key by (simp add: bt_get_Cons prod_eq_iff)
  moreover have "m = n'"
  proof (rule Cons.IH)
    show "bt_wf m" "bt_wf n'"
      using Cons.prems(1,2) n by (simp_all add: bt_wf_Cons)
    show "bt_get m = bt_get n'"
      using Cons.prems n key by (metis bt_get_tail)
  qed
  ultimately show ?case using n by simp
qed

end
