(* ===== verification/Discovery_Cache.thy ===== *)
theory Discovery_Cache
  imports BTree "HOL-Library.Word"
begin

text \<open>
  The cache of discovery answers (\<^verbatim>\<open>DiscoveryCache\<close> of \<^verbatim>\<open>src/src/metadata.rs\<close>): at
  most 128 answers, each tagged with the generation it was built at and with its turn of
  insertion, the oldest of which makes room for a new key. \<open>json_len\<close> is the length of an
  answer's JSON text, which the JSON library prints.
\<close>

section \<open>Keys\<close>

datatype DiscoveryApi = PrometheusApi | LokiApi | TempoApi

datatype Discovery = LabelValue | SeriesKind | MetricMetadata | TagValue

datatype Scope = Static | Window string string

datatype CacheKey = CacheKey (key_api: DiscoveryApi) (key_kind: Discovery) (key_name: string) (key_scope: Scope)

definition static_key :: "DiscoveryApi \<Rightarrow> Discovery \<Rightarrow> string \<Rightarrow> CacheKey" where
  "static_key api kind nm = CacheKey api kind nm Static"

definition window_key :: "(int \<Rightarrow> string) \<Rightarrow> DiscoveryApi \<Rightarrow> Discovery \<Rightarrow> string \<Rightarrow> int \<Rightarrow> int \<Rightarrow> CacheKey" where
  "window_key cache_time api kind nm from to = CacheKey api kind nm (Window (cache_time from) (cache_time to))"

text \<open>The derived order: constructors in the order of their declaration, then their fields.\<close>

fun api_rank :: "DiscoveryApi \<Rightarrow> nat" where
  "api_rank PrometheusApi = 0"
| "api_rank LokiApi = 1"
| "api_rank TempoApi = 2"

fun kind_rank :: "Discovery \<Rightarrow> nat" where
  "kind_rank LabelValue = 0"
| "kind_rank SeriesKind = 1"
| "kind_rank MetricMetadata = 2"
| "kind_rank TagValue = 3"

fun scope_rank :: "Scope \<Rightarrow> nat \<times> string \<times> string" where
  "scope_rank Static = (0, [], [])"
| "scope_rank (Window s e) = (1, s, e)"

definition key_rank :: "CacheKey \<Rightarrow> nat \<times> nat \<times> string \<times> nat \<times> string \<times> string" where
  "key_rank k = (api_rank (key_api k), kind_rank (key_kind k), key_name k, scope_rank (key_scope k))"

lemma api_rank_inj [simp]: "api_rank a = api_rank b \<longleftrightarrow> a = b"
  by (cases a; cases b) simp_all

lemma kind_rank_inj [simp]: "kind_rank a = kind_rank b \<longleftrightarrow> a = b"
  by (cases a; cases b) simp_all

lemma scope_rank_inj [simp]: "scope_rank a = scope_rank b \<longleftrightarrow> a = b"
  by (cases a; cases b) simp_all

lemma key_rank_inj: "key_rank a = key_rank b \<longleftrightarrow> a = b"
  by (cases a; cases b) (simp add: key_rank_def)

text \<open>The derived order: by the fields in their order, variants by their position.\<close>

definition CacheKey_le :: "CacheKey \<Rightarrow> CacheKey \<Rightarrow> bool" where
  "CacheKey_le a b = (key_rank a \<le> key_rank b)"

definition CacheKey_lt :: "CacheKey \<Rightarrow> CacheKey \<Rightarrow> bool" where
  "CacheKey_lt a b = (key_rank a < key_rank b)"

instantiation CacheKey :: linorder
begin

definition less_eq_CacheKey :: "CacheKey \<Rightarrow> CacheKey \<Rightarrow> bool" where
  "less_eq_CacheKey a b = CacheKey_le a b"

definition less_CacheKey :: "CacheKey \<Rightarrow> CacheKey \<Rightarrow> bool" where
  "less_CacheKey a b = CacheKey_lt a b"

instance
proof
  fix a b c :: CacheKey
  show "a < b \<longleftrightarrow> a \<le> b \<and> \<not> b \<le> a"
    unfolding less_eq_CacheKey_def less_CacheKey_def CacheKey_le_def CacheKey_lt_def by (rule less_le_not_le)
  show "a \<le> a"
    unfolding less_eq_CacheKey_def CacheKey_le_def by (rule order_refl)
  show "a \<le> b \<Longrightarrow> b \<le> c \<Longrightarrow> a \<le> c"
    unfolding less_eq_CacheKey_def CacheKey_le_def by (rule order_trans)
  show "a \<le> b \<Longrightarrow> b \<le> a \<Longrightarrow> a = b"
    unfolding less_eq_CacheKey_def CacheKey_le_def by (drule (1) antisym) (simp only: key_rank_inj)
  show "a \<le> b \<or> b \<le> a"
    unfolding less_eq_CacheKey_def CacheKey_le_def by (rule linear)
qed

end

section \<open>The cache\<close>

definition MAX_CACHE_ENTRIES :: nat where
  "MAX_CACHE_ENTRIES = 128"

definition MAX_CACHE_VALUE_BYTES :: nat where
  "MAX_CACHE_VALUE_BYTES = 128 * 1024"

record 'v CacheEntry =
  generation :: "64 word"
  seq :: "64 word"
  entry_value :: 'v

record 'v DiscoveryCache =
  entries :: "(CacheKey, 'v CacheEntry) btree"
  next_seq :: "64 word"

definition cache_new :: "'v DiscoveryCache" where
  "cache_new = \<lparr>entries = [], next_seq = 0\<rparr>"

definition cache_get :: "'v DiscoveryCache \<Rightarrow> CacheKey \<Rightarrow> 64 word \<Rightarrow> 'v option" where
  "cache_get c key gen =
     Option.bind (bt_get (entries c) key) (\<lambda>entry. if generation entry = gen then Some (entry_value entry) else None)"

text \<open>\<open>min_by_key\<close>: the first entry with the least turn.\<close>

definition oldest :: "(CacheKey, 'v CacheEntry) btree \<Rightarrow> CacheKey option" where
  "oldest es =
     (case es of [] \<Rightarrow> None
      | e # rest \<Rightarrow> Some (fst (foldl (\<lambda>best x. if seq (snd x) < seq (snd best) then x else best) e rest)))"

definition make_room :: "CacheKey \<Rightarrow> (CacheKey, 'v CacheEntry) btree \<Rightarrow> (CacheKey, 'v CacheEntry) btree" where
  "make_room key es =
     (if MAX_CACHE_ENTRIES \<le> length es \<and> bt_get es key = None then
        (case oldest es of Some old \<Rightarrow> bt_remove old es | None \<Rightarrow> es)
      else es)"

definition cache_insert ::
  "('v \<Rightarrow> nat) \<Rightarrow> CacheKey \<Rightarrow> 64 word \<Rightarrow> 'v \<Rightarrow> 'v DiscoveryCache \<Rightarrow> 'v DiscoveryCache" where
  "cache_insert json_len key gen v c =
     (if MAX_CACHE_VALUE_BYTES < json_len v then c
      else \<lparr>entries = bt_insert key \<lparr>generation = gen, seq = next_seq c, entry_value = v\<rparr> (make_room key (entries c)),
            next_seq = next_seq c + 1\<rparr>)"

definition cached ::
  "('v \<Rightarrow> nat) \<Rightarrow> 64 word \<Rightarrow> CacheKey \<Rightarrow> 'e + 'v \<Rightarrow> 'v DiscoveryCache \<Rightarrow> ('e + 'v) \<times> 'v DiscoveryCache" where
  "cached json_len gen key build c =
     (case cache_get c key gen of
        Some v \<Rightarrow> (Inr v, c)
      | None \<Rightarrow>
          (case build of
             Inl e \<Rightarrow> (Inl e, c)
           | Inr v \<Rightarrow> (Inr v, cache_insert json_len key gen v c)))"

section \<open>Finite maps by their entries\<close>

lemma bt_get_Some_iff: "bt_wf m \<Longrightarrow> bt_get m k = Some v \<longleftrightarrow> (k, v) \<in> set m"
  by (simp add: bt_get_def bt_wf_distinct)

lemma bt_get_None_iff: "bt_get m k = None \<longleftrightarrow> k \<notin> fst ` set m"
  by (simp add: bt_get_def map_of_eq_None_iff)

lemma set_bt_insert_entries:
  "bt_wf m \<Longrightarrow> set (bt_insert k v m) = insert (k, v) {e \<in> set m. fst e \<noteq> k}"
proof (induction k v m rule: bt_insert.induct)
  case (2 k v k' v' m)
  then show ?case by (auto simp: bt_wf_Cons split: if_splits dest: less_imp_neq)
qed simp

section \<open>What the cache promises\<close>

text \<open>
  The abstract cache is the list of the distinct keys answered last, the latest first, cut
  at 128: storing an answer moves its key to the front.
\<close>

definition remember ::
  "('v \<Rightarrow> nat) \<Rightarrow> CacheKey \<Rightarrow> 64 word \<Rightarrow> 'v \<Rightarrow> (CacheKey \<times> 64 word \<times> 'v) list \<Rightarrow> (CacheKey \<times> 64 word \<times> 'v) list" where
  "remember json_len key gen v xs =
     (if MAX_CACHE_VALUE_BYTES < json_len v then xs
      else take MAX_CACHE_ENTRIES ((key, gen, v) # filter (\<lambda>x. fst x \<noteq> key) xs))"

definition recall :: "(CacheKey \<times> 64 word \<times> 'v) list \<Rightarrow> CacheKey \<Rightarrow> 64 word \<Rightarrow> 'v option" where
  "recall xs key gen =
     (case map_of xs key of Some (g, v) \<Rightarrow> if g = gen then Some v else None | None \<Rightarrow> None)"

definition visible :: "CacheKey \<times> 'v CacheEntry \<Rightarrow> CacheKey \<times> 64 word \<times> 'v" where
  "visible z = (fst z, generation (snd z), entry_value (snd z))"

definition cache_rep :: "'v DiscoveryCache \<Rightarrow> (CacheKey \<times> 'v CacheEntry) list \<Rightarrow> bool" where
  "cache_rep c zs =
     (bt_wf (entries c) \<and> set (entries c) = set zs \<and> distinct (map fst zs) \<and>
      sorted_wrt (\<lambda>a b. seq (snd b) < seq (snd a)) zs \<and>
      (\<forall>z \<in> set zs. seq (snd z) < next_seq c) \<and> length zs \<le> MAX_CACHE_ENTRIES)"

lemma cache_rep_new: "cache_rep cache_new []"
  by (simp add: cache_rep_def cache_new_def)

lemma cache_rep_length:
  assumes "cache_rep c zs"
  shows "length (entries c) = length zs"
proof -
  have "distinct (entries c)" "distinct zs"
    using assms bt_wf_distinct by (auto simp: cache_rep_def distinct_map)
  then show ?thesis
    using assms distinct_card by (metis cache_rep_def)
qed

lemma cache_rep_get:
  assumes "cache_rep c zs"
  shows "cache_get c key gen = recall (map visible zs) key gen"
proof -
  have "bt_get (entries c) key = map_of zs key"
    using assms map_of_inject_set [OF bt_wf_distinct, of "entries c" zs]
    by (simp add: cache_rep_def bt_get_def)
  moreover have "map_of (map visible zs) key = map_option (\<lambda>e. (generation e, entry_value e)) (map_of zs key)"
    by (induction zs) (auto simp: visible_def)
  ultimately show ?thesis
    by (cases "map_of zs key") (simp_all add: cache_get_def recall_def)
qed

lemma oldest_fold:
  "let m = foldl (\<lambda>best x. if seq (snd x) < seq (snd best) then x else best) e rest
   in m \<in> set (e # rest) \<and> (\<forall>x \<in> set (e # rest). seq (snd m) \<le> seq (snd x))"
proof (induction rest arbitrary: e)
  case (Cons x rest)
  show ?case
    using Cons.IH [of x] Cons.IH [of e] by (auto simp: Let_def not_less)
qed simp

lemma last_is_least:
  "sorted_wrt (\<lambda>a b. seq (snd b) < seq (snd a)) zs \<Longrightarrow> z \<in> set zs \<Longrightarrow> z \<noteq> last zs \<Longrightarrow>
   seq (snd (last zs)) < seq (snd z)"
  by (induction zs) (auto split: if_splits)

lemma cache_rep_oldest:
  assumes "cache_rep c zs" "zs \<noteq> []"
  shows "oldest (entries c) = Some (fst (last zs))"
proof -
  obtain e rest where es: "entries c = e # rest"
    using assms by (cases "entries c") (auto simp: cache_rep_def)
  let ?m = "foldl (\<lambda>best x. if seq (snd x) < seq (snd best) then x else best) e rest"
  have "set (e # rest) = set zs"
    using assms(1) es by (simp add: cache_rep_def)
  then have m: "?m \<in> set zs" "\<forall>x \<in> set zs. seq (snd ?m) \<le> seq (snd x)"
    using oldest_fold [of e rest] unfolding Let_def by simp_all
  then have "?m = last zs"
    using last_is_least [of zs ?m] assms last_in_set [OF assms(2)] by (fastforce simp: cache_rep_def)
  then show ?thesis by (simp add: oldest_def es)
qed

definition trimmed :: "CacheKey \<Rightarrow> (CacheKey \<times> 'v) list \<Rightarrow> (CacheKey \<times> 'v) list" where
  "trimmed key zs =
     (if MAX_CACHE_ENTRIES \<le> length zs \<and> key \<notin> fst ` set zs then butlast zs else zs)"

lemma cache_rep_room:
  assumes "cache_rep c zs"
  shows "bt_wf (make_room key (entries c)) \<and> set (make_room key (entries c)) = set (trimmed key zs)"
proof (cases "MAX_CACHE_ENTRIES \<le> length zs \<and> key \<notin> fst ` set zs")
  case True
  then have ne: "zs \<noteq> []" by (auto simp: MAX_CACHE_ENTRIES_def)
  then obtain ys y where zs: "zs = ys @ [y]" by (metis append_butlast_last_id)
  have "make_room key (entries c) = bt_remove (fst y) (entries c)"
    using True assms cache_rep_length [OF assms] cache_rep_oldest [OF assms ne] zs
    by (auto simp: make_room_def bt_get_None_iff cache_rep_def)
  moreover have "set (bt_remove (fst y) (entries c)) = set ys"
  proof -
    have "set (bt_remove (fst y) (entries c)) = {e \<in> set (ys @ [y]). fst e \<noteq> fst y}"
      using assms zs by (simp add: bt_remove_def cache_rep_def)
    moreover have "\<forall>e \<in> set ys. fst e \<noteq> fst y"
      using assms zs by (simp add: cache_rep_def) (metis image_eqI)
    ultimately show ?thesis by auto
  qed
  ultimately show ?thesis
    using True assms zs by (simp add: trimmed_def cache_rep_def)
next
  case False
  then show ?thesis
    using assms cache_rep_length [OF assms]
    by (auto simp: trimmed_def make_room_def bt_get_None_iff cache_rep_def)
qed

lemma set_trimmed: "set (trimmed key zs) \<subseteq> set zs"
  by (auto simp: trimmed_def dest: in_set_butlastD)

lemma sorted_wrt_butlast: "sorted_wrt P xs \<Longrightarrow> sorted_wrt P (butlast xs)"
  by (simp add: butlast_conv_take sorted_wrt_take)

lemma filter_trimmed_visible:
  assumes "length zs \<le> MAX_CACHE_ENTRIES"
  shows "map visible (filter (\<lambda>z. fst z \<noteq> key) (trimmed key zs)) =
         take (MAX_CACHE_ENTRIES - 1) (filter (\<lambda>x. fst x \<noteq> key) (map visible zs))"
proof -
  have vis: "filter (\<lambda>x. fst x \<noteq> key) (map visible ys) = map visible (filter (\<lambda>z. fst z \<noteq> key) ys)" for ys
    by (simp add: filter_map o_def visible_def)
  have absent: "filter (\<lambda>z. fst z \<noteq> key) ys = ys" if "key \<notin> fst ` set ys" for ys
    using that by (simp add: filter_id_conv) (metis image_eqI)
  show ?thesis
  proof (cases "key \<in> fst ` set zs")
    case True
    then have "length (filter (\<lambda>z. fst z \<noteq> key) zs) < length zs"
      by (auto intro: length_filter_less)
    then show ?thesis
      using assms True unfolding vis take_map by (simp add: trimmed_def)
  next
    case False
    then have "key \<notin> fst ` set (butlast zs)" by (auto dest: in_set_butlastD)
    then have kept: "filter (\<lambda>z. fst z \<noteq> key) zs = zs"
      "filter (\<lambda>z. fst z \<noteq> key) (butlast zs) = butlast zs"
      using False absent by blast+
    show ?thesis
    proof (cases "length zs = MAX_CACHE_ENTRIES")
      case full: True
      then have "butlast zs = take (MAX_CACHE_ENTRIES - 1) zs"
        by (simp add: butlast_conv_take)
      then show ?thesis
        using False full kept unfolding vis by (simp add: trimmed_def take_map del: filter_id_conv)
    next
      case False
      then show ?thesis using assms unfolding vis by (simp add: kept trimmed_def)
    qed
  qed
qed

lemma word_below_next:
  assumes "(n :: 64 word) \<noteq> - 1" "x \<le> n"
  shows "x < n + 1"
proof -
  have "1 + n \<noteq> 0" using assms(1) by (metis add.commute eq_neg_iff_add_eq_0)
  then have "unat (n + 1) = Suc (unat n)" by (metis add.commute unatSuc)
  then show ?thesis using assms(2) by (simp add: word_less_nat_alt word_le_nat_alt)
qed

lemma cache_rep_insert:
  assumes rep: "cache_rep c zs" and seq_ok: "next_seq c \<noteq> - 1"
  shows "\<exists>zs'. cache_rep (cache_insert json_len key gen v c) zs' \<and>
    map visible zs' = remember json_len key gen v (map visible zs)"
proof (cases "MAX_CACHE_VALUE_BYTES < json_len v")
  case True
  then show ?thesis using rep by (auto simp: cache_insert_def remember_def)
next
  case False
  let ?e = "\<lparr>generation = gen, seq = next_seq c, entry_value = v\<rparr>"
  let ?old = "filter (\<lambda>z. fst z \<noteq> key) (trimmed key zs)"
  have room: "bt_wf (make_room key (entries c))" "set (make_room key (entries c)) = set (trimmed key zs)"
    using cache_rep_room [OF rep] by auto
  have len: "length zs \<le> MAX_CACHE_ENTRIES" and all_below: "\<forall>z \<in> set zs. seq (snd z) < next_seq c"
    using rep by (simp_all add: cache_rep_def)
  have below: "\<forall>z \<in> set ?old. seq (snd z) < next_seq c"
    using all_below set_trimmed [of key zs] by (meson filter_is_subset subsetD)
  have visible: "map visible ((key, ?e) # ?old) = remember json_len key gen v (map visible zs)"
    using False filter_trimmed_visible [OF len, of key]
    by (simp add: remember_def visible_def take_Cons' MAX_CACHE_ENTRIES_def)
  have "length (map visible ((key, ?e) # ?old)) \<le> MAX_CACHE_ENTRIES"
    unfolding visible using False by (simp add: remember_def)
  moreover have "distinct (map fst zs)" "sorted_wrt (\<lambda>a b. seq (snd b) < seq (snd a)) zs"
    using rep by (auto simp: cache_rep_def)
  then have "distinct (map fst ?old)" "sorted_wrt (\<lambda>a b. seq (snd b) < seq (snd a)) ?old"
    by (auto simp: trimmed_def map_butlast distinct_butlast sorted_wrt_butlast distinct_map_filter sorted_wrt_filter)
  moreover have "\<forall>z \<in> set ((key, ?e) # ?old). seq (snd z) < next_seq c + 1"
    using below word_below_next [OF seq_ok] by (auto intro: order_less_imp_le)
  ultimately have "cache_rep (cache_insert json_len key gen v c) ((key, ?e) # ?old)"
    using False room below
    by (auto simp: cache_rep_def cache_insert_def set_bt_insert_entries)
  then show ?thesis using visible by blast
qed

section \<open>Every interleaving of lookups and insertions\<close>

text \<open>
  A cached request locks the cache to look its key up and again to store what it built, so
  requests on several threads interleave as a sequence of lookups and insertions.
\<close>

datatype 'v cache_op = Lookup CacheKey "64 word" | Store CacheKey "64 word" 'v

fun cache_step :: "('v \<Rightarrow> nat) \<Rightarrow> 'v cache_op \<Rightarrow> 'v DiscoveryCache \<Rightarrow> 'v option \<times> 'v DiscoveryCache" where
  "cache_step json_len (Lookup key gen) c = (cache_get c key gen, c)"
| "cache_step json_len (Store key gen v) c = (None, cache_insert json_len key gen v c)"

fun recent_step ::
  "('v \<Rightarrow> nat) \<Rightarrow> 'v cache_op \<Rightarrow> (CacheKey \<times> 64 word \<times> 'v) list \<Rightarrow>
   'v option \<times> (CacheKey \<times> 64 word \<times> 'v) list" where
  "recent_step json_len (Lookup key gen) xs = (recall xs key gen, xs)"
| "recent_step json_len (Store key gen v) xs = (None, remember json_len key gen v xs)"

fun answers :: "('o \<Rightarrow> 's \<Rightarrow> 'a \<times> 's) \<Rightarrow> 'o list \<Rightarrow> 's \<Rightarrow> 'a list" where
  "answers step [] s = []"
| "answers step (p # ps) s = fst (step p s) # answers step ps (snd (step p s))"

lemma next_seq_insert: "unat (next_seq (cache_insert json_len key gen v c)) \<le> unat (next_seq c) + 1"
proof -
  have "unat (n + 1) \<le> unat n + 1" for n :: "64 word"
    by (cases "1 + n = 0") (simp_all add: add.commute unatSuc)
  then show ?thesis by (simp add: cache_insert_def)
qed

lemma unat_not_last: "unat (n :: 64 word) + Suc k < 2 ^ 64 \<Longrightarrow> n \<noteq> - 1"
  by (auto simp: unsigned_minus_1_eq_mask mask_eq_exp_minus_1)

lemma answers_recent:
  "cache_rep c zs \<Longrightarrow> unat (next_seq c) + length ps < 2 ^ 64 \<Longrightarrow>
   answers (cache_step json_len) ps c = answers (recent_step json_len) ps (map visible zs)"
proof (induction ps arbitrary: c zs)
  case (Cons p ps)
  note rep = Cons.prems(1)
  show ?case
  proof (cases p)
    case (Lookup key gen)
    then show ?thesis using Cons by (simp add: cache_rep_get)
  next
    case (Store key gen v)
    obtain zs' where zs': "cache_rep (cache_insert json_len key gen v c) zs'"
      "map visible zs' = remember json_len key gen v (map visible zs)"
      using cache_rep_insert [OF rep] unat_not_last Cons.prems(2) by (metis length_Cons)
    have "unat (next_seq (cache_insert json_len key gen v c)) + length ps < 2 ^ 64"
      using Cons.prems(2) next_seq_insert [of json_len key gen v c] by simp
    then show ?thesis
      using Cons.IH [OF zs'(1)] zs'(2) Store by simp
  qed
qed simp

text \<open>
  C25. The cache with its turn counter and evictions is the recency list: under every
  interleaving of lookups and insertions it answers as the list of the 128 keys stored
  last would, so an answer comes back exactly while its key is among them, only at its
  generation and with the value stored last, for as long as the counter has not wrapped.
\<close>

theorem discovery_cache_is_recency_list:
  assumes "length ps < 2 ^ 64"
  shows "answers (cache_step json_len) ps cache_new = answers (recent_step json_len) ps []"
proof -
  have "unat (next_seq (cache_new :: 'a DiscoveryCache)) + length ps < 2 ^ 64"
    using assms by (simp add: cache_new_def)
  from answers_recent [OF cache_rep_new this] show ?thesis by simp
qed

theorem discovery_cache_is_recency_list_witness:
  "answers (cache_step length)
     [Store (static_key PrometheusApi MetricMetadata []) 0 ''{}'',
      Lookup (static_key PrometheusApi MetricMetadata []) 0,
      Lookup (static_key PrometheusApi MetricMetadata []) 1] cache_new =
   [None, Some ''{}'', None]"
  by (subst discovery_cache_is_recency_list)
    (simp_all add: static_key_def remember_def recall_def MAX_CACHE_VALUE_BYTES_def MAX_CACHE_ENTRIES_def)

lemma cache_insert_bounded:
  assumes "bt_wf (entries c)" "length (entries c) \<le> MAX_CACHE_ENTRIES"
  shows "bt_wf (entries (cache_insert json_len key gen v c))"
    and "length (entries (cache_insert json_len key gen v c)) \<le> MAX_CACHE_ENTRIES"
proof -
  let ?room = "make_room key (entries c)"
  have wf: "bt_wf ?room" using assms(1) by (simp add: make_room_def split: option.split)
  have "length ?room < MAX_CACHE_ENTRIES \<or> key \<in> fst ` set ?room \<and> length ?room \<le> MAX_CACHE_ENTRIES"
  proof (cases "MAX_CACHE_ENTRIES \<le> length (entries c) \<and> bt_get (entries c) key = None")
    case True
    then obtain e rest where es: "entries c = e # rest"
      by (cases "entries c") (auto simp: MAX_CACHE_ENTRIES_def)
    let ?m = "foldl (\<lambda>best x. if seq (snd x) < seq (snd best) then x else best) e rest"
    have "?m \<in> set (entries c)"
      using oldest_fold [of e rest] unfolding es Let_def by blast
    then have "fst ?m \<in> fst ` set (entries c)" by (rule imageI)
    moreover have "oldest (entries c) = Some (fst ?m)" by (simp add: oldest_def es)
    ultimately obtain old where old: "oldest (entries c) = Some old" "old \<in> fst ` set (entries c)"
      by blast
    then have "length (bt_remove old (entries c)) < length (entries c)"
      unfolding bt_remove_def by (auto intro: length_filter_less)
    then show ?thesis using True assms(2) old(1) by (simp add: make_room_def)
  next
    case False
    then show ?thesis using assms(2) by (auto simp: make_room_def bt_get_None_iff)
  qed
  then show "length (entries (cache_insert json_len key gen v c)) \<le> MAX_CACHE_ENTRIES"
    using assms(2) length_bt_insert [OF wf] by (auto simp: cache_insert_def)
  show "bt_wf (entries (cache_insert json_len key gen v c))"
    using assms(1) wf by (simp add: cache_insert_def)
qed

end
