(* ===== verification/Response.thy ===== *)
theory Response
  imports Api_Error Text
begin

text \<open>
  HTTP responses (\<^verbatim>\<open>src/src/http/response.rs\<close>) and the JSON values they carry. A
  JSON value is the library's \<open>serde_json::Value\<close>; \<open>'f\<close> stands for its floating-point
  numbers, and turning a value into bytes (\<open>to_vec\<close>) is the library's work.
\<close>

section \<open>JSON values\<close>

datatype 'f json =
  JNull
| JBool bool
| JNat nat
| JNegative int
| JFloat 'f
| JString string
| JArray "'f json list"
| JObject "(string \<times> 'f json) list"

fun json_as_str :: "'f json \<Rightarrow> string option" where
  "json_as_str (JString s) = Some s"
| "json_as_str _ = None"

fun json_as_u64 :: "'f json \<Rightarrow> nat option" where
  "json_as_u64 (JNat n) = Some n"
| "json_as_u64 _ = None"

definition json_int :: "int \<Rightarrow> 'f json" where
  "json_int i = (if i < 0 then JNegative i else JNat (nat i))"

fun json_as_i64 :: "'f json \<Rightarrow> int option" where
  "json_as_i64 (JNat n) = (if n < 2 ^ 63 then Some (int n) else None)"
| "json_as_i64 (JNegative i) = Some i"
| "json_as_i64 _ = None"

fun json_get :: "string \<Rightarrow> 'f json \<Rightarrow> 'f json option" where
  "json_get k (JObject kvs) = map_of kvs k"
| "json_get k _ = None"

definition is_null :: "'f json \<Rightarrow> bool" where
  "is_null v = (v = JNull)"

definition error_body :: "ApiError \<Rightarrow> 'f json" where
  "error_body err =
     JObject [(''error'', JString (reason err)), (''message'', JString (message err))]"

section \<open>Responses\<close>

record HttpResponse =
  resp_status :: nat
  content_type :: string
  resp_body :: string
  resp_retry_after :: "nat option"

definition response_json :: "('f json \<Rightarrow> string) \<Rightarrow> nat \<Rightarrow> 'f json \<Rightarrow> HttpResponse" where
  "response_json to_vec st v =
     \<lparr>resp_status = st, content_type = ''application/json'', resp_body = to_vec v, resp_retry_after = None\<rparr>"

definition response_html :: "nat \<Rightarrow> string \<Rightarrow> HttpResponse" where
  "response_html st v =
     \<lparr>resp_status = st, content_type = ''text/html; charset=utf-8'', resp_body = v, resp_retry_after = None\<rparr>"

definition response_text :: "nat \<Rightarrow> string \<Rightarrow> string \<Rightarrow> HttpResponse" where
  "response_text st ctype v =
     \<lparr>resp_status = st, content_type = ctype, resp_body = v, resp_retry_after = None\<rparr>"

definition response_bytes :: "nat \<Rightarrow> string \<Rightarrow> string \<Rightarrow> HttpResponse" where
  "response_bytes st ctype b =
     \<lparr>resp_status = st, content_type = ctype, resp_body = b, resp_retry_after = None\<rparr>"

definition response_with_retry_after :: "HttpResponse \<Rightarrow> nat \<Rightarrow> HttpResponse" where
  "response_with_retry_after r seconds = r\<lparr>resp_retry_after := Some seconds\<rparr>"

definition from_api_error :: "('f json \<Rightarrow> string) \<Rightarrow> ApiError \<Rightarrow> HttpResponse" where
  "from_api_error to_vec err =
     (response_json to_vec (status err) (error_body err))\<lparr>resp_retry_after := retry_after_seconds err\<rparr>"

definition reason_phrase :: "nat \<Rightarrow> string" where
  "reason_phrase st =
     (if st = 200 then ''OK'' else if st = 202 then ''Accepted''
      else if st = 400 then ''Bad Request'' else if st = 401 then ''Unauthorized''
      else if st = 403 then ''Forbidden'' else if st = 404 then ''Not Found''
      else if st = 429 then ''Too Many Requests'' else if st = 503 then ''Service Unavailable''
      else ''OK'')"

text \<open>The bytes written for a response, in one buffer.\<close>

definition write_response_with_connection :: "HttpResponse \<Rightarrow> bool \<Rightarrow> string" where
  "write_response_with_connection r keep_alive =
     ''HTTP/1.1 '' @ show_nat (resp_status r) @ '' '' @ reason_phrase (resp_status r) @ [CR, LF] @
     ''content-type: '' @ content_type r @ [CR, LF] @
     ''content-length: '' @ show_nat (length (resp_body r)) @ [CR, LF] @
     ''connection: '' @ (if keep_alive then ''keep-alive'' else ''close'') @ [CR, LF] @
     (case resp_retry_after r of
        Some seconds \<Rightarrow> ''retry-after: '' @ show_nat seconds @ [CR, LF]
      | None \<Rightarrow> []) @
     [CR, LF] @ resp_body r"

definition write_response :: "HttpResponse \<Rightarrow> string" where
  "write_response r = write_response_with_connection r False"

section \<open>Reading a response back\<close>

text \<open>
  What a client does: lines end in CR LF, the head ends at the first empty line, and a
  header's value is found by its name.
\<close>

function (sequential) read_head :: "string \<Rightarrow> (string list \<times> string) option" where
  "read_head s =
     (case split_once [CR, LF] s of
        None \<Rightarrow> None
      | Some (line, rest) \<Rightarrow>
          if line = [] then Some ([], rest)
          else map_option (\<lambda>(ls, body). (line # ls, body)) (read_head rest))"
  by pat_completeness auto
termination
  by (relation "measure length") (auto dest!: split_once_SomeD)

declare read_head.simps [simp del]

definition header_value :: "string \<Rightarrow> string list \<Rightarrow> string option" where
  "header_value name ls = find_map (strip_prefix (name @ '': '')) ls"

lemma split_crlf: "CR \<notin> set line \<Longrightarrow> split_once [CR, LF] (line @ [CR, LF] @ rest) = Some (line, rest)"
  by (induction line) auto

lemma read_head_line:
  "CR \<notin> set line \<Longrightarrow> line \<noteq> [] \<Longrightarrow>
   read_head (line @ [CR, LF] @ rest) = map_option (\<lambda>(ls, body). (line # ls, body)) (read_head rest)"
  using split_crlf [of line rest] by (subst read_head.simps) simp

lemma read_head_end: "read_head ([CR, LF] @ body) = Some ([], body)"
  using split_crlf [of "[]" body] by (subst read_head.simps) simp

lemma CR_notin_show_nat [simp]: "CR \<notin> set (show_nat n)"
  using show_nat_digits [of CR n] by auto

lemma CR_notin_reason [simp]: "CR \<notin> set (reason_phrase st)"
  by (simp add: reason_phrase_def)

lemma read_written:
  assumes "CR \<notin> set (content_type r)"
  shows "read_head (write_response_with_connection r keep @ rest) = Some (
     [''HTTP/1.1 '' @ show_nat (resp_status r) @ '' '' @ reason_phrase (resp_status r),
      ''content-type: '' @ content_type r,
      ''content-length: '' @ show_nat (length (resp_body r)),
      ''connection: '' @ (if keep then ''keep-alive'' else ''close'')] @
     (case resp_retry_after r of Some n \<Rightarrow> [''retry-after: '' @ show_nat n] | None \<Rightarrow> []),
     resp_body r @ rest)"
proof -
  have tail: "read_head ((case resp_retry_after r of Some n \<Rightarrow> ''retry-after: '' @ show_nat n @ [CR, LF] | None \<Rightarrow> []) @
       [CR, LF] @ resp_body r @ rest) =
     Some ((case resp_retry_after r of Some n \<Rightarrow> [''retry-after: '' @ show_nat n] | None \<Rightarrow> []), resp_body r @ rest)"
    using read_head_line [of "''retry-after: '' @ show_nat n" "[CR, LF] @ resp_body r @ rest" for n] read_head_end [of "resp_body r @ rest"]
    by (simp split: option.splits)
  let ?tail = "(case resp_retry_after r of Some n \<Rightarrow> ''retry-after: '' @ show_nat n @ [CR, LF] | None \<Rightarrow> []) @
       [CR, LF] @ resp_body r @ rest"
  let ?l1 = "''HTTP/1.1 '' @ show_nat (resp_status r) @ '' '' @ reason_phrase (resp_status r)"
  let ?l2 = "''content-type: '' @ content_type r"
  let ?l3 = "''content-length: '' @ show_nat (length (resp_body r))"
  let ?l4 = "''connection: '' @ (if keep then ''keep-alive'' else ''close'')"
  have w: "write_response_with_connection r keep @ rest =
     ?l1 @ [CR, LF] @ ?l2 @ [CR, LF] @ ?l3 @ [CR, LF] @ ?l4 @ [CR, LF] @ ?tail"
    by (simp add: write_response_with_connection_def)
  have "CR \<notin> set ?l1 \<and> ?l1 \<noteq> []" "CR \<notin> set ?l2 \<and> ?l2 \<noteq> []" "CR \<notin> set ?l3 \<and> ?l3 \<noteq> []" "CR \<notin> set ?l4 \<and> ?l4 \<noteq> []"
    using assms by simp_all
  then have "read_head (?l1 @ [CR, LF] @ ?l2 @ [CR, LF] @ ?l3 @ [CR, LF] @ ?l4 @ [CR, LF] @ ?tail) =
     map_option (\<lambda>(ls, b). (?l1 # ls, b)) (map_option (\<lambda>(ls, b). (?l2 # ls, b))
       (map_option (\<lambda>(ls, b). (?l3 # ls, b)) (map_option (\<lambda>(ls, b). (?l4 # ls, b)) (read_head ?tail))))"
    by (simp only: read_head_line simp_thms)
  then show ?thesis unfolding w tail by simp
qed

text \<open>
  A client that reads one response off a stream: the status line, the headers by their
  names, and as many bytes as the content length says; what follows is left for the next.
\<close>

definition read_status :: "string \<Rightarrow> (nat \<times> string) option" where
  "read_status line =
     Option.bind (strip_prefix ''HTTP/1.1 '' line) (\<lambda>l.
     Option.bind (split_once '' '' l) (\<lambda>(code, phrase).
     map_option (\<lambda>n. (n, phrase)) (parse_unsigned (2 ^ 16 - 1) code)))"

definition read_keep_alive :: "string \<Rightarrow> bool option" where
  "read_keep_alive v = (if v = ''keep-alive'' then Some True else if v = ''close'' then Some False else None)"

definition read_retry :: "string option \<Rightarrow> nat option option" where
  "read_retry v = (case v of None \<Rightarrow> Some None | Some w \<Rightarrow> map_option Some (parse_unsigned (2 ^ 64 - 1) w))"

definition read_back :: "string \<Rightarrow> ((string \<times> HttpResponse \<times> bool) \<times> string) option" where
  "read_back s =
     (case read_head s of
        Some (line # hs, content) \<Rightarrow>
          Option.bind (read_status line) (\<lambda>(code, phrase).
          Option.bind (header_value ''content-type'' hs) (\<lambda>ctype.
          Option.bind (Option.bind (header_value ''content-length'' hs) (parse_unsigned (2 ^ 64 - 1))) (\<lambda>n.
          Option.bind (Option.bind (header_value ''connection'' hs) read_keep_alive) (\<lambda>keep.
          Option.bind (read_retry (header_value ''retry-after'' hs)) (\<lambda>retry.
            if length content < n then None
            else Some ((phrase, \<lparr>resp_status = code, content_type = ctype, resp_body = take n content,
                                 resp_retry_after = retry\<rparr>, keep), drop n content))))))
      | _ \<Rightarrow> None)"

text \<open>The fields are within their types: a \<^verbatim>\<open>u16\<close>, a \<^verbatim>\<open>usize\<close> and a \<^verbatim>\<open>u64\<close>.\<close>

definition response_typed :: "HttpResponse \<Rightarrow> bool" where
  "response_typed r \<longleftrightarrow>
     resp_status r < 2 ^ 16 \<and> length (resp_body r) < 2 ^ 64 \<and>
     (case resp_retry_after r of Some n \<Rightarrow> n < 2 ^ 64 | None \<Rightarrow> True)"

lemma read_status_written:
  "n < 2 ^ 16 \<Longrightarrow> read_status (''HTTP/1.1 '' @ show_nat n @ '' '' @ phrase) = Some (n, phrase)"
proof -
  assume n: "n < 2 ^ 16"
  have "CHR '' '' \<notin> set (show_nat n)" using show_nat_digits [of "CHR '' ''" n] by auto
  then have "split_once '' '' (show_nat n @ '' '' @ phrase) = Some (show_nat n, phrase)"
    using split_once_char_append [of "CHR '' ''" "show_nat n" phrase] by simp
  moreover have "strip_prefix ''HTTP/1.1 '' (''HTTP/1.1 '' @ show_nat n @ '' '' @ phrase) = Some (show_nat n @ '' '' @ phrase)"
    by (rule strip_prefix_append)
  ultimately show ?thesis using n by (simp only: read_status_def) (simp add: parse_unsigned_show)
qed

section \<open>Property\<close>

text \<open>
  C23. Responses are framed correctly: whatever follows on the stream, a client that reads
  the status line, the headers and as many bytes as it is told gets back the status with its
  phrase, the content type, the body, when to retry, and whether the connection stays open,
  exactly as they were, and is left at the first byte of what follows. A content type has
  no carriage return.
\<close>

theorem response_framing:
  assumes "CR \<notin> set (content_type r)" "response_typed r"
  shows "read_back (write_response_with_connection r keep @ rest) =
    Some ((reason_phrase (resp_status r), r, keep), rest)"
proof -
  have "\<not> starts_with (''content-type: '' @ content_type r) (n @ '': '')"
    if "n \<in> {''content-length'', ''connection'', ''retry-after''}" for n
    using that by (auto simp: starts_with_def)
  moreover define line where "line = ''HTTP/1.1 '' @ show_nat (resp_status r) @ '' '' @ reason_phrase (resp_status r)"
  moreover have "read_status line = Some (resp_status r, reason_phrase (resp_status r))"
    unfolding line_def using assms(2) by (intro read_status_written) (simp add: response_typed_def)
  ultimately show ?thesis
    using assms(2) unfolding read_back_def read_written [OF assms(1), folded line_def]
    by (cases "resp_retry_after r")
      (simp_all add: header_value_def parse_unsigned_show response_typed_def read_keep_alive_def read_retry_def)
qed

theorem response_framing_witness:
  "read_back (write_response (response_bytes 503 ''text/plain'' (''a'' @ [CR, LF, CR, LF] @ ''b'')) @ ''HTTP'') =
     Some ((''Service Unavailable'', response_bytes 503 ''text/plain'' (''a'' @ [CR, LF, CR, LF] @ ''b''), False), ''HTTP'')"
  using response_framing [of "response_bytes 503 ''text/plain'' (''a'' @ [CR, LF, CR, LF] @ ''b'')" False "''HTTP''"]
  by (simp add: write_response_def response_bytes_def response_typed_def reason_phrase_def)

end
