(* ===== verification/Discovery.thy ===== *)
theory Discovery
  imports Discovery_Cache Query_Engine Response
begin

text \<open>
  Discovery of labels, tags, series and metric metadata (\<^verbatim>\<open>Metadata\<close> of
  \<^verbatim>\<open>src/src/metadata.rs\<close>): the statements it runs, the documents it builds from their
  rows, and the cache in front of them. The database, the time library's two timestamp
  texts (both to the millisecond) and the length of a JSON text are fields of \<open>MetaEnv\<close>.
\<close>

section \<open>The database seen from discovery\<close>

text \<open>
  A statement answers with rows of nullable columns. Reading a required column that is NULL
  or missing is the library's error for that column.
\<close>

record 'f MetaEnv =
  table_prefix :: string
  statement :: "string \<Rightarrow> AnyhowError + string option list list"
  column_error :: "nat \<Rightarrow> AnyhowError"
  sql_time :: "int \<Rightarrow> string"
  key_time :: "int \<Rightarrow> string"
  json_bytes :: "'f json \<Rightarrow> nat"

definition get_opt_text :: "'f MetaEnv \<Rightarrow> string option list \<Rightarrow> nat \<Rightarrow> AnyhowError + string option" where
  "get_opt_text env row i = (if i < length row then Inr (row ! i) else Inl (column_error env i))"

definition get_text :: "'f MetaEnv \<Rightarrow> string option list \<Rightarrow> nat \<Rightarrow> AnyhowError + string" where
  "get_text env row i = and_then (get_opt_text env row i) (\<lambda>v. ok_or v (column_error env i))"

definition run_interactive ::
  "'f MetaEnv \<Rightarrow> (string option list \<Rightarrow> AnyhowError + 'r) \<Rightarrow> string \<Rightarrow> 'r list api_result" where
  "run_interactive env read sql =
     map_err storage_err (and_then (statement env sql) (\<lambda>rows. collect_results (map read rows)))"

section \<open>Statements\<close>

definition DISCOVERY_LIMIT :: nat where
  "DISCOVERY_LIMIT = 1000"

definition signal_in_list :: "StorageSignal list \<Rightarrow> string" where
  "signal_in_list signals = join '', '' (map (\<lambda>s. quote (signal_as_str s)) signals)"

definition metadata_time_predicate :: "(int \<Rightarrow> string) \<Rightarrow> int \<Rightarrow> int \<Rightarrow> string" where
  "metadata_time_predicate fmt from to =
     ''first_seen < TIMESTAMP '' @ quote (fmt to) @ '' AND last_seen >= TIMESTAMP '' @ quote (fmt from)"

definition raw_time_predicate :: "(int \<Rightarrow> string) \<Rightarrow> int \<Rightarrow> int \<Rightarrow> string" where
  "raw_time_predicate fmt from to = time_predicate fmt ''time_unix_nano'' from to"

definition label_values_sql ::
  "'f MetaEnv \<Rightarrow> StorageSignal list \<Rightarrow> string \<Rightarrow> string \<Rightarrow> int \<Rightarrow> int \<Rightarrow> string" where
  "label_values_sql env signals kind nm from to =
     ''SELECT value, sum(row_count) AS rows FROM '' @ table_prefix env @
     ''metadata_summary WHERE kind = '' @ quote kind @ '' AND signal IN ('' @ signal_in_list signals @
     '') AND name = '' @ quote nm @ '' AND value IS NOT NULL AND '' @
     metadata_time_predicate (sql_time env) from to @
     '' GROUP BY 1 ORDER BY value LIMIT '' @ show_nat DISCOVERY_LIMIT"

definition prometheus_series_sql :: "'f MetaEnv \<Rightarrow> int \<Rightarrow> int \<Rightarrow> string" where
  "prometheus_series_sql env from to =
     ''SELECT name, service_name, deployment_environment, sum(row_count) AS rows FROM '' @ table_prefix env @
     ''metadata_summary WHERE kind = '' @ quote ''series'' @ '' AND signal IN ('' @
     signal_in_list [MetricGauge, MetricSum] @ '') AND '' @
     metadata_time_predicate (sql_time env) from to @
     '' GROUP BY 1,2,3 ORDER BY rows DESC, name, service_name, deployment_environment LIMIT '' @
     show_nat DISCOVERY_LIMIT"

definition loki_series_sql :: "'f MetaEnv \<Rightarrow> int \<Rightarrow> int \<Rightarrow> string" where
  "loki_series_sql env from to =
     ''SELECT service_name, deployment_environment, severity_text, sum(row_count) AS rows FROM '' @ table_prefix env @
     ''metadata_summary WHERE kind = '' @ quote ''series'' @ '' AND signal IN ('' @
     signal_in_list [LogsSignal] @ '') AND '' @
     metadata_time_predicate (sql_time env) from to @
     '' GROUP BY 1,2,3 ORDER BY rows DESC, service_name, deployment_environment, severity_text LIMIT '' @
     show_nat DISCOVERY_LIMIT"

definition metric_metadata_sql :: "'f MetaEnv \<Rightarrow> string" where
  "metric_metadata_sql env =
     ''SELECT name, metric_type, max(coalesce(metric_unit, '' @ quote [] @ '')) AS unit, max(coalesce(metric_description, '' @
     quote [] @ '')) AS help, max(last_seen) AS last_seen FROM '' @ table_prefix env @
     ''metadata_summary WHERE kind = '' @ quote ''metric_metadata'' @ '' AND signal IN ('' @
     signal_in_list [MetricGauge, MetricSum] @
     '') GROUP BY 1,2 ORDER BY last_seen DESC, name, metric_type LIMIT '' @ show_nat DISCOVERY_LIMIT"

definition raw_label_values_sql :: "'f MetaEnv \<Rightarrow> string \<Rightarrow> int \<Rightarrow> int \<Rightarrow> string" where
  "raw_label_values_sql env expr from to =
     ''WITH raw_values AS ( SELECT cast('' @ expr @ '' AS VARCHAR) AS value, time_unix_nano FROM {prefix}'' @
     signal_as_str MetricGauge @ '' UNION ALL SELECT cast('' @ expr @
     '' AS VARCHAR) AS value, time_unix_nano FROM {prefix}'' @ signal_as_str MetricSum @
     '' ) SELECT DISTINCT value FROM raw_values WHERE value IS NOT NULL AND value <> '' @ quote [] @ '' AND '' @
     raw_time_predicate (sql_time env) from to @ '' ORDER BY value LIMIT '' @ show_nat DISCOVERY_LIMIT"

definition raw_series_sql :: "'f MetaEnv \<Rightarrow> string \<Rightarrow> int \<Rightarrow> int \<Rightarrow> string" where
  "raw_series_sql env expr from to =
     ''WITH raw_series AS ( SELECT name, service_name, '' @ expr @
     '' AS deployment_environment, time_unix_nano FROM {prefix}'' @ signal_as_str MetricGauge @
     '' UNION ALL SELECT name, service_name, '' @ expr @
     '' AS deployment_environment, time_unix_nano FROM {prefix}'' @ signal_as_str MetricSum @
     '' ) SELECT name, service_name, deployment_environment, count(*) AS rows FROM raw_series WHERE '' @
     raw_time_predicate (sql_time env) from to @
     '' GROUP BY 1,2,3 ORDER BY rows DESC, name, service_name, deployment_environment LIMIT '' @
     show_nat DISCOVERY_LIMIT"

section \<open>Building answers\<close>

definition json_strings :: "string list \<Rightarrow> 'f json" where
  "json_strings vs = JArray (map JString vs)"

fun string_array :: "'f json \<Rightarrow> string list" where
  "string_array (JArray vs) = List.map_filter json_as_str vs"
| "string_array _ = []"

definition insert_opt :: "string \<Rightarrow> string option \<Rightarrow> (string, 'f json) btree \<Rightarrow> (string, 'f json) btree" where
  "insert_opt nm v labels =
     (case v of
        Some s \<Rightarrow> if s \<noteq> [] then bt_insert nm (JString s) labels else labels
      | None \<Rightarrow> labels)"

text \<open>A \<open>BTreeSet\<close> of the non-null values, in order.\<close>

definition label_values ::
  "'f MetaEnv \<Rightarrow> StorageSignal list \<Rightarrow> string \<Rightarrow> string \<Rightarrow> int \<Rightarrow> int \<Rightarrow> string list api_result" where
  "label_values env signals kind nm from to =
     map_ok (\<lambda>rows. map fst (foldl (\<lambda>acc v. case v of Some s \<Rightarrow> bt_insert s () acc | None \<Rightarrow> acc) [] rows))
       (run_interactive env (\<lambda>row. get_opt_text env row 0) (label_values_sql env signals kind nm from to))"

definition prometheus_raw_label_values ::
  "'f MetaEnv \<Rightarrow> string \<Rightarrow> int \<Rightarrow> int \<Rightarrow> string list api_result" where
  "prometheus_raw_label_values env nm from to =
     (case (if nm = ''__name__'' then Some ''name'' else label_expr Metrics nm) of
        None \<Rightarrow> Inr []
      | Some expr \<Rightarrow>
          run_interactive env (\<lambda>row. get_text env row 0)
            (str_replace ''{prefix}'' (table_prefix env) (raw_label_values_sql env expr from to)))"

definition metric_series_row :: "'f MetaEnv \<Rightarrow> string option list \<Rightarrow> AnyhowError + 'f json" where
  "metric_series_row env row =
     and_then (get_text env row 0) (\<lambda>nm.
     and_then (get_opt_text env row 1) (\<lambda>service.
     map_ok (\<lambda>environment. JObject (insert_opt ''deployment_environment'' environment
         (insert_opt ''service_name'' service (bt_insert ''__name__'' (JString nm) []))))
       (get_opt_text env row 2)))"

definition log_series_row :: "'f MetaEnv \<Rightarrow> string option list \<Rightarrow> AnyhowError + 'f json" where
  "log_series_row env row =
     and_then (get_opt_text env row 0) (\<lambda>service.
     and_then (get_opt_text env row 1) (\<lambda>environment.
     map_ok (\<lambda>severity. JObject (insert_opt ''severity_text'' severity
         (insert_opt ''deployment_environment'' environment (insert_opt ''service_name'' service []))))
       (get_opt_text env row 2)))"

definition prometheus_raw_series :: "'f MetaEnv \<Rightarrow> int \<Rightarrow> int \<Rightarrow> 'f json api_result" where
  "prometheus_raw_series env from to =
     map_ok JArray (run_interactive env (metric_series_row env)
       (str_replace ''{prefix}'' (table_prefix env)
         (raw_series_sql env (case label_expr Metrics ''deployment_environment'' of Some e \<Rightarrow> e | None \<Rightarrow> ''NULL'')
           from to)))"

text \<open>Metric metadata: a list of types, units and help texts per metric name.\<close>

definition metadata_row :: "'f MetaEnv \<Rightarrow> string option list \<Rightarrow> AnyhowError + (string \<times> 'f json)" where
  "metadata_row env row =
     and_then (get_text env row 0) (\<lambda>nm.
     and_then (get_text env row 1) (\<lambda>metric_type.
     and_then (get_text env row 2) (\<lambda>unit_text.
     map_ok (\<lambda>help. (nm, JObject [(''help'', JString help), (''type'', JString metric_type), (''unit'', JString unit_text)]))
       (get_text env row 3))))"

definition push_metadata ::
  "(string, 'f json list) btree \<Rightarrow> string \<times> 'f json \<Rightarrow> (string, 'f json list) btree" where
  "push_metadata m e =
     bt_insert (fst e) ((case bt_get m (fst e) of Some xs \<Rightarrow> xs | None \<Rightarrow> []) @ [snd e]) m"

section \<open>The cached operations\<close>

definition prometheus_label_values ::
  "'f MetaEnv \<Rightarrow> 64 word \<Rightarrow> string \<Rightarrow> int \<Rightarrow> int \<Rightarrow> 'f json DiscoveryCache \<Rightarrow>
   string list api_result \<times> 'f json DiscoveryCache" where
  "prometheus_label_values env gen nm from to c =
     (case (if nm = ''__name__'' then Some ''__name__'' else canonical_for_alias Metrics nm) of
        None \<Rightarrow> (Inr [], c)
      | Some metadata_name \<Rightarrow>
          (case cached (json_bytes env) gen
                 (window_key (key_time env) PrometheusApi LabelValue metadata_name from to)
                 (and_then (label_values env [MetricGauge, MetricSum] ''label_value'' metadata_name from to) (\<lambda>vs.
                    if vs = [] then map_ok json_strings (prometheus_raw_label_values env metadata_name from to)
                    else Inr (json_strings vs))) c of
             (r, c') \<Rightarrow> (map_ok string_array r, c')))"

definition prometheus_series ::
  "'f MetaEnv \<Rightarrow> 64 word \<Rightarrow> int \<Rightarrow> int \<Rightarrow> 'f json DiscoveryCache \<Rightarrow> 'f json api_result \<times> 'f json DiscoveryCache" where
  "prometheus_series env gen from to c =
     cached (json_bytes env) gen (window_key (key_time env) PrometheusApi SeriesKind [] from to)
       (and_then (run_interactive env (metric_series_row env) (prometheus_series_sql env from to)) (\<lambda>out.
          if out = [] then prometheus_raw_series env from to else Inr (JArray out))) c"

definition prometheus_metric_metadata ::
  "'f MetaEnv \<Rightarrow> 64 word \<Rightarrow> 'f json DiscoveryCache \<Rightarrow> 'f json api_result \<times> 'f json DiscoveryCache" where
  "prometheus_metric_metadata env gen c =
     cached (json_bytes env) gen (static_key PrometheusApi MetricMetadata [])
       (map_ok (\<lambda>rows. JObject (map (\<lambda>e. (fst e, JArray (snd e))) (foldl push_metadata [] rows)))
          (run_interactive env (metadata_row env) (metric_metadata_sql env))) c"

definition loki_label_values ::
  "'f MetaEnv \<Rightarrow> 64 word \<Rightarrow> string \<Rightarrow> int \<Rightarrow> int \<Rightarrow> 'f json DiscoveryCache \<Rightarrow>
   string list api_result \<times> 'f json DiscoveryCache" where
  "loki_label_values env gen nm from to c =
     (case canonical_for_alias Logs nm of
        None \<Rightarrow> (Inr [], c)
      | Some metadata_name \<Rightarrow>
          (case cached (json_bytes env) gen (window_key (key_time env) LokiApi LabelValue metadata_name from to)
                 (map_ok json_strings (label_values env [LogsSignal] ''label_value'' metadata_name from to)) c of
             (r, c') \<Rightarrow> (map_ok string_array r, c')))"

definition loki_series ::
  "'f MetaEnv \<Rightarrow> 64 word \<Rightarrow> int \<Rightarrow> int \<Rightarrow> 'f json DiscoveryCache \<Rightarrow> 'f json api_result \<times> 'f json DiscoveryCache" where
  "loki_series env gen from to c =
     cached (json_bytes env) gen (window_key (key_time env) LokiApi SeriesKind [] from to)
       (map_ok JArray (run_interactive env (log_series_row env) (loki_series_sql env from to))) c"

definition tempo_tag_values ::
  "'f MetaEnv \<Rightarrow> 64 word \<Rightarrow> string \<Rightarrow> int \<Rightarrow> int \<Rightarrow> 'f json DiscoveryCache \<Rightarrow>
   string list api_result \<times> 'f json DiscoveryCache" where
  "tempo_tag_values env gen tag from to c =
     (case tempo_tag_name tag of
        None \<Rightarrow> (Inr [], c)
      | Some nm \<Rightarrow>
          (case cached (json_bytes env) gen (window_key (key_time env) TempoApi TagValue nm from to)
                 (map_ok json_strings (label_values env [SpansSignal] ''tag_value'' nm from to)) c of
             (r, c') \<Rightarrow> (map_ok string_array r, c')))"

section \<open>Requests and what they would build\<close>

datatype DiscoveryRequest =
  PromLabelValues string int int
| PromSeries int int
| PromMetadata
| LokiLabels string int int
| LokiSeriesOf int int
| TempoTag string int int

datatype 'f DiscoveryAnswer = Values "string list" | Document "'f json"

fun discover ::
  "'f MetaEnv \<Rightarrow> 64 word \<Rightarrow> DiscoveryRequest \<Rightarrow> 'f json DiscoveryCache \<Rightarrow>
   'f DiscoveryAnswer api_result \<times> 'f json DiscoveryCache" where
  "discover env gen (PromLabelValues nm from to) c =
     (case prometheus_label_values env gen nm from to c of (r, c') \<Rightarrow> (map_ok Values r, c'))"
| "discover env gen (PromSeries from to) c =
     (case prometheus_series env gen from to c of (r, c') \<Rightarrow> (map_ok Document r, c'))"
| "discover env gen PromMetadata c =
     (case prometheus_metric_metadata env gen c of (r, c') \<Rightarrow> (map_ok Document r, c'))"
| "discover env gen (LokiLabels nm from to) c =
     (case loki_label_values env gen nm from to c of (r, c') \<Rightarrow> (map_ok Values r, c'))"
| "discover env gen (LokiSeriesOf from to) c =
     (case loki_series env gen from to c of (r, c') \<Rightarrow> (map_ok Document r, c'))"
| "discover env gen (TempoTag tag from to) c =
     (case tempo_tag_values env gen tag from to c of (r, c') \<Rightarrow> (map_ok Values r, c'))"

text \<open>The key a request uses and the answer it builds when the cache has none.\<close>

definition with_name :: "string option \<Rightarrow> (string \<Rightarrow> 'k \<times> 'b) \<Rightarrow> ('k \<times> 'b) option" where
  "with_name nm f = map_option f nm"

fun request_plan :: "'f MetaEnv \<Rightarrow> DiscoveryRequest \<Rightarrow> (CacheKey \<times> 'f json api_result) option" where
  "request_plan env (PromLabelValues nm from to) =
     with_name (if nm = ''__name__'' then Some ''__name__'' else canonical_for_alias Metrics nm) (\<lambda>n.
       (window_key (key_time env) PrometheusApi LabelValue n from to,
        and_then (label_values env [MetricGauge, MetricSum] ''label_value'' n from to) (\<lambda>vs.
          if vs = [] then map_ok json_strings (prometheus_raw_label_values env n from to)
          else Inr (json_strings vs))))"
| "request_plan env (PromSeries from to) =
     Some (window_key (key_time env) PrometheusApi SeriesKind [] from to,
       and_then (run_interactive env (metric_series_row env) (prometheus_series_sql env from to)) (\<lambda>out.
          if out = [] then prometheus_raw_series env from to else Inr (JArray out)))"
| "request_plan env PromMetadata =
     Some (static_key PrometheusApi MetricMetadata [],
       map_ok (\<lambda>rows. JObject (map (\<lambda>e. (fst e, JArray (snd e))) (foldl push_metadata [] rows)))
          (run_interactive env (metadata_row env) (metric_metadata_sql env)))"
| "request_plan env (LokiLabels nm from to) =
     with_name (canonical_for_alias Logs nm) (\<lambda>n.
       (window_key (key_time env) LokiApi LabelValue n from to,
        map_ok json_strings (label_values env [LogsSignal] ''label_value'' n from to)))"
| "request_plan env (LokiSeriesOf from to) =
     Some (window_key (key_time env) LokiApi SeriesKind [] from to,
       map_ok JArray (run_interactive env (log_series_row env) (loki_series_sql env from to)))"
| "request_plan env (TempoTag tag from to) =
     with_name (tempo_tag_name tag) (\<lambda>n.
       (window_key (key_time env) TempoApi TagValue n from to,
        map_ok json_strings (label_values env [SpansSignal] ''tag_value'' n from to)))"

fun answer_of :: "DiscoveryRequest \<Rightarrow> 'f json \<Rightarrow> 'f DiscoveryAnswer" where
  "answer_of (PromLabelValues nm from to) v = Values (string_array v)"
| "answer_of (PromSeries from to) v = Document v"
| "answer_of PromMetadata v = Document v"
| "answer_of (LokiLabels nm from to) v = Values (string_array v)"
| "answer_of (LokiSeriesOf from to) v = Document v"
| "answer_of (TempoTag tag from to) v = Values (string_array v)"

lemma map_ok_map_ok: "map_ok f (map_ok g r) = map_ok (\<lambda>x. f (g x)) r"
  by (cases r) simp_all

lemma answer_of_fun:
  "answer_of (PromLabelValues nm from to) = (\<lambda>v. Values (string_array v))"
  "answer_of (PromSeries from to) = Document"
  "answer_of PromMetadata = Document"
  "answer_of (LokiLabels nm from to) = (\<lambda>v. Values (string_array v))"
  "answer_of (LokiSeriesOf from to) = Document"
  "answer_of (TempoTag tag from to) = (\<lambda>v. Values (string_array v))"
  by (simp_all add: fun_eq_iff)

lemma discover_plan:
  "discover env gen req c =
     (case request_plan env req of
        None \<Rightarrow> (Inr (Values []), c)
      | Some (key, build) \<Rightarrow>
          (case cached (json_bytes env) gen key build c of (r, c') \<Rightarrow> (map_ok (answer_of req) r, c')))"
  by (cases req)
    (simp_all add: with_name_def map_ok_map_ok answer_of_fun prometheus_label_values_def prometheus_series_def
      prometheus_metric_metadata_def loki_label_values_def loki_series_def tempo_tag_values_def
      split: option.split prod.split)

section \<open>What the cache answers was true\<close>

text \<open>
  Both timestamp texts are cut at the millisecond, so times with the same text in a key have
  the same text in a statement.
\<close>

definition same_precision :: "'f MetaEnv \<Rightarrow> bool" where
  "same_precision env \<longleftrightarrow> (\<forall>a b. key_time env a = key_time env b \<longrightarrow> sql_time env a = sql_time env b)"

definition same_window :: "'f MetaEnv \<Rightarrow> int \<Rightarrow> int \<Rightarrow> int \<Rightarrow> int \<Rightarrow> bool" where
  "same_window env f t f' t' \<longleftrightarrow> sql_time env f = sql_time env f' \<and> sql_time env t = sql_time env t'"

lemma window_predicates:
  "same_window env f t f' t' \<Longrightarrow> metadata_time_predicate (sql_time env) f t = metadata_time_predicate (sql_time env) f' t'"
  "same_window env f t f' t' \<Longrightarrow> raw_time_predicate (sql_time env) f t = raw_time_predicate (sql_time env) f' t'"
  by (simp_all add: same_window_def metadata_time_predicate_def raw_time_predicate_def time_predicate_def)

lemma window_builds:
  assumes "same_window env f t f' t'"
  shows "label_values env sigs kind nm f t = label_values env sigs kind nm f' t'"
    and "prometheus_raw_label_values env nm f t = prometheus_raw_label_values env nm f' t'"
    and "prometheus_series_sql env f t = prometheus_series_sql env f' t'"
    and "loki_series_sql env f t = loki_series_sql env f' t'"
    and "prometheus_raw_series env f t = prometheus_raw_series env f' t'"
  by (simp_all add: window_predicates [OF assms] label_values_def label_values_sql_def
      prometheus_raw_label_values_def raw_label_values_sql_def prometheus_series_sql_def
      loki_series_sql_def prometheus_raw_series_def raw_series_sql_def split: option.split)

lemma window_key_eq:
  "window_key fmt api kind nm f t = window_key fmt api' kind' nm' f' t' \<longleftrightarrow>
   api = api' \<and> kind = kind' \<and> nm = nm' \<and> fmt f = fmt f' \<and> fmt t = fmt t'"
  by (simp add: window_key_def)

lemma window_static [simp]:
  "window_key fmt api kind nm f t \<noteq> static_key api' kind' nm'"
  "static_key api' kind' nm' \<noteq> window_key fmt api kind nm f t"
  by (simp_all add: window_key_def static_key_def)

lemma with_name_Some: "with_name nm f = Some y \<longleftrightarrow> (\<exists>n. nm = Some n \<and> f n = y)"
  by (auto simp: with_name_def)

text \<open>Two requests with one key build the same answer.\<close>

lemma plan_determined:
  assumes "same_precision env" "request_plan env r1 = Some (k, b1)" "request_plan env r2 = Some (k, b2)"
  shows "b1 = b2"
proof -
  have win: "same_window env f t f' t'" if "key_time env f = key_time env f' \<and> key_time env t = key_time env t'" for f t f' t'
    using assms(1) that unfolding same_precision_def same_window_def by blast
  show ?thesis
  proof (cases r1)
    case (PromLabelValues nm f t)
    then obtain nm' n f' t' where r2: "r2 = PromLabelValues nm' f' t'"
      and eq: "key_time env f = key_time env f' \<and> key_time env t = key_time env t'"
      and n: "(if nm = ''__name__'' then Some ''__name__'' else canonical_for_alias Metrics nm) = Some n" "(if nm' = ''__name__'' then Some ''__name__'' else canonical_for_alias Metrics nm') = Some n"
      using assms(2,3) by (cases r2) (auto simp: with_name_Some window_key_eq)
    show ?thesis
      using assms(2,3) unfolding PromLabelValues r2
      by (simp add: with_name_Some n window_builds [OF win [OF eq]] cong: if_cong)
  next
    case (PromSeries f t)
    then obtain f' t' where r2: "r2 = PromSeries f' t'"
      and eq: "key_time env f = key_time env f' \<and> key_time env t = key_time env t'"
      using assms(2,3) by (cases r2) (auto simp: with_name_Some window_key_eq)
    show ?thesis
      using assms(2,3) unfolding PromSeries r2 by (simp add: window_builds [OF win [OF eq]] cong: if_cong)
  next
    case PromMetadata
    then show ?thesis using assms(2,3) by (cases r2) (auto simp: with_name_Some)
  next
    case (LokiLabels nm f t)
    then obtain nm' n f' t' where r2: "r2 = LokiLabels nm' f' t'"
      and eq: "key_time env f = key_time env f' \<and> key_time env t = key_time env t'"
      and n: "canonical_for_alias Logs nm = Some n" "canonical_for_alias Logs nm' = Some n"
      using assms(2,3) by (cases r2) (auto simp: with_name_Some window_key_eq)
    show ?thesis
      using assms(2,3) unfolding LokiLabels r2 by (simp add: with_name_Some n window_builds [OF win [OF eq]])
  next
    case (LokiSeriesOf f t)
    then obtain f' t' where r2: "r2 = LokiSeriesOf f' t'"
      and eq: "key_time env f = key_time env f' \<and> key_time env t = key_time env t'"
      using assms(2,3) by (cases r2) (auto simp: with_name_Some window_key_eq)
    show ?thesis
      using assms(2,3) unfolding LokiSeriesOf r2 by (simp add: window_builds [OF win [OF eq]])
  next
    case (TempoTag tag f t)
    then obtain tag' n f' t' where r2: "r2 = TempoTag tag' f' t'"
      and eq: "key_time env f = key_time env f' \<and> key_time env t = key_time env t'"
      and n: "tempo_tag_name tag = Some n" "tempo_tag_name tag' = Some n"
      using assms(2,3) by (cases r2) (auto simp: with_name_Some window_key_eq)
    show ?thesis
      using assms(2,3) unfolding TempoTag r2 by (simp add: with_name_Some n window_builds [OF win [OF eq]])
  qed
qed

text \<open>
  A value in the cache was built in one of the states \<open>seen\<close> of the database, at its
  generation. Every state formats times alike.
\<close>

definition same_format :: "'f MetaEnv \<Rightarrow> 'f MetaEnv \<Rightarrow> bool" where
  "same_format env env' \<longleftrightarrow> key_time env = key_time env'"

definition sourced :: "('f MetaEnv \<times> 64 word) set \<Rightarrow> 'f json DiscoveryCache \<Rightarrow> bool" where
  "sourced seen c \<longleftrightarrow>
     (\<forall>key gen v. cache_get c key gen = Some v \<longrightarrow>
       (\<exists>env. (env, gen) \<in> seen \<and> (\<forall>req b. request_plan env req = Some (key, b) \<longrightarrow> b = Inr v)))"

lemma plan_key:
  "same_format env env' \<Longrightarrow> map_option fst (request_plan env req) = map_option fst (request_plan env' req)"
  by (cases req) (simp_all add: same_format_def with_name_def option.map_comp comp_def)

lemma cache_get_insert:
  assumes "cache_get (cache_insert jl k g v c) k' g' = Some w"
  shows "k' = k \<and> g' = g \<and> w = v \<or> cache_get c k' g' = Some w"
  using assms
  by (auto simp: cache_get_def cache_insert_def make_room_def bind_eq_Some_conv split: if_splits option.splits)

lemma sourced_new: "sourced seen cache_new"
  by (simp add: sourced_def cache_get_def cache_new_def)

lemma uncached:
  "request_plan env req = Some (key, build) \<Longrightarrow> fst (discover env gen req cache_new) = map_ok (answer_of req) build"
  by (cases build) (simp_all add: discover_plan cached_def cache_get_def cache_new_def)

lemma sourced_step:
  assumes "sourced seen c" "same_precision env" "\<And>env' g. (env', g) \<in> seen \<Longrightarrow> same_format env env'"
  shows "sourced (insert (env, gen) seen) (snd (discover env gen req c))"
    and "fst (discover env gen req c) = fst (discover env gen req cache_new) \<or>
      (\<exists>env'. (env', gen) \<in> seen \<and> is_ok (fst (discover env gen req c)) \<and>
        fst (discover env gen req c) = fst (discover env' gen req cache_new))"
proof -
  have more: "sourced (insert (env, gen) seen) c" using assms(1) unfolding sourced_def by blast
  have "sourced (insert (env, gen) seen) (snd (discover env gen req c)) \<and>
      (fst (discover env gen req c) = fst (discover env gen req cache_new) \<or>
      (\<exists>env'. (env', gen) \<in> seen \<and> is_ok (fst (discover env gen req c)) \<and>
        fst (discover env gen req c) = fst (discover env' gen req cache_new)))"
  proof (cases "request_plan env req")
    case None
    then show ?thesis using more by (simp add: discover_plan)
  next
    case (Some kb)
    then obtain key build where plan: "request_plan env req = Some (key, build)" by (cases kb) simp
    show ?thesis
    proof (cases "cache_get c key gen")
      case (Some v)
      then obtain env' where env': "(env', gen) \<in> seen" "\<And>req b. request_plan env' req = Some (key, b) \<Longrightarrow> b = Inr v"
        using assms(1) unfolding sourced_def by blast
      obtain b where "request_plan env' req = Some (key, b)"
        using plan_key [OF assms(3) [OF env'(1)], of req] plan by (cases "request_plan env' req") auto
      then have "fst (discover env' gen req cache_new) = Inr (answer_of req v)"
        using uncached [of env' req key b gen] env'(2) [of req b] by simp
      then show ?thesis using plan Some more env'(1) by (auto simp: discover_plan cached_def)
    next
      case None
      have "sourced (insert (env, gen) seen) (cache_insert jl key gen v c)" if "build = Inr v" for jl v
        unfolding sourced_def
      proof (intro allI impI)
        fix key' gen' w
        assume got: "cache_get (cache_insert jl key gen v c) key' gen' = Some w"
        show "\<exists>e. (e, gen') \<in> insert (env, gen) seen \<and> (\<forall>req b. request_plan e req = Some (key', b) \<longrightarrow> b = Inr w)"
          using cache_get_insert [OF got]
        proof
          assume "key' = key \<and> gen' = gen \<and> w = v"
          then show ?thesis using plan plan_determined [OF assms(2)] that by blast
        next
          assume "cache_get c key' gen' = Some w"
          then show ?thesis using more unfolding sourced_def by blast
        qed
      qed
      then show ?thesis
        using plan None more uncached [OF plan, of gen]
        by (cases build) (simp_all add: discover_plan cached_def)
    qed
  qed
  then show "sourced (insert (env, gen) seen) (snd (discover env gen req c))"
    "fst (discover env gen req c) = fst (discover env gen req cache_new) \<or>
      (\<exists>env'. (env', gen) \<in> seen \<and> is_ok (fst (discover env gen req c)) \<and>
        fst (discover env gen req c) = fst (discover env' gen req cache_new))" by blast+
qed

abbreviation "discover_at call \<equiv> (case call of (env, gen, req) \<Rightarrow> discover env gen req)"

lemma sourced_answers:
  assumes "sourced seen c" "\<forall>(env, gen, req) \<in> set calls. same_precision env"
    "\<forall>x \<in> fst ` seen \<union> fst ` set calls. \<forall>y \<in> fst ` seen \<union> fst ` set calls. same_format x y"
    "i < length calls" "calls ! i = (env, gen, req)"
  shows "answers discover_at calls c ! i = fst (discover env gen req cache_new) \<or>
    (\<exists>env'. ((env', gen) \<in> seen \<or> (\<exists>req'. (env', gen, req') \<in> set (take i calls))) \<and>
      is_ok (answers discover_at calls c ! i) \<and>
      answers discover_at calls c ! i = fst (discover env' gen req cache_new))"
  using assms
proof (induction calls arbitrary: c seen i)
  case (Cons call calls)
  obtain e g r where call: "call = (e, g, r)" by (cases call)
  note one = sourced_step [OF Cons.prems(1), of e g r]
  have e: "same_precision e" "\<And>env' g. (env', g) \<in> seen \<Longrightarrow> same_format e env'"
  proof -
    show "same_precision e" using Cons.prems(2) call by simp
    show "same_format e env'" if "(env', g') \<in> seen" for env' g'
    proof -
      have "env' \<in> fst ` seen" using that by force
      moreover have "e \<in> fst ` set (call # calls)" using call by simp
      ultimately show ?thesis using Cons.prems(3) by blast
    qed
  qed
  show ?case
  proof (cases i)
    case 0
    with one(2) [OF e] Cons.prems(5) call show ?thesis by (auto split: prod.split)
  next
    case (Suc j)
    have fmt: "\<forall>x \<in> fst ` insert (e, g) seen \<union> fst ` set calls. \<forall>y \<in> fst ` insert (e, g) seen \<union> fst ` set calls. same_format x y"
      using Cons.prems(3) call by auto
    have "answers discover_at calls (snd (discover e g r c)) ! j = fst (discover env gen req cache_new) \<or>
      (\<exists>env'. ((env', gen) \<in> insert (e, g) seen \<or> (\<exists>req'. (env', gen, req') \<in> set (take j calls))) \<and>
        is_ok (answers discover_at calls (snd (discover e g r c)) ! j) \<and>
        answers discover_at calls (snd (discover e g r c)) ! j = fst (discover env' gen req cache_new))"
      using Cons.prems(2,4,5) Suc by (intro Cons.IH [OF one(1) [OF e] _ fmt]) auto
    moreover have "answers discover_at (call # calls) c ! i = answers discover_at calls (snd (discover e g r c)) ! j"
      by (simp add: Suc call)
    moreover have "set (take i (call # calls)) = insert (e, g, r) (set (take j calls))" by (simp add: Suc call)
    ultimately show ?thesis by (metis insert_iff prod.inject)
  qed
qed simp

text \<open>
  C13. The discovery cache delays what the database says and never makes anything up: over
  any sequence of discovery requests, on any surface and over any windows, while the
  database changes between them in any way and the generation moves or not, every answer is
  the one the same request would have had without a cache, at its own time or at the time of
  an earlier request of the same generation. Only an answer is kept, never an error, and
  none outlives its generation. In this program the generation does not move, so an answer
  can be as old as the process (\<open>metric_metadata_stale\<close> below). The states of the database
  share the time library, whose two formats cut times alike.
\<close>

theorem discovery_cache_never_invents:
  assumes "\<forall>(env, gen, req) \<in> set calls. same_precision env"
    "\<forall>x \<in> set calls. \<forall>y \<in> set calls. key_time (fst x) = key_time (fst y)"
    "i < length calls" "calls ! i = (env, gen, req)"
  shows "let answer = answers discover_at calls cache_new ! i in
    answer = fst (discover env gen req cache_new) \<or>
    (\<exists>(env', gen', req') \<in> set (take i calls).
       gen' = gen \<and> is_ok answer \<and> answer = fst (discover env' gen req cache_new))"
proof -
  have "\<forall>x \<in> fst ` {} \<union> fst ` set calls. \<forall>y \<in> fst ` {} \<union> fst ` set calls. same_format x y"
    unfolding same_format_def using assms(2) by blast
  note found = sourced_answers [OF sourced_new assms(1) this assms(3,4)]
  consider (own) "answers discover_at calls cache_new ! i = fst (discover env gen req cache_new)"
    | (earlier) env' req' where "(env', gen, req') \<in> set (take i calls)" "is_ok (answers discover_at calls cache_new ! i)"
      "answers discover_at calls cache_new ! i = fst (discover env' gen req cache_new)"
    using found by blast
  then show ?thesis
  proof cases
    case own
    then show ?thesis unfolding Let_def by (rule disjI1)
  next
    case earlier
    then show ?thesis
      unfolding Let_def by (intro disjI2 bexI [of _ "(env', gen, req')"]) (simp_all only: prod.case simp_thms)
  qed
qed

section \<open>A database in the witnesses\<close>

definition sample_env :: "string option list list \<Rightarrow> unit MetaEnv" where
  "sample_env rows = \<lparr>table_prefix = ''lake.'', statement = (\<lambda>_. Inr rows),
     column_error = (\<lambda>_. OtherError ''column''), sql_time = show_int, key_time = show_int,
     json_bytes = (\<lambda>_. 2)\<rparr>"

lemma sample_env_precise: "same_precision (sample_env rows)"
  by (simp add: same_precision_def sample_env_def)

text \<open>A service that is gone from the database at the second call.\<close>

definition sample_calls :: "(unit MetaEnv \<times> 64 word \<times> DiscoveryRequest) list" where
  "sample_calls =
     [(sample_env [[Some ''checkout'']], 0, LokiLabels ''service_name'' 0 60),
      (sample_env [], 0, LokiLabels ''service_name'' 0 60)]"

theorem discovery_cache_never_invents_witness:
  "answers discover_at sample_calls cache_new ! 1 = fst (discover (sample_env []) 0 (LokiLabels ''service_name'' 0 60) cache_new) \<or>
   answers discover_at sample_calls cache_new ! 1 =
     fst (discover (sample_env [[Some ''checkout'']]) 0 (LokiLabels ''service_name'' 0 60) cache_new)"
proof -
  have "\<forall>(env, gen, req) \<in> set sample_calls. same_precision env"
    "\<forall>x \<in> set sample_calls. \<forall>y \<in> set sample_calls. key_time (fst x) = key_time (fst y)"
    by (simp_all add: sample_calls_def sample_env_precise) (simp add: sample_env_def)
  from discovery_cache_never_invents [OF this, of 1 "sample_env []" 0 "LokiLabels ''service_name'' 0 60"]
  have "let answer = answers discover_at sample_calls cache_new ! 1 in
      answer = fst (discover (sample_env []) 0 (LokiLabels ''service_name'' 0 60) cache_new) \<or>
      (\<exists>(env', gen', req') \<in> set (take 1 sample_calls).
         gen' = 0 \<and> is_ok answer \<and> answer = fst (discover env' 0 (LokiLabels ''service_name'' 0 60) cache_new))"
    by (simp add: sample_calls_def)
  moreover have "set (take 1 sample_calls) = {(sample_env [[Some ''checkout'']], 0, LokiLabels ''service_name'' 0 60)}"
    by (simp add: sample_calls_def)
  ultimately show ?thesis by (auto simp: Let_def simp del: discover.simps answers.simps)
qed

text \<open>
  In a query-only process the generation never moves, so metric metadata, whose key has no
  window, is answered from the first answer for as long as it stays cached: a metric that
  appears afterwards is not listed.
\<close>

lemma metric_metadata_stays:
  assumes "cache_get c (static_key PrometheusApi MetricMetadata []) gen = Some v"
  shows "prometheus_metric_metadata env gen c = (Inr v, c)"
  using assms by (simp add: prometheus_metric_metadata_def cached_def)

lemma metric_metadata_stale:
  "let rows = [[Some ''requests'', Some ''sum'', Some '''', Some '''']];
       c = snd (prometheus_metric_metadata (sample_env []) 0 cache_new)
   in fst (prometheus_metric_metadata (sample_env rows) 0 c) = Inr (JObject []) \<and>
      fst (prometheus_metric_metadata (sample_env rows) 0 cache_new) \<noteq> Inr (JObject [])"
  by (simp add: prometheus_metric_metadata_def cached_def cache_get_def cache_new_def cache_insert_def
      make_room_def bt_get_def sample_env_def run_interactive_def metadata_row_def get_text_def
      get_opt_text_def MAX_CACHE_VALUE_BYTES_def MAX_CACHE_ENTRIES_def push_metadata_def)

end
