(* ===== verification/Http_Parser.thy ===== *)
theory Http_Parser
  imports Text
begin

text \<open>
  Reading HTTP requests (\<^verbatim>\<open>src/src/http/parser.rs\<close>): bounded lines from a buffered
  socket, the request target, percent decoding, and the replacement of invalid UTF-8 by
  \<open>String::from_utf8_lossy\<close>. Text and bytes are both lists of characters, a character
  being a byte.

  A buffered reader is the list of its buffers: \<open>fill_buf\<close> answers the first one that
  still has bytes, or an I/O error, and an exhausted list is the end of the stream.
\<close>

section \<open>UTF-8\<close>

text \<open>The replacement character, U+FFFD.\<close>

definition REPLACEMENT :: string where
  "REPLACEMENT = [CHR 0xEF, CHR 0xBF, CHR 0xBD]"

definition in_range :: "nat \<Rightarrow> nat \<Rightarrow> char \<Rightarrow> bool" where
  "in_range lo hi c = (lo \<le> byte c \<and> byte c \<le> hi)"

abbreviation "continuation c \<equiv> in_range 0x80 0xBF c"

text \<open>
  The second byte a lead byte may be followed by, and how many bytes the character has.
\<close>

definition second_ok :: "char \<Rightarrow> char \<Rightarrow> bool" where
  "second_ok a b =
     (if in_range 0xC2 0xDF a then continuation b
      else if in_range 0xE0 0xE0 a then in_range 0xA0 0xBF b
      else if in_range 0xE1 0xEC a \<or> in_range 0xEE 0xEF a then continuation b
      else if in_range 0xED 0xED a then in_range 0x80 0x9F b
      else if in_range 0xF0 0xF0 a then in_range 0x90 0xBF b
      else if in_range 0xF1 0xF3 a then continuation b
      else in_range 0xF4 0xF4 a \<and> in_range 0x80 0x8F b)"

definition utf8_width :: "char \<Rightarrow> nat" where
  "utf8_width c =
     (if in_range 0 0x7F c then 1 else if in_range 0xC2 0xDF c then 2
      else if in_range 0xE0 0xEF c then 3 else if in_range 0xF0 0xF4 c then 4 else 0)"

text \<open>
  One step at the start of a text: whether it is a character, and how many bytes it or the
  longest invalid start of one takes.
\<close>

fun utf8_step :: "string \<Rightarrow> bool \<times> nat" where
  "utf8_step [] = (True, 0)"
| "utf8_step (a # rest) =
     (if utf8_width a = 1 then (True, 1)
      else if utf8_width a = 0 then (False, 1)
      else case rest of
        [] \<Rightarrow> (False, 1)
      | b # rest \<Rightarrow>
          if \<not> second_ok a b then (False, 1)
          else if utf8_width a = 2 then (True, 2)
          else (case rest of
            [] \<Rightarrow> (False, 2)
          | c # rest \<Rightarrow>
              if \<not> continuation c then (False, 2)
              else if utf8_width a = 3 then (True, 3)
              else (case rest of
                [] \<Rightarrow> (False, 3)
              | d # _ \<Rightarrow> if continuation d then (True, 4) else (False, 3))))"

lemma utf8_step_pos: "s \<noteq> [] \<Longrightarrow> utf8_step s = (ok, n) \<Longrightarrow> 0 < n"
  by (cases s) (auto split: if_splits list.splits)

function from_utf8_lossy :: "string \<Rightarrow> string" where
  "from_utf8_lossy s =
     (if s = [] then []
      else case utf8_step s of (ok, n) \<Rightarrow>
        (if ok then take n s else REPLACEMENT) @ from_utf8_lossy (drop n s))"
  by pat_completeness auto
termination
  by (relation "measure length") (auto intro!: diff_less dest: utf8_step_pos [OF _ sym])

declare from_utf8_lossy.simps [simp del]

section \<open>Percent decoding and targets\<close>

definition hex_nibble :: "char \<Rightarrow> nat option" where
  "hex_nibble c =
     (if in_range 48 57 c then Some (byte c - 48)
      else if in_range 97 102 c then Some (byte c - 97 + 10)
      else if in_range 65 70 c then Some (byte c - 65 + 10)
      else None)"

definition hex_byte :: "char \<Rightarrow> char \<Rightarrow> char option" where
  "hex_byte high low =
     Option.bind (hex_nibble high) (\<lambda>h. map_option (\<lambda>l. char_of (16 * h + l)) (hex_nibble low))"

fun percent_bytes :: "string \<Rightarrow> string" where
  "percent_bytes [] = []"
| "percent_bytes (a # b # c # cs) =
     (case (if a = CHR ''%'' then hex_byte b c else None) of
        Some h \<Rightarrow> h # percent_bytes cs
      | None \<Rightarrow> (if a = CHR ''+'' then CHR 0x20 else a) # percent_bytes (b # c # cs))"
| "percent_bytes (a # cs) = (if a = CHR ''+'' then CHR 0x20 else a) # percent_bytes cs"

definition percent_decode :: "string \<Rightarrow> string" where
  "percent_decode input = from_utf8_lossy (percent_bytes input)"

text \<open>
  A parameter map is an association list in insertion order; the last value inserted for
  a name is its value.
\<close>

type_synonym params = "(string \<times> string) list"

definition insert_param :: "string \<Rightarrow> string \<Rightarrow> params \<Rightarrow> params" where
  "insert_param k v ps = (k, v) # filter (\<lambda>p. fst p \<noteq> k) ps"

definition insert_pair :: "string \<Rightarrow> params \<Rightarrow> params" where
  "insert_pair pair ps =
     (let kv = (case split_once ''='' pair of Some kv \<Rightarrow> kv | None \<Rightarrow> (pair, [])) in
      insert_param (percent_decode (fst kv)) (percent_decode (snd kv)) ps)"

definition insert_pairs :: "string \<Rightarrow> params \<Rightarrow> params" where
  "insert_pairs raw ps = fold insert_pair (filter (\<lambda>s. s \<noteq> []) (split_char (CHR ''&'') raw)) ps"

definition split_target :: "string \<Rightarrow> string \<times> params" where
  "split_target target =
     (let pq = (case split_once ''?'' target of Some pq \<Rightarrow> pq | None \<Rightarrow> (target, [])) in
      (fst pq, insert_pairs (snd pq) []))"

section \<open>Bounded lines\<close>

abbreviation "MAX_REQUEST_LINE_BYTES \<equiv> (8 * 1024 :: nat)"
abbreviation "MAX_HEADER_LINE_BYTES \<equiv> (8 * 1024 :: nat)"
abbreviation "MAX_HEADER_BYTES \<equiv> (64 * 1024 :: nat)"
abbreviation "MAX_HEADER_COUNT \<equiv> (100 :: nat)"

datatype LineRead = ReadLine nat | TooLong

text \<open>
  What a read ends in: the outcome with the bytes collected (as they are, before the
  lossy conversion), and the buffers left. A buffer that does not hold the end of the line
  is consumed whole; one that makes the line too long is not consumed at all.
\<close>

datatype buffer = Bytes string | IoError string

fun line_take :: "string \<Rightarrow> string \<times> string" where
  "line_take [] = ([], [])"
| "line_take (c # cs) =
     (if c = LF then ([c], cs) else (case line_take cs of (a, b) \<Rightarrow> (c # a, b)))"

fun read_line_loop ::
  "nat \<Rightarrow> nat \<Rightarrow> string \<Rightarrow> buffer list \<Rightarrow> (string + LineRead \<times> string) \<times> buffer list" where
  "read_line_loop max_bytes count out [] = (Inr (ReadLine count, out), [])"
| "read_line_loop max_bytes count out (IoError e # bufs) = (Inl e, bufs)"
| "read_line_loop max_bytes count out (Bytes available # bufs) =
     (if available = [] then read_line_loop max_bytes count out bufs
      else case line_take available of (taken, rest) \<Rightarrow>
        if count + length taken > max_bytes then (Inr (TooLong, out), Bytes available # bufs)
        else if last taken = LF then
          (Inr (ReadLine (count + length taken), out @ taken), (if rest = [] then bufs else Bytes rest # bufs))
        else read_line_loop max_bytes (count + length taken) (out @ taken) bufs)"

definition read_bounded_line ::
  "nat \<Rightarrow> buffer list \<Rightarrow> (string + LineRead \<times> string) \<times> buffer list" where
  "read_bounded_line max_bytes bufs =
     (case read_line_loop max_bytes 0 [] bufs of
        (Inr (ReadLine n, out), rest) \<Rightarrow> (Inr (ReadLine n, from_utf8_lossy out), rest)
      | r \<Rightarrow> r)"

section \<open>Valid text is kept\<close>

fun utf8_valid_steps :: "nat \<Rightarrow> string \<Rightarrow> bool" where
  "utf8_valid_steps 0 s = (s = [])"
| "utf8_valid_steps (Suc k) s =
     (s = [] \<or> (case utf8_step s of (ok, n) \<Rightarrow> ok \<and> utf8_valid_steps k (drop n s)))"

definition utf8_valid :: "string \<Rightarrow> bool" where
  "utf8_valid s = utf8_valid_steps (length s) s"

lemma from_utf8_lossy_Nil [simp]: "from_utf8_lossy [] = []"
  by (simp add: from_utf8_lossy.simps)

lemma lossy_valid_steps: "utf8_valid_steps k s \<Longrightarrow> from_utf8_lossy s = s"
proof (induction k arbitrary: s)
  case 0
  then show ?case by simp
next
  case (Suc k)
  show ?case
  proof (cases "s = []")
    case False
    obtain ok n where step: "utf8_step s = (ok, n)" by force
    with Suc.prems False have "ok" "utf8_valid_steps k (drop n s)" by simp_all
    with Suc.IH step False show ?thesis by (simp add: from_utf8_lossy.simps [of s])
  qed simp
qed

lemma from_utf8_lossy_valid: "utf8_valid s \<Longrightarrow> from_utf8_lossy s = s"
  unfolding utf8_valid_def by (rule lossy_valid_steps)

lemma ascii_step: "byte c < (128::nat) \<Longrightarrow> utf8_step (c # cs) = (True, 1)"
  by (simp add: utf8_width_def in_range_def)

lemma ascii_valid: "list_all (\<lambda>c. byte c < (128::nat)) s \<Longrightarrow> utf8_valid s"
  unfolding utf8_valid_def by (induction s) (simp_all add: ascii_step del: utf8_step.simps)

section \<open>Encoding and decoding\<close>

text \<open>What a client does to send any text as a parameter: letters, digits and a few
  marks stay, every other byte becomes a percent sign and two digits.\<close>

definition unreserved :: "char \<Rightarrow> bool" where
  "unreserved c = (in_range 48 57 c \<or> in_range 65 90 c \<or> in_range 97 122 c \<or> c \<in> set ''-._~'')"

definition hex_digit :: "nat \<Rightarrow> char" where
  "hex_digit n = (if n < 10 then char_of (48 + n) else char_of (55 + n))"

fun percent_encode :: "string \<Rightarrow> string" where
  "percent_encode [] = []"
| "percent_encode (c # cs) =
     (if unreserved c then c # percent_encode cs
      else CHR ''%'' # hex_digit (byte c div 16) # hex_digit (byte c mod 16) # percent_encode cs)"

lemma byte_lt: "byte c < (256::nat)"
  by simp

lemma hex_nibble_digit: "n < 16 \<Longrightarrow> hex_nibble (hex_digit n) = Some n"
  by (auto simp: hex_nibble_def hex_digit_def in_range_def)

lemma hex_byte_digits: "hex_byte (hex_digit (byte c div 16)) (hex_digit (byte c mod 16)) = Some c"
proof -
  have "byte c div 16 < (16::nat)" using byte_lt [of c] by linarith
  then show ?thesis by (simp add: hex_byte_def hex_nibble_digit)
qed

lemma unreserved_other: "unreserved c \<Longrightarrow> c \<noteq> CHR ''%'' \<and> c \<noteq> CHR ''+''"
  by (auto simp: unreserved_def in_range_def)

lemma percent_bytes_plain:
  "c \<noteq> CHR ''%'' \<Longrightarrow> c \<noteq> CHR ''+'' \<Longrightarrow> percent_bytes (c # cs) = c # percent_bytes cs"
  by (cases "c # cs" rule: percent_bytes.cases) auto

lemma percent_bytes_encode: "percent_bytes (percent_encode s) = s"
  by (induction s) (auto simp: percent_bytes_plain hex_byte_digits dest: unreserved_other)

section \<open>Lines do not depend on the buffers\<close>

fun buffered :: "buffer list \<Rightarrow> string" where
  "buffered [] = []"
| "buffered (Bytes b # bufs) = b @ buffered bufs"
| "buffered (IoError e # bufs) = []"

definition all_bytes :: "buffer list \<Rightarrow> bool" where
  "all_bytes bufs = list_all (\<lambda>b. case b of Bytes _ \<Rightarrow> True | IoError _ \<Rightarrow> False) bufs"

lemma line_take_append: "line_take s = (a, b) \<Longrightarrow> s = a @ b"
  by (induction s arbitrary: a b) (auto split: if_splits prod.splits)

lemma line_take_LF: "line_take s = (a, b) \<Longrightarrow> LF \<in> set s \<longleftrightarrow> a \<noteq> [] \<and> last a = LF"
  by (induction s arbitrary: a b) (auto split: if_splits prod.splits)

lemma line_take_no_LF: "LF \<notin> set s \<Longrightarrow> line_take s = (s, [])"
  by (induction s) auto

lemma line_take_first: "line_take s = (a, b) \<Longrightarrow> LF \<in> set s \<Longrightarrow> line_take (s @ t) = (a, b @ t)"
  by (induction s arbitrary: a b) (auto split: if_splits prod.splits)

lemma line_take_skip: "LF \<notin> set s \<Longrightarrow> line_take (s @ t) = (case line_take t of (a, b) \<Rightarrow> (s @ a, b))"
  by (induction s) (auto split: prod.splits)

lemma read_line_loop_spec:
  "all_bytes bufs \<Longrightarrow> line_take (buffered bufs) = (l, r) \<Longrightarrow> count + length l \<le> max_bytes \<Longrightarrow>
   \<exists>rest. read_line_loop max_bytes count out bufs = (Inr (ReadLine (count + length l), out @ l), rest) \<and>
     all_bytes rest \<and> buffered rest = r"
proof (induction max_bytes count out bufs arbitrary: l rule: read_line_loop.induct)
  case (1 max_bytes count out)
  then show ?case by (auto simp: all_bytes_def)
next
  case (2 max_bytes count out e bufs)
  then show ?case by (simp add: all_bytes_def)
next
  case (3 max_bytes count out available bufs)
  have rest: "all_bytes bufs" using "3.prems"(1) by (simp add: all_bytes_def)
  show ?case
  proof (cases "available = []")
    case True
    with 3 rest show ?thesis by simp
  next
    case False
    obtain taken left where t: "line_take available = (taken, left)" by force
    show ?thesis
    proof (cases "LF \<in> set available")
      case True
      with t "3.prems"(2) have "l = taken" "r = left @ buffered bufs"
        using line_take_first [OF t True, of "buffered bufs"] by simp_all
      with t True False "3.prems"(3) line_take_LF [OF t] rest show ?thesis
        by (auto simp: all_bytes_def)
    next
      case noLF: False
      then have taken: "taken = available" "left = []" using t line_take_no_LF by auto
      obtain l' r' where l': "line_take (buffered bufs) = (l', r')" by force
      with "3.prems"(2) noLF have eq: "l = available @ l'" "r = r'"
        using line_take_skip [OF noLF, of "buffered bufs"] by simp_all
      have nlast: "last available \<noteq> LF" using noLF False last_in_set by metis
      have "\<exists>rest. read_line_loop max_bytes (count + length taken) (out @ taken) bufs =
          (Inr (ReadLine (count + length taken + length l'), (out @ taken) @ l'), rest) \<and>
          all_bytes rest \<and> buffered rest = r"
        by (rule "3.IH"(2) [OF False t [symmetric]])
          (use nlast taken eq rest l' "3.prems"(3) in auto)
      with False t taken nlast eq "3.prems"(3) show ?thesis by auto
    qed
  qed
qed

lemma read_line_loop_too_long:
  "all_bytes bufs \<Longrightarrow> line_take (buffered bufs) = (l, r) \<Longrightarrow> max_bytes < count + length l \<Longrightarrow>
   \<exists>o' rest. count \<le> max_bytes \<longrightarrow> read_line_loop max_bytes count out bufs = (Inr (TooLong, o'), rest)"
proof (induction max_bytes count out bufs arbitrary: l rule: read_line_loop.induct)
  case (1 max_bytes count out)
  then show ?case by auto
next
  case (2 max_bytes count out e bufs)
  then show ?case by (simp add: all_bytes_def)
next
  case (3 max_bytes count out available bufs)
  have rest: "all_bytes bufs" using "3.prems"(1) by (simp add: all_bytes_def)
  show ?case
  proof (cases "available = []")
    case True
    with 3 rest show ?thesis by simp
  next
    case False
    obtain taken left where t: "line_take available = (taken, left)" by force
    show ?thesis
    proof (cases "LF \<in> set available \<or> max_bytes < count + length taken")
      case True
      have "max_bytes < count + length taken"
      proof (cases "LF \<in> set available")
        case True
        from line_take_first [OF t True, of "buffered bufs"] "3.prems"(2,3) show ?thesis by simp
      qed (use True in simp)
      with t False show ?thesis by auto
    next
      case small: False
      then have noLF: "LF \<notin> set available" by simp
      then have taken: "taken = available" "left = []" using t line_take_no_LF by auto
      obtain l' r' where l': "line_take (buffered bufs) = (l', r')" by force
      with "3.prems"(2) noLF have eq: "l = available @ l'" "r = r'"
        using line_take_skip [OF noLF, of "buffered bufs"] by simp_all
      have nlast: "last available \<noteq> LF" using noLF False last_in_set by metis
      have "\<exists>o' rest. count + length taken \<le> max_bytes \<longrightarrow>
          read_line_loop max_bytes (count + length taken) (out @ taken) bufs = (Inr (TooLong, o'), rest)"
        by (rule "3.IH"(2) [OF False t [symmetric]])
          (use nlast taken eq rest l' "3.prems"(3) small in auto)
      with False t taken nlast eq small show ?thesis by auto
    qed
  qed
qed

section \<open>Properties of the parser\<close>

text \<open>
  Reading a line does not depend on how the bytes arrived: however the stream is cut
  into buffers, a line within the bound is read exactly, up to and with its line feed, and
  leaves exactly the bytes after it; a longer one is refused.
\<close>

theorem read_bounded_line_any_buffers:
  assumes "all_bytes bufs" and "line_take (buffered bufs) = (line, after)"
  shows "if length line \<le> max_bytes
    then \<exists>rest. read_bounded_line max_bytes bufs = (Inr (ReadLine (length line), from_utf8_lossy line), rest) \<and>
           all_bytes rest \<and> buffered rest = after
    else \<exists>out rest. read_bounded_line max_bytes bufs = (Inr (TooLong, out), rest)"
proof (cases "length line \<le> max_bytes")
  case True
  with read_line_loop_spec [OF assms, of 0 max_bytes "[]"] show ?thesis
    by (auto simp: read_bounded_line_def)
next
  case False
  with read_line_loop_too_long [OF assms, of max_bytes 0 "[]"] show ?thesis
    by (auto simp: read_bounded_line_def)
qed

theorem read_bounded_line_any_buffers_witness:
  "\<exists>rest. read_bounded_line 8 [Bytes ''GE'', Bytes (''T'' @ [LF] @ ''h''), Bytes ''i''] =
      (Inr (ReadLine 4, from_utf8_lossy (''GET'' @ [LF])), rest) \<and> buffered rest = ''hi''"
  using read_bounded_line_any_buffers [of "[Bytes ''GE'', Bytes (''T'' @ [LF] @ ''h''), Bytes ''i'']" "''GET'' @ [LF]" "''hi''" 8]
  by (auto simp: all_bytes_def)

text \<open>
  Decoding is the inverse of encoding: any valid UTF-8 text a client percent-encodes
  arrives as it was.
\<close>

theorem percent_roundtrip:
  assumes "utf8_valid s"
  shows "percent_decode (percent_encode s) = s"
  by (simp add: percent_decode_def percent_bytes_encode from_utf8_lossy_valid [OF assms])

theorem percent_roundtrip_witness:
  "percent_decode (percent_encode ([CHR 0xC3, CHR 0xA9] @ ''=50%+&'')) = [CHR 0xC3, CHR 0xA9] @ ''=50%+&''"
  by (rule percent_roundtrip)
    (simp add: utf8_valid_def utf8_width_def in_range_def second_ok_def)

end
