(* ===== verification/Config.thy ===== *)
theory Config
  imports Text
begin

text \<open>
  Configuration (\<^verbatim>\<open>src/src/config.rs\<close>): reading a setting from the environment
  or the TOML file, assembling \<open>OperatorConfig\<close>, and validating it. The process
  environment is a function from names to what \<open>env::var\<close> answers; a parsed TOML
  document is read through the accessors of the TOML library, which are arguments
  (\<open>Toml\<close>). Durations are milliseconds, \<open>usize\<close> has 64 bits, and an error is its
  outermost message.
\<close>

section \<open>The settings\<close>

record QueryLimits =
  concurrency :: nat
  timeout_secs :: nat
  memory_limit :: string

datatype TlsMode = TlsFile | EphemeralSelfSigned

definition TlsMode_parse :: "string \<Rightarrow> string + TlsMode" where
  "TlsMode_parse v =
     (if trim v = ''file'' then Inr TlsFile
      else if trim v = ''ephemeral_self_signed'' then Inr EphemeralSelfSigned
      else Inl ''TLS mode must be file or ephemeral_self_signed'')"

record TlsServerConfig =
  tls_enabled :: bool
  tls_mode :: TlsMode
  cert_file :: "string option"
  key_file :: "string option"
  backend_bind :: string

record OperatorConfig =
  bind :: string
  tls :: TlsServerConfig
  api_key :: string
  admin_api_key :: string
  duckdb_path :: string
  local_storage_dir :: string
  duckdb_extension_dir :: "string option"
  postgres_dsn :: "string option"
  ducklake_attach_uri :: "string option"
  ducklake_catalog_path :: "string option"
  ducklake_data_path :: "string option"
  ducklake_quack_token :: "string option"
  ducklake_quack_insecure_tls :: bool
  max_body_bytes :: nat
  duckdb_write_memory_limit :: string
  query_interactive :: QueryLimits
  query_admission_wait :: nat
  cheap_query_admission_capacity :: nat
  max_concurrent_connections :: nat
  socket_read_timeout :: nat
  socket_write_timeout :: nat

record Config = operator :: OperatorConfig

section \<open>Reading the environment\<close>

datatype EnvVar = Present string | NotPresent | NotUnicode

type_synonym environment = "string \<Rightarrow> EnvVar"

definition trimmed_non_empty :: "string \<Rightarrow> string option" where
  "trimmed_non_empty v = (if trim v \<noteq> [] then Some (trim v) else None)"

definition env_string :: "environment \<Rightarrow> string \<Rightarrow> string + string option" where
  "env_string env name =
     (case env name of
        Present v \<Rightarrow> Inr (Some v)
      | NotPresent \<Rightarrow> Inr None
      | NotUnicode \<Rightarrow> Inl (''read '' @ name))"

definition env_optional_string :: "environment \<Rightarrow> string \<Rightarrow> string + string option option" where
  "env_optional_string env name =
     (case env name of
        Present v \<Rightarrow> Inr (Some (trimmed_non_empty v))
      | NotPresent \<Rightarrow> Inr None
      | NotUnicode \<Rightarrow> Inl (''read '' @ name))"

definition env_usize :: "environment \<Rightarrow> string \<Rightarrow> string + nat option" where
  "env_usize env name =
     (case env name of
        Present v \<Rightarrow>
          map_ok Some (ok_or (parse_unsigned U64_MAX v) (name @ '' must be an unsigned integer''))
      | NotPresent \<Rightarrow> Inr None
      | NotUnicode \<Rightarrow> Inl (''read '' @ name))"

definition env_bool :: "environment \<Rightarrow> string \<Rightarrow> string + bool option" where
  "env_bool env name =
     (case env name of
        Present v \<Rightarrow>
          (let s = to_ascii_lowercase (trim v) in
           if s \<in> set [''1'', ''true'', ''yes''] then Inr (Some True)
           else if s \<in> set [''0'', ''false'', ''no''] then Inr (Some False)
           else Inl (name @ '' must be a boolean: true/false, yes/no, or 1/0''))
      | NotPresent \<Rightarrow> Inr None
      | NotUnicode \<Rightarrow> Inl (''read '' @ name))"

section \<open>Reading the file\<close>

text \<open>
  The TOML library's accessors on an item: a table's member, and the text, integer or
  boolean an item holds. A document is read like a table.
\<close>

record 'i Toml =
  table_get :: "'i \<Rightarrow> string \<Rightarrow> 'i option"
  as_str :: "'i \<Rightarrow> string option"
  as_integer :: "'i \<Rightarrow> int option"
  as_bool :: "'i \<Rightarrow> bool option"

text \<open>\<open>FileConfig\<close>: the document, if there is one, and its accessors.\<close>

record 'i FileConfig =
  doc :: "'i option"
  toml :: "'i Toml"

fun item_at :: "'i Toml \<Rightarrow> 'i \<Rightarrow> string list \<Rightarrow> 'i option" where
  "item_at t i [] = Some i"
| "item_at t i (k # ks) = (case table_get t i k of None \<Rightarrow> None | Some j \<Rightarrow> item_at t j ks)"

definition file_item :: "'i FileConfig \<Rightarrow> string list \<Rightarrow> 'i option" where
  "file_item file path =
     (if path = [] then None
      else Option.bind (doc file) (\<lambda>root. item_at (toml file) root path))"

definition file_read ::
  "'i FileConfig \<Rightarrow> string list \<Rightarrow> ('i \<Rightarrow> 'a option) \<Rightarrow> string \<Rightarrow> string + 'a option" where
  "file_read file path conv what =
     (case file_item file path of
        None \<Rightarrow> Inr None
      | Some i \<Rightarrow> map_ok Some (ok_or (conv i) (join ''.'' path @ what)))"

definition file_string :: "'i FileConfig \<Rightarrow> string list \<Rightarrow> string + string option" where
  "file_string file path = file_read file path (as_str (toml file)) '' must be a string''"

definition file_optional_string :: "'i FileConfig \<Rightarrow> string list \<Rightarrow> string + string option" where
  "file_optional_string file path =
     map_ok (\<lambda>v. Option.bind v trimmed_non_empty) (file_string file path)"

definition file_usize :: "'i FileConfig \<Rightarrow> string list \<Rightarrow> string + nat option" where
  "file_usize file path =
     file_read file path
       (\<lambda>i. Option.bind (as_integer (toml file) i) (\<lambda>n. if 0 \<le> n \<and> nat n \<le> U64_MAX then Some (nat n) else None))
       '' must be an unsigned integer''"

definition file_bool :: "'i FileConfig \<Rightarrow> string list \<Rightarrow> string + bool option" where
  "file_bool file path = file_read file path (as_bool (toml file)) '' must be a boolean''"

section \<open>One setting from both\<close>

text \<open>\<open>env(..)?.or(file(..)?)\<close>: both are read, the environment's value is preferred.\<close>

definition either :: "string + 'a option \<Rightarrow> string + 'a option \<Rightarrow> string + 'a option" where
  "either e f = and_then e (\<lambda>x. and_then f (\<lambda>y. Inr (case x of Some a \<Rightarrow> Some a | None \<Rightarrow> y)))"

definition or_default :: "string + 'a option \<Rightarrow> 'a \<Rightarrow> string + 'a" where
  "or_default r d = map_ok (\<lambda>x. case x of Some a \<Rightarrow> a | None \<Rightarrow> d) r"

text \<open>
  \<open>match env_optional(..)? { Some(value) => value, None => file.optional(..)? }\<close>: a
  variable that is set decides, even when it is blank; only then is the file not read.
\<close>

definition optional_setting ::
  "string + 'a option option \<Rightarrow> string + 'a option \<Rightarrow> string + 'a option" where
  "optional_setting e f = and_then e (\<lambda>x. case x of Some v \<Rightarrow> Inr v | None \<Rightarrow> f)"

definition reject_removed_bool ::
  "environment \<Rightarrow> string \<Rightarrow> 'i FileConfig \<Rightarrow> string list \<Rightarrow> string \<Rightarrow> string + unit" where
  "reject_removed_bool env env_name file file_path msg =
     and_then (or_default (either (env_bool env env_name) (file_bool file file_path)) False)
       (\<lambda>b. if b then Inl msg else Inr ())"

definition duration_ms_or_secs ::
  "environment \<Rightarrow> 'i FileConfig \<Rightarrow> string list \<Rightarrow> string list \<Rightarrow> string \<Rightarrow> string \<Rightarrow> nat \<Rightarrow> string + nat" where
  "duration_ms_or_secs env file file_ms file_secs env_ms env_secs default_secs =
     and_then (env_usize env env_ms) (\<lambda>v. case v of Some ms \<Rightarrow> Inr ms | None \<Rightarrow>
     and_then (env_usize env env_secs) (\<lambda>v. case v of Some s \<Rightarrow> Inr (1000 * s) | None \<Rightarrow>
     and_then (file_usize file file_ms) (\<lambda>v. case v of Some ms \<Rightarrow> Inr ms | None \<Rightarrow>
     and_then (file_usize file file_secs) (\<lambda>v. case v of Some s \<Rightarrow> Inr (1000 * s) | None \<Rightarrow>
     Inr (1000 * default_secs)))))"

definition path_join :: "string \<Rightarrow> string \<Rightarrow> string" where
  "path_join dir name =
     (if dir = [] then name else if last dir = CHR ''/'' then dir @ name else dir @ ''/'' @ name)"

section \<open>Assembling the configuration\<close>

definition OperatorConfig_from_env ::
  "environment \<Rightarrow> 'i FileConfig \<Rightarrow> string \<Rightarrow> string + OperatorConfig" where
  "OperatorConfig_from_env env file data_dir =
     and_then (reject_removed_bool env ''CANARDSTACK_GRPC_ENABLED'' file [''grpc'', ''enabled'']
        ''CANARDSTACK_GRPC_ENABLED is no longer supported; canardstack is query-only'') (\<lambda>_.
     and_then (reject_removed_bool env ''CANARDSTACK_LOCAL_CATALOG_ENABLED'' file [''ducklake'', ''local_catalog_enabled'']
        ''CANARDSTACK_LOCAL_CATALOG_ENABLED is no longer supported; use an external DuckDB catalog/writer'') (\<lambda>_.
     and_then (or_default (either (env_usize env ''CANARDSTACK_QUERY_CONCURRENCY'') (file_usize file [''query'', ''concurrency''])) 4) (\<lambda>conc.
     and_then (or_default (either (env_usize env ''CANARDSTACK_QUERY_TIMEOUT_SECS'') (file_usize file [''query'', ''timeout_secs''])) 15) (\<lambda>qtimeout.
     and_then (or_default (either (env_string env ''CANARDSTACK_QUERY_MEMORY_LIMIT'') (file_string file [''query'', ''memory_limit''])) ''1GiB'') (\<lambda>qmem.
     and_then (either (env_string env ''CANARDSTACK_TLS_CERT_FILE'') (file_string file [''server'', ''tls'', ''cert_file''])) (\<lambda>cert.
     and_then (either (env_string env ''CANARDSTACK_TLS_KEY_FILE'') (file_string file [''server'', ''tls'', ''key_file''])) (\<lambda>key.
     and_then (either (env_string env ''CANARDSTACK_TLS_MODE'') (file_string file [''server'', ''tls'', ''mode''])) (\<lambda>mode_text.
     and_then (case mode_text of Some v \<Rightarrow> TlsMode_parse v | None \<Rightarrow> Inr TlsFile) (\<lambda>mode.
     and_then (or_default (either (env_string env ''CANARDSTACK_BIND'') (file_string file [''server'', ''bind''])) ''127.0.0.1:9090'') (\<lambda>addr.
     and_then (or_default (either (env_bool env ''CANARDSTACK_TLS_ENABLED'') (file_bool file [''server'', ''tls'', ''enabled''])) False) (\<lambda>enabled.
     and_then (or_default (either (env_string env ''CANARDSTACK_TLS_BACKEND_BIND'') (file_string file [''server'', ''tls'', ''backend_bind''])) ''127.0.0.1:4319'') (\<lambda>backend.
     and_then (or_default (either (env_string env ''CANARDSTACK_API_KEY'') (file_string file [''auth'', ''api_key''])) ''dev-canardstack-key'') (\<lambda>apikey.
     and_then (or_default (either (env_string env ''CANARDSTACK_ADMIN_API_KEY'') (file_string file [''auth'', ''admin_api_key''])) ''dev-canardstack-admin-key'') (\<lambda>adminkey.
     and_then (optional_setting (env_optional_string env ''CANARDSTACK_DUCKDB_EXTENSION_DIR'') (file_optional_string file [''paths'', ''duckdb_extension_dir''])) (\<lambda>extdir.
     and_then (optional_setting (env_optional_string env ''CANARDSTACK_POSTGRES_DSN'') (file_optional_string file [''ducklake'', ''postgres_dsn''])) (\<lambda>dsn.
     and_then (optional_setting (env_optional_string env ''CANARDSTACK_DUCKLAKE_ATTACH_URI'') (file_optional_string file [''ducklake'', ''attach_uri''])) (\<lambda>attach.
     and_then (optional_setting (env_optional_string env ''CANARDSTACK_DUCKLAKE_CATALOG_PATH'') (file_optional_string file [''ducklake'', ''catalog_path''])) (\<lambda>catalog.
     and_then (optional_setting (env_optional_string env ''CANARDSTACK_DUCKLAKE_DATA_PATH'') (file_optional_string file [''ducklake'', ''data_path''])) (\<lambda>data_path.
     and_then (optional_setting (env_optional_string env ''CANARDSTACK_DUCKLAKE_QUACK_TOKEN'') (file_optional_string file [''ducklake'', ''quack_token''])) (\<lambda>token.
     and_then (or_default (either (env_bool env ''CANARDSTACK_DUCKLAKE_QUACK_INSECURE_TLS'') (file_bool file [''ducklake'', ''quack_insecure_tls''])) False) (\<lambda>insecure.
     and_then (or_default (either (env_usize env ''CANARDSTACK_MAX_BODY_BYTES'') (file_usize file [''server'', ''max_body_bytes''])) (8 * 1024 * 1024)) (\<lambda>max_body.
     and_then (or_default (either (env_string env ''CANARDSTACK_DUCKDB_MEMORY_LIMIT'') (file_string file [''duckdb'', ''memory_limit''])) ''1GiB'') (\<lambda>write_mem.
     and_then (duration_ms_or_secs env file [''query'', ''admission_wait_ms''] [''query'', ''admission_wait_secs'']
        ''CANARDSTACK_QUERY_ADMISSION_WAIT_MS'' ''CANARDSTACK_QUERY_ADMISSION_WAIT_SECS'' 1) (\<lambda>wait.
     and_then (or_default (either (env_usize env ''CANARDSTACK_CHEAP_QUERY_ADMISSION_CAPACITY'') (file_usize file [''admission'', ''cheap_query_capacity''])) 1) (\<lambda>cheap.
     and_then (or_default (either (env_usize env ''CANARDSTACK_MAX_CONNECTIONS'') (file_usize file [''server'', ''max_connections''])) 1024) (\<lambda>conns.
     and_then (or_default (either (env_usize env ''CANARDSTACK_SOCKET_READ_TIMEOUT_SECS'') (file_usize file [''server'', ''socket_read_timeout_secs''])) 30) (\<lambda>rd.
     and_then (or_default (either (env_usize env ''CANARDSTACK_SOCKET_WRITE_TIMEOUT_SECS'') (file_usize file [''server'', ''socket_write_timeout_secs''])) 30) (\<lambda>wr.
     Inr \<lparr>bind = addr,
          tls = \<lparr>tls_enabled = enabled, tls_mode = mode, cert_file = cert, key_file = key,
                 backend_bind = backend\<rparr>,
          api_key = apikey, admin_api_key = adminkey,
          duckdb_path = path_join data_dir ''canardstack.duckdb'',
          local_storage_dir = path_join data_dir ''storage'',
          duckdb_extension_dir = extdir, postgres_dsn = dsn, ducklake_attach_uri = attach,
          ducklake_catalog_path = catalog, ducklake_data_path = data_path,
          ducklake_quack_token = token, ducklake_quack_insecure_tls = insecure,
          max_body_bytes = max_body, duckdb_write_memory_limit = write_mem,
          query_interactive = \<lparr>concurrency = conc, timeout_secs = qtimeout, memory_limit = qmem\<rparr>,
          query_admission_wait = wait, cheap_query_admission_capacity = cheap,
          max_concurrent_connections = conns,
          socket_read_timeout = 1000 * rd, socket_write_timeout = 1000 * wr\<rparr>))))))))))))))))))))))))))))"

definition Config_from_env :: "environment \<Rightarrow> 'i FileConfig \<Rightarrow> string + Config" where
  "Config_from_env env file =
     and_then (or_default (either (env_string env ''CANARDSTACK_DATA_DIR'') (file_string file [''paths'', ''data_dir'']))
                 ''.canardstack'')
       (\<lambda>data_dir. map_ok (\<lambda>op. \<lparr>operator = op\<rparr>) (OperatorConfig_from_env env file data_dir))"

text \<open>
  \<^verbatim>\<open>FileConfig::load\<close>: which file, if any. Whether the default file exists, and reading
  and parsing a file, are the file system's and the TOML library's.
\<close>

definition config_file_path :: "environment \<Rightarrow> bool \<Rightarrow> string + string option" where
  "config_file_path env default_exists =
     map_ok (\<lambda>v. case v of
               Some p \<Rightarrow> p
             | None \<Rightarrow> if default_exists then Some ''config.toml'' else None)
       (env_optional_string env ''CANARDSTACK_CONFIG'')"

definition FileConfig_load ::
  "environment \<Rightarrow> bool \<Rightarrow> (string \<Rightarrow> string + 'i) \<Rightarrow> 'i Toml \<Rightarrow> string + 'i FileConfig" where
  "FileConfig_load env default_exists read_doc t =
     and_then (config_file_path env default_exists)
       (\<lambda>path. case path of
          None \<Rightarrow> Inr \<lparr>doc = None, toml = t\<rparr>
        | Some p \<Rightarrow> map_ok (\<lambda>d. \<lparr>doc = Some d, toml = t\<rparr>) (read_doc p))"

definition OperatorConfig_test :: "string \<Rightarrow> string \<Rightarrow> OperatorConfig" where
  "OperatorConfig_test db dir =
     \<lparr>bind = ''127.0.0.1:0'',
      tls = \<lparr>tls_enabled = False, tls_mode = TlsFile, cert_file = None, key_file = None,
             backend_bind = ''127.0.0.1:0''\<rparr>,
      api_key = ''test-key'', admin_api_key = ''test-admin-key'',
      duckdb_path = db, local_storage_dir = dir,
      duckdb_extension_dir = None, postgres_dsn = None, ducklake_attach_uri = None,
      ducklake_catalog_path = None, ducklake_data_path = None,
      ducklake_quack_token = None, ducklake_quack_insecure_tls = False,
      max_body_bytes = 8 * 1024 * 1024, duckdb_write_memory_limit = ''512MiB'',
      query_interactive = \<lparr>concurrency = 4, timeout_secs = 15, memory_limit = ''512MiB''\<rparr>,
      query_admission_wait = 1000, cheap_query_admission_capacity = 1,
      max_concurrent_connections = 64,
      socket_read_timeout = 5000, socket_write_timeout = 5000\<rparr>"

section \<open>Validation\<close>

definition uses_quack :: "OperatorConfig \<Rightarrow> bool" where
  "uses_quack c =
     (case ducklake_attach_uri c of
        Some uri \<Rightarrow> starts_with (trim uri) ''ducklake:quack:''
      | None \<Rightarrow> False)"

definition token_missing :: "OperatorConfig \<Rightarrow> bool" where
  "token_missing c =
     (case ducklake_quack_token c of Some t \<Rightarrow> trim t = [] | None \<Rightarrow> True)"

definition ensure :: "bool \<Rightarrow> string \<Rightarrow> string + unit" where
  "ensure ok msg = (if ok then Inr () else Inl msg)"

definition validate_tls :: "OperatorConfig \<Rightarrow> string + unit" where
  "validate_tls c =
     (if tls_enabled (tls c) then
        and_then (ensure (trim (backend_bind (tls c)) \<noteq> [])
          ''CANARDSTACK_TLS_BACKEND_BIND must not be empty when TLS is enabled'') (\<lambda>_.
        and_then (ensure (backend_bind (tls c) \<noteq> bind c)
          ''CANARDSTACK_TLS_BACKEND_BIND must differ from CANARDSTACK_BIND when TLS is enabled'') (\<lambda>_.
        if tls_mode (tls c) = TlsFile then
          and_then (ensure (cert_file (tls c) \<noteq> None)
            ''CANARDSTACK_TLS_CERT_FILE must be set when CANARDSTACK_TLS_ENABLED=true and CANARDSTACK_TLS_MODE=file'') (\<lambda>_.
          ensure (key_file (tls c) \<noteq> None)
            ''CANARDSTACK_TLS_KEY_FILE must be set when CANARDSTACK_TLS_ENABLED=true and CANARDSTACK_TLS_MODE=file'')
        else Inr ()))
      else Inr ())"

definition validate_operator :: "OperatorConfig \<Rightarrow> string + unit" where
  "validate_operator c =
     and_then (ensure (trim (api_key c) \<noteq> []) ''CANARDSTACK_API_KEY must not be empty'') (\<lambda>_.
     and_then (ensure (trim (admin_api_key c) \<noteq> []) ''CANARDSTACK_ADMIN_API_KEY must not be empty'') (\<lambda>_.
     and_then (ensure (api_key c \<noteq> admin_api_key c)
       ''CANARDSTACK_API_KEY and CANARDSTACK_ADMIN_API_KEY must differ; reusing a single key collapses the admin authorization gate'') (\<lambda>_.
     and_then (validate_tls c) (\<lambda>_.
     and_then (ensure (max_body_bytes c \<noteq> 0) ''CANARDSTACK_MAX_BODY_BYTES must be > 0'') (\<lambda>_.
     and_then (ensure (trim (duckdb_write_memory_limit c) \<noteq> []) ''CANARDSTACK_DUCKDB_MEMORY_LIMIT must not be empty'') (\<lambda>_.
     and_then (ensure (\<not> (uses_quack c \<and> token_missing c))
       ''CANARDSTACK_DUCKLAKE_QUACK_TOKEN must be set when CANARDSTACK_DUCKLAKE_ATTACH_URI uses ducklake:quack:'') (\<lambda>_.
     and_then (ensure (\<not> (ducklake_quack_insecure_tls c \<and> \<not> uses_quack c))
       ''CANARDSTACK_DUCKLAKE_QUACK_INSECURE_TLS=true has no effect unless CANARDSTACK_DUCKLAKE_ATTACH_URI uses ducklake:quack:; unset one of them'') (\<lambda>_.
     and_then (ensure (max_concurrent_connections c \<noteq> 0) ''CANARDSTACK_MAX_CONNECTIONS must be > 0'') (\<lambda>_.
     and_then (ensure (concurrency (query_interactive c) \<noteq> 0) ''CANARDSTACK_QUERY_CONCURRENCY must be > 0'') (\<lambda>_.
     and_then (ensure (cheap_query_admission_capacity c \<noteq> 0) ''CANARDSTACK_CHEAP_QUERY_ADMISSION_CAPACITY must be > 0'') (\<lambda>_.
     and_then (ensure (\<not> concurrency (query_interactive c) \<le> cheap_query_admission_capacity c)
       ''CANARDSTACK_QUERY_CONCURRENCY must leave at least one heavy query slot after cheap-query admission reservations'') (\<lambda>_.
     and_then (ensure (timeout_secs (query_interactive c) \<noteq> 0) ''CANARDSTACK_QUERY_TIMEOUT_SECS must be > 0'') (\<lambda>_.
     ensure (\<not> (socket_read_timeout c = 0 \<or> socket_write_timeout c = 0)) ''socket timeouts must be > 0'')))))))))))))"

definition Config_validate :: "Config \<Rightarrow> string + unit" where
  "Config_validate c = validate_operator (operator c)"

section \<open>Reading settings\<close>

lemma ensure_Inr [result_simps]: "ensure ok msg = Inr u \<longleftrightarrow> ok"
  by (simp add: ensure_def)

lemma env_string_Inr [result_simps]:
  "env_string env name = Inr x \<longleftrightarrow>
     (env name = NotPresent \<and> x = None) \<or> (\<exists>v. env name = Present v \<and> x = Some v)"
  by (cases "env name") (auto simp: env_string_def)

lemma either_Inr [result_simps]:
  "either e f = Inr z \<longleftrightarrow>
     (\<exists>x y. e = Inr x \<and> f = Inr y \<and> z = (case x of Some a \<Rightarrow> Some a | None \<Rightarrow> y))"
  by (auto simp: either_def result_simps)

lemma or_default_Inr [result_simps]:
  "or_default r d = Inr a \<longleftrightarrow> r = Inr (Some a) \<or> (r = Inr None \<and> a = d)"
  by (cases r) (auto simp: or_default_def split: option.splits)

text \<open>A setting with a default: the environment's value, else the file's, else the default.\<close>

definition setting_value :: "environment \<Rightarrow> string \<Rightarrow> string + string option \<Rightarrow> string \<Rightarrow> string \<Rightarrow> bool" where
  "setting_value env name f d v =
     (case env name of
        Present w \<Rightarrow> v = w
      | NotPresent \<Rightarrow> f = Inr (Some v) \<or> (f = Inr None \<and> v = d)
      | NotUnicode \<Rightarrow> False)"

lemma setting_valueI:
  "or_default (either (env_string env name) f) d = Inr v \<Longrightarrow> setting_value env name f d v"
  by (cases "env name"; cases f)
    (auto simp: env_string_def either_def or_default_def setting_value_def split: option.splits)

lemma from_env_keys:
  assumes "OperatorConfig_from_env env file dir = Inr c"
  shows "setting_value env ''CANARDSTACK_API_KEY'' (file_string file [''auth'', ''api_key''])
           ''dev-canardstack-key'' (api_key c) \<and>
         setting_value env ''CANARDSTACK_ADMIN_API_KEY'' (file_string file [''auth'', ''admin_api_key''])
           ''dev-canardstack-admin-key'' (admin_api_key c)"
  using assms unfolding OperatorConfig_from_env_def and_then_Inr_iff
  by (elim exE conjE) (auto intro!: setting_valueI)

lemma env_usize_bad:
  "env name = Present v \<Longrightarrow> parse_unsigned U64_MAX v = None \<Longrightarrow>
   env_usize env name = Inl (name @ '' must be an unsigned integer'')"
  by (simp add: env_usize_def)

lemma validate_operator_iff:
  "validate_operator c = Inr u \<longleftrightarrow>
     trim (api_key c) \<noteq> [] \<and> trim (admin_api_key c) \<noteq> [] \<and> api_key c \<noteq> admin_api_key c \<and>
     is_ok (validate_tls c) \<and> max_body_bytes c \<noteq> 0 \<and> trim (duckdb_write_memory_limit c) \<noteq> [] \<and>
     \<not> (uses_quack c \<and> token_missing c) \<and> \<not> (ducklake_quack_insecure_tls c \<and> \<not> uses_quack c) \<and>
     max_concurrent_connections c \<noteq> 0 \<and> concurrency (query_interactive c) \<noteq> 0 \<and>
     cheap_query_admission_capacity c \<noteq> 0 \<and>
     cheap_query_admission_capacity c < concurrency (query_interactive c) \<and>
     timeout_secs (query_interactive c) \<noteq> 0 \<and> socket_read_timeout c \<noteq> 0 \<and> socket_write_timeout c \<noteq> 0"
  unfolding validate_operator_def and_then_Inr_iff ensure_Inr is_ok_iff by auto

section \<open>Properties of the configuration\<close>

text \<open>
  With nothing configured, no variable set and no file, the program gets a
  configuration, and that configuration is accepted.
\<close>

theorem default_config_valid:
  "\<exists>c. Config_from_env (\<lambda>_. NotPresent) \<lparr>doc = None, toml = t\<rparr> = Inr c \<and> Config_validate c = Inr () \<and>
     api_key (operator c) = ''dev-canardstack-key'' \<and> duckdb_path (operator c) = ''.canardstack/canardstack.duckdb''"
proof -
  let ?file = "\<lparr>doc = None, toml = t\<rparr>"
  have f: "file_string ?file p = Inr None" "file_usize ?file p = Inr None"
    "file_bool ?file p = Inr None" "file_optional_string ?file p = Inr None" for p
    by (simp_all add: file_string_def file_usize_def file_bool_def file_optional_string_def
        file_read_def file_item_def)
  have e: "env_string (\<lambda>_. NotPresent) n = Inr None" "env_usize (\<lambda>_. NotPresent) n = Inr None"
    "env_bool (\<lambda>_. NotPresent) n = Inr None" "env_optional_string (\<lambda>_. NotPresent) n = Inr None" for n
    by (simp_all add: env_string_def env_usize_def env_bool_def env_optional_string_def)
  have trims: "trim ''dev-canardstack-key'' \<noteq> []" "trim ''dev-canardstack-admin-key'' \<noteq> []" "trim ''1GiB'' \<noteq> []"
    by (simp_all add: trim_plain plain_char_def)
  show ?thesis
    by (simp add: Config_from_env_def OperatorConfig_from_env_def reject_removed_bool_def either_def
        or_default_def optional_setting_def duration_ms_or_secs_def f e path_join_def Config_validate_def
        validate_operator_iff validate_tls_def uses_quack_def trims)
qed

text \<open>
  The two keys come from where they should: a key that is set in the environment is
  that value whatever the file says; a key that is not set there is the file's; only a key
  that is set in neither is the built-in one.
\<close>

theorem keys_precedence:
  assumes "Config_from_env env file = Inr c"
  shows "setting_value env ''CANARDSTACK_API_KEY'' (file_string file [''auth'', ''api_key''])
           ''dev-canardstack-key'' (api_key (operator c)) \<and>
         setting_value env ''CANARDSTACK_ADMIN_API_KEY'' (file_string file [''auth'', ''admin_api_key''])
           ''dev-canardstack-admin-key'' (admin_api_key (operator c))"
proof -
  from assms obtain dir op where "OperatorConfig_from_env env file dir = Inr op" "operator c = op"
    by (auto simp: Config_from_env_def and_then_Inr_iff map_ok_Inr_iff)
  with from_env_keys show ?thesis by blast
qed

theorem keys_precedence_witness:
  "\<exists>c. Config_from_env ((\<lambda>_. NotPresent)(''CANARDSTACK_API_KEY'' := Present ''k''))
         \<lparr>doc = None, toml = \<lparr>table_get = \<lambda>i _. Some i, as_str = Some, as_integer = \<lambda>_. None, as_bool = \<lambda>_. None\<rparr>\<rparr> = Inr c \<and>
       api_key (operator c) = ''k'' \<and> admin_api_key (operator c) = ''dev-canardstack-admin-key''"
proof -
  let ?env = "(\<lambda>_. NotPresent)(''CANARDSTACK_API_KEY'' := Present ''k'')"
  let ?t = "\<lparr>table_get = \<lambda>i _. Some i, as_str = Some, as_integer = \<lambda>_. None, as_bool = \<lambda>_. None\<rparr> :: string Toml"
  let ?file = "\<lparr>doc = None, toml = ?t\<rparr>"
  have f: "file_string ?file p = Inr None" "file_usize ?file p = Inr None"
    "file_bool ?file p = Inr None" "file_optional_string ?file p = Inr None" for p
    by (simp_all add: file_string_def file_usize_def file_bool_def file_optional_string_def
        file_read_def file_item_def)
  have "is_ok (Config_from_env ?env ?file)"
    by (simp add: Config_from_env_def OperatorConfig_from_env_def reject_removed_bool_def either_def
        or_default_def optional_setting_def duration_ms_or_secs_def f env_string_def env_usize_def
        env_bool_def env_optional_string_def)
  then obtain c where c: "Config_from_env ?env ?file = Inr c" by (auto simp: is_ok_iff)
  from keys_precedence [OF c] have "api_key (operator c) = ''k''"
    "admin_api_key (operator c) = ''dev-canardstack-admin-key''"
    by (simp_all add: setting_value_def f)
  with c show ?thesis by blast
qed

text \<open>
  Validation accepts exactly the configurations that are safe to run: two nonblank,
  different keys, a usable TLS section, a token whenever the catalog needs one, and at
  least one slot for heavy queries beside the cheap ones.
\<close>

theorem validate_exact:
  "Config_validate c = Inr () \<longleftrightarrow>
   (let o' = operator c in
     trim (api_key o') \<noteq> [] \<and> trim (admin_api_key o') \<noteq> [] \<and> api_key o' \<noteq> admin_api_key o' \<and>
     (if tls_enabled (tls o')
      then trim (backend_bind (tls o')) \<noteq> [] \<and> backend_bind (tls o') \<noteq> bind o' \<and>
           (if tls_mode (tls o') = TlsFile then cert_file (tls o') \<noteq> None \<and> key_file (tls o') \<noteq> None else True)
      else True) \<and>
     max_body_bytes o' \<noteq> 0 \<and> trim (duckdb_write_memory_limit o') \<noteq> [] \<and>
     \<not> (uses_quack o' \<and> token_missing o') \<and> \<not> (ducklake_quack_insecure_tls o' \<and> \<not> uses_quack o') \<and>
     max_concurrent_connections o' \<noteq> 0 \<and> cheap_query_admission_capacity o' \<noteq> 0 \<and>
     cheap_query_admission_capacity o' < concurrency (query_interactive o') \<and>
     timeout_secs (query_interactive o') \<noteq> 0 \<and> socket_read_timeout o' \<noteq> 0 \<and> socket_write_timeout o' \<noteq> 0)"
proof -
  have tls: "is_ok (validate_tls o') \<longleftrightarrow>
      (tls_enabled (tls o') \<longrightarrow>
        trim (backend_bind (tls o')) \<noteq> [] \<and> backend_bind (tls o') \<noteq> bind o' \<and>
        (tls_mode (tls o') = TlsFile \<longrightarrow> cert_file (tls o') \<noteq> None \<and> key_file (tls o') \<noteq> None))" for o'
    by (auto simp: validate_tls_def is_ok_iff result_simps)
  show ?thesis
    unfolding Config_validate_def validate_operator_iff tls Let_def by auto
qed

end
