(* ===== verification/Validation.thy ===== *)
theory Validation
  imports Api_Error Config "HOL-Library.Word"
begin

text \<open>
  Request validation (\<^verbatim>\<open>src/src/validation.rs\<close>) and the authenticated wrapper of
  \<^verbatim>\<open>src/src/http/auth.rs\<close>: API keys, time ranges and limits. Headers are an
  association list from lower-case names, as the server stores them; times are
  nanoseconds.
\<close>

unbundle bit_operations_syntax

section \<open>Keys\<close>

definition as_bytes :: "string \<Rightarrow> 8 word list" where
  "as_bytes s = map (\<lambda>c. word_of_nat (of_char c)) s"

fun byte_diff :: "8 word \<Rightarrow> 8 word list \<Rightarrow> 8 word list \<Rightarrow> 8 word" where
  "byte_diff diff (x # xs) (y # ys) = byte_diff (diff OR (x XOR y)) xs ys"
| "byte_diff diff _ _ = diff"

definition constant_time_eq :: "8 word list \<Rightarrow> 8 word list \<Rightarrow> bool" where
  "constant_time_eq a b = (if length a \<noteq> length b then False else byte_diff 0 a b = 0)"

type_synonym headers = "(string \<times> string) list"

definition supplied_key :: "headers \<Rightarrow> string option" where
  "supplied_key headers =
     (case Option.bind (map_of headers ''authorization'') (strip_prefix ''Bearer '') of
        Some k \<Rightarrow> Some k
      | None \<Rightarrow> map_of headers ''x-api-key'')"

definition validate_api_key :: "headers \<Rightarrow> Config \<Rightarrow> bool \<Rightarrow> unit api_result" where
  "validate_api_key headers config admin =
     (let expected = (if admin then admin_api_key (operator config) else api_key (operator config)) in
      if expected = []
      then Inl (ApiError_new 403 ''bad_api_key'' ''supplied API key is not authorized'')
      else case supplied_key headers of
        None \<Rightarrow> Inl (ApiError_new 401 ''missing_api_key''
                  ''missing Authorization bearer token or x-api-key'')
      | Some v \<Rightarrow>
          if constant_time_eq (as_bytes v) (as_bytes expected) then Inr ()
          else Inl (ApiError_new 403 ''bad_api_key'' ''supplied API key is not authorized''))"

text \<open>\<open>api_auth\<close>: the work runs only for a valid key.\<close>

definition api_auth :: "headers \<Rightarrow> Config \<Rightarrow> (unit \<Rightarrow> 'a api_result) \<Rightarrow> 'a api_result" where
  "api_auth headers config f = and_then (validate_api_key headers config False) f"

section \<open>Ranges and limits\<close>

abbreviation "NANOS \<equiv> (1000000000 :: int)"

definition validate_range :: "int \<Rightarrow> int \<Rightarrow> int \<Rightarrow> unit api_result" where
  "validate_range from to max_secs =
     (if to \<le> from then Inl (ApiError_new 400 ''invalid_time_range'' ''to must be after from'')
      else (let span = (to - from) div NANOS in
        if span > max_secs
        then Inl (ApiError_new 400 ''range_too_large''
               (''time range is '' @ show_int span @ ''s; max is '' @ show_int max_secs @ ''s''))
        else Inr ()))"

text \<open>The value is what \<open>Value::as_u64\<close> answers for the JSON value, if there is one.\<close>

definition parse_limit :: "nat option \<Rightarrow> nat \<Rightarrow> nat \<Rightarrow> nat api_result" where
  "parse_limit v dflt limit_max =
     (let limit = (case v of Some n \<Rightarrow> n | None \<Rightarrow> dflt) in
      if limit = 0 \<or> limit > limit_max
      then Inl (ApiError_new 400 ''limit_too_large''
             (''limit must be between 1 and '' @ show_nat limit_max))
      else Inr limit)"

section \<open>The comparison is equality\<close>

lemma byte_diff_zero:
  "length a = length b \<Longrightarrow> byte_diff d a b = 0 \<longleftrightarrow> d = 0 \<and> a = b"
proof (induction d a b rule: byte_diff.induct)
  case (1 d x xs y ys)
  have "d OR (x XOR y) = 0 \<longleftrightarrow> d = 0 \<and> x = y"
    by (auto simp: bit_eq_iff bit_or_iff bit_xor_iff)
  with 1 show ?case by auto
qed auto

lemma constant_time_eq_iff: "constant_time_eq a b \<longleftrightarrow> a = b"
  by (auto simp: constant_time_eq_def byte_diff_zero)

lemma byte_word_inj: "(word_of_nat (of_char c) :: 8 word) = word_of_nat (of_char d) \<longleftrightarrow> c = d"
proof
  assume eq: "(word_of_nat (of_char c) :: 8 word) = word_of_nat (of_char d)"
  have small: "(of_char e :: nat) < 2 ^ 8" for e
    using nat_of_char_less_256 [of e] by simp
  from eq have "unat (word_of_nat (of_char c) :: 8 word) = unat (word_of_nat (of_char d) :: 8 word)"
    by simp
  then have "(of_char c :: nat) = of_char d"
    using small by (simp add: unat_of_nat take_bit_nat_eq_self)
  then show "c = d" by simp
qed simp

lemma as_bytes_inj: "as_bytes a = as_bytes b \<longleftrightarrow> a = b"
proof -
  have "inj (\<lambda>c. word_of_nat (of_char c) :: 8 word)"
    using byte_word_inj by (auto intro: injI)
  then show ?thesis unfolding as_bytes_def by (rule inj_map_eq_map)
qed

lemma validate_api_key_Inr:
  "validate_api_key headers config admin = Inr u \<longleftrightarrow>
     (let expected = (if admin then admin_api_key (operator config) else api_key (operator config)) in
      expected \<noteq> [] \<and> supplied_key headers = Some expected)"
  by (auto simp: validate_api_key_def constant_time_eq_iff as_bytes_inj Let_def split: option.splits)

section \<open>Properties of validation\<close>

text \<open>
  A request is let through exactly when it carries the configured key: the comparison
  that does not stop at the first difference decides equality, a blank configured key
  never matches, and a bearer token is preferred to \<open>x-api-key\<close>.
\<close>

theorem api_key_exact:
  "validate_api_key headers config admin = Inr () \<longleftrightarrow>
     (let expected = (if admin then admin_api_key (operator config) else api_key (operator config)) in
      expected \<noteq> [] \<and> supplied_key headers = Some expected)"
  by (rule validate_api_key_Inr)

text \<open>
  Under a configuration that passed validation, a request that is authorised for
  queries is not authorised for administration: it is refused with 403.
\<close>

theorem query_key_is_not_admin_key:
  assumes "Config_validate c = Inr ()" and "validate_api_key headers c False = Inr ()"
  shows "\<exists>e. validate_api_key headers c True = Inl e \<and> status e = 403"
proof -
  from assms(1) have "api_key (operator c) \<noteq> admin_api_key (operator c)"
    and "admin_api_key (operator c) \<noteq> []"
    by (auto simp: Config_validate_def validate_operator_iff)
  moreover from assms(2) have "supplied_key headers = Some (api_key (operator c))"
    by (simp add: validate_api_key_Inr Let_def)
  ultimately show ?thesis
    by (simp add: validate_api_key_def constant_time_eq_iff as_bytes_inj)
qed

theorem query_key_is_not_admin_key_witness:
  "\<exists>e. validate_api_key [(''authorization'', ''Bearer test-key'')]
         \<lparr>operator = OperatorConfig_test ''t.db'' ''s''\<rparr> True = Inl e \<and> status e = 403"
proof (rule query_key_is_not_admin_key)
  show "Config_validate \<lparr>operator = OperatorConfig_test ''t.db'' ''s''\<rparr> = Inr ()"
    by (simp add: Config_validate_def validate_operator_iff OperatorConfig_test_def validate_tls_def
        uses_quack_def trim_plain plain_char_def)
  show "validate_api_key [(''authorization'', ''Bearer test-key'')]
      \<lparr>operator = OperatorConfig_test ''t.db'' ''s''\<rparr> False = Inr ()"
    by (simp add: validate_api_key_Inr supplied_key_def OperatorConfig_test_def Let_def)
qed

text \<open>
  A time range is accepted exactly when it is not empty or backwards and is shorter
  than one second more than the maximum: the check counts whole seconds.
\<close>

theorem validate_range_exact:
  "validate_range from_ns to_ns max_secs = Inr () \<longleftrightarrow>
     from_ns < to_ns \<and> to_ns - from_ns < (max_secs + 1) * NANOS"
proof -
  have "(to_ns - from_ns) div NANOS > max_secs \<longleftrightarrow> (max_secs + 1) * NANOS \<le> to_ns - from_ns"
    using div_mult_mod_eq [of "to_ns - from_ns" NANOS] pos_mod_sign [of NANOS "to_ns - from_ns"]
      pos_mod_bound [of NANOS "to_ns - from_ns"] by auto
  then show ?thesis by (auto simp: validate_range_def Let_def)
qed

text \<open>
  An accepted limit is the one that was asked for, or the default, and lies between 1
  and the maximum; anything else is refused.
\<close>

theorem parse_limit_exact:
  "parse_limit v dflt limit_max = Inr n \<longleftrightarrow>
     n = (case v of Some k \<Rightarrow> k | None \<Rightarrow> dflt) \<and> 1 \<le> n \<and> n \<le> limit_max"
  by (auto simp: parse_limit_def Let_def)

end
