(* ===== verification/Admission.thy ===== *)
theory Admission
  imports Api_Error Config
begin

text \<open>
  Query admission (\<^verbatim>\<open>src/src/admission_control.rs\<close>): the slots, one attempt to take
  one, the guard's release, and the protocol of several threads around the mutex and the
  condition variable as a step relation. Times are milliseconds of a clock; the metrics
  an operation records are its list of events.
\<close>

section \<open>Slots\<close>

datatype QueryClass = Cheap | Heavy

fun class_as_str :: "QueryClass \<Rightarrow> string" where
  "class_as_str Cheap = ''cheap''"
| "class_as_str Heavy = ''heavy''"

record AdmissionController =
  cheap_query_capacity :: nat
  heavy_query_capacity :: nat

record AdmissionState =
  cheap_query_active :: nat
  heavy_query_active :: nat
  query_rejections_total :: nat

record AdmissionSnapshot =
  snap_cheap_active :: nat
  snap_cheap_capacity :: nat
  snap_heavy_active :: nat
  snap_heavy_capacity :: nat
  snap_rejections :: nat

datatype AdmissionEvent =
  RejectionCounted "(string \<times> string) list"
| CapacityGauge string nat
| InUseGauge string nat

text \<open>On naturals, subtraction saturates as \<open>saturating_sub\<close> does.\<close>

definition admission_new :: "Config \<Rightarrow> AdmissionController" where
  "admission_new config =
     (let cheap = max (min (cheap_query_admission_capacity (operator config))
                           (concurrency (query_interactive (operator config)) - 1)) 1
      in \<lparr>cheap_query_capacity = cheap,
          heavy_query_capacity = max (concurrency (query_interactive (operator config)) - cheap) 1\<rparr>)"

definition initial_admission :: AdmissionState where
  "initial_admission = \<lparr>cheap_query_active = 0, heavy_query_active = 0, query_rejections_total = 0\<rparr>"

fun try_reserve :: "AdmissionController \<Rightarrow> QueryClass \<Rightarrow> AdmissionState \<Rightarrow> bool \<times> AdmissionState" where
  "try_reserve ctl Cheap st =
     (if cheap_query_active st < cheap_query_capacity ctl
      then (True, st\<lparr>cheap_query_active := cheap_query_active st + 1\<rparr>) else (False, st))"
| "try_reserve ctl Heavy st =
     (if heavy_query_active st < heavy_query_capacity ctl
      then (True, st\<lparr>heavy_query_active := heavy_query_active st + 1\<rparr>) else (False, st))"

fun query_rejection_reason :: "QueryClass \<Rightarrow> string" where
  "query_rejection_reason Cheap = ''cheap_query_admission_full''"
| "query_rejection_reason Heavy = ''heavy_query_admission_full''"

fun query_rejection_message :: "QueryClass \<Rightarrow> string" where
  "query_rejection_message Cheap = ''cheap query admission capacity is exhausted''"
| "query_rejection_message Heavy = ''heavy query admission capacity is exhausted''"

definition reject_query :: "QueryClass \<Rightarrow> AdmissionState \<Rightarrow> ApiError \<times> AdmissionState \<times> AdmissionEvent list" where
  "reject_query c st =
     (with_retry_after (ApiError_new 429 (query_rejection_reason c) (query_rejection_message c)) 1,
      st\<lparr>query_rejections_total := query_rejections_total st + 1\<rparr>,
      [RejectionCounted [(''admission'', ''query''), (''reason'', query_rejection_reason c)]])"

definition snapshot_from_state :: "AdmissionController \<Rightarrow> AdmissionState \<Rightarrow> AdmissionSnapshot" where
  "snapshot_from_state ctl st =
     \<lparr>snap_cheap_active = cheap_query_active st, snap_cheap_capacity = cheap_query_capacity ctl,
      snap_heavy_active = heavy_query_active st, snap_heavy_capacity = heavy_query_capacity ctl,
      snap_rejections = query_rejections_total st\<rparr>"

definition emit_admission_gauges :: "AdmissionSnapshot \<Rightarrow> AdmissionEvent list" where
  "emit_admission_gauges s =
     [CapacityGauge ''query_cheap'' (snap_cheap_capacity s), InUseGauge ''query_cheap'' (snap_cheap_active s),
      CapacityGauge ''query_heavy'' (snap_heavy_capacity s), InUseGauge ''query_heavy'' (snap_heavy_active s)]"

definition admission_snapshot :: "AdmissionController \<Rightarrow> AdmissionState \<Rightarrow> AdmissionSnapshot" where
  "admission_snapshot ctl st = snapshot_from_state ctl st"

text \<open>\<open>record_metrics\<close>.\<close>

definition admission_gauges :: "AdmissionController \<Rightarrow> AdmissionState \<Rightarrow> AdmissionEvent list" where
  "admission_gauges ctl st = emit_admission_gauges (admission_snapshot ctl st)"

text \<open>
  One pass of the loop in \<^verbatim>\<open>reserve_query_with_wait\<close>, at time \<open>now\<close>: it ends with a
  guard or a refusal, or the thread goes to sleep for the remaining time.
\<close>

datatype attempt = Admitted | Refused ApiError | Sleep nat

definition reserve_attempt ::
  "AdmissionController \<Rightarrow> QueryClass \<Rightarrow> nat \<Rightarrow> nat \<Rightarrow> nat \<Rightarrow> AdmissionState \<Rightarrow>
   attempt \<times> AdmissionState \<times> AdmissionEvent list" where
  "reserve_attempt ctl c max_wait deadline now st =
     (case try_reserve ctl c st of (ok, st') \<Rightarrow>
        if ok then (Admitted, st', [])
        else if max_wait = 0 \<or> deadline \<le> now then
          (case reject_query c st of (e, st', evs) \<Rightarrow> (Refused e, st', evs))
        else (Sleep (deadline - now), st, []))"

text \<open>The guard's drop: the slot is given back; the notification follows.\<close>

fun release_slot :: "QueryClass \<Rightarrow> AdmissionState \<Rightarrow> AdmissionState" where
  "release_slot Cheap st = st\<lparr>cheap_query_active := cheap_query_active st - 1\<rparr>"
| "release_slot Heavy st = st\<lparr>heavy_query_active := heavy_query_active st - 1\<rparr>"

text \<open>
  Asking for a slot and waiting for it, \<^verbatim>\<open>reserve_query_with_wait\<close>: attempts, each after
  sleeping for a while, as long as the condition variable returns early, and a last one when
  the deadline has passed. The clock is the standard library's monotonic one, whose seconds
  are a signed 64-bit number: adding a wait that it cannot hold panics, before anything else
  is done. Answering with the result releases the lock and emits the gauges.
\<close>

definition instant_add :: "nat \<Rightarrow> nat \<Rightarrow> nat option" where
  "instant_add at_time wait = (if (at_time + wait) div 1000 < 2 ^ 63 then Some (at_time + wait) else None)"

fun reserve_loop ::
  "AdmissionController \<Rightarrow> QueryClass \<Rightarrow> nat \<Rightarrow> nat \<Rightarrow> nat list \<Rightarrow> nat \<Rightarrow> AdmissionState \<Rightarrow>
   attempt \<times> AdmissionState \<times> AdmissionEvent list" where
  "reserve_loop ctl c max_wait deadline [] at_time st =
     (case reserve_attempt ctl c max_wait deadline at_time st of
        (Sleep r, st', evs) \<Rightarrow> reserve_attempt ctl c max_wait deadline (at_time + r) st'
      | decided \<Rightarrow> decided)"
| "reserve_loop ctl c max_wait deadline (slept # rest) at_time st =
     (case reserve_attempt ctl c max_wait deadline at_time st of
        (Sleep r, st', evs) \<Rightarrow> reserve_loop ctl c max_wait deadline rest (at_time + slept) st'
      | decided \<Rightarrow> decided)"

definition reserve_waiting ::
  "AdmissionController \<Rightarrow> QueryClass \<Rightarrow> nat \<Rightarrow> nat \<Rightarrow> nat list \<Rightarrow> AdmissionState \<Rightarrow>
   unit checked \<times> AdmissionState \<times> AdmissionEvent list" where
  "reserve_waiting ctl c max_wait at_time early st =
     (case instant_add at_time max_wait of
        None \<Rightarrow> (None, st, [])
      | Some deadline \<Rightarrow>
          (case reserve_loop ctl c max_wait deadline early at_time st of
             (a, st', evs) \<Rightarrow>
               (Some (case a of attempt.Refused e \<Rightarrow> Inl e | _ \<Rightarrow> Inr ()), st',
                evs @ emit_admission_gauges (snapshot_from_state ctl st'))))"

definition reserve_query ::
  "AdmissionController \<Rightarrow> QueryClass \<Rightarrow> nat \<Rightarrow> AdmissionState \<Rightarrow>
   unit checked \<times> AdmissionState \<times> AdmissionEvent list" where
  "reserve_query ctl c at_time st = reserve_waiting ctl c 0 at_time [] st"

definition active :: "QueryClass \<Rightarrow> AdmissionState \<Rightarrow> nat" where
  "active c st = (case c of Cheap \<Rightarrow> cheap_query_active st | Heavy \<Rightarrow> heavy_query_active st)"

definition capacity :: "AdmissionController \<Rightarrow> QueryClass \<Rightarrow> nat" where
  "capacity ctl c = (case c of Cheap \<Rightarrow> cheap_query_capacity ctl | Heavy \<Rightarrow> heavy_query_capacity ctl)"

section \<open>Threads\<close>

text \<open>
  What a thread is doing: asleep in \<open>wait_timeout\<close> (with its deadline, and whether it has
  been notified), holding a guard, or between giving the slot back and notifying.
\<close>

datatype thread_status =
  Idle
| Waiting QueryClass nat bool
| Holding QueryClass
| Notifying
| Rejected ApiError

record world =
  slots :: AdmissionState
  clock :: nat
  threads :: "nat \<Rightarrow> thread_status"

definition set_thread :: "nat \<Rightarrow> thread_status \<Rightarrow> world \<Rightarrow> world" where
  "set_thread t s w = w\<lparr>threads := (threads w)(t := s)\<rparr>"

text \<open>
  A thread runs one pass of the loop with its deadline. Only a thread that asked to wait
  is ever asleep, so the pass after a wake-up runs with a maximal wait that is not zero.
\<close>

definition run_attempt :: "AdmissionController \<Rightarrow> nat \<Rightarrow> QueryClass \<Rightarrow> nat \<Rightarrow> nat \<Rightarrow> world \<Rightarrow> world" where
  "run_attempt ctl t c max_wait deadline w =
     (case reserve_attempt ctl c max_wait deadline (clock w) (slots w) of (a, st, evs) \<Rightarrow>
        set_thread t
          (case a of Admitted \<Rightarrow> Holding c | Refused e \<Rightarrow> Rejected e | Sleep r \<Rightarrow> Waiting c deadline False)
          (w\<lparr>slots := st\<rparr>))"

text \<open>
  The steps. A thread whose deadline the clock cannot hold panics as it enters, and leaves
  the slots as they are. A sleeping thread may wake at any time: notified, timed out or spuriously.
  \<open>notify_one\<close> wakes one sleeping thread if there is one not yet notified, of either class.
\<close>

inductive step :: "AdmissionController \<Rightarrow> world \<Rightarrow> world \<Rightarrow> bool" for ctl where
  enter: "threads w t = Idle \<Longrightarrow> instant_add (clock w) max_wait = Some deadline \<Longrightarrow>
     step ctl w (run_attempt ctl t c max_wait deadline w)"
| wake: "threads w t = Waiting c deadline notified \<Longrightarrow>
     step ctl w (run_attempt ctl t c 1 deadline w)"
| drop_guard: "threads w t = Holding c \<Longrightarrow>
     step ctl w (set_thread t Notifying (w\<lparr>slots := release_slot c (slots w)\<rparr>))"
| notify: "threads w t = Notifying \<Longrightarrow> threads w u = Waiting c deadline False \<Longrightarrow>
     step ctl w (set_thread t Idle (set_thread u (Waiting c deadline True) w))"
| notify_nobody: "threads w t = Notifying \<Longrightarrow> \<nexists>u c deadline. threads w u = Waiting c deadline False \<Longrightarrow>
     step ctl w (set_thread t Idle w)"
| answer: "threads w t = Rejected e \<Longrightarrow> step ctl w (set_thread t Idle w)"
| tick: "step ctl w (w\<lparr>clock := clock w + 1\<rparr>)"

definition initial_world :: world where
  "initial_world = \<lparr>slots = initial_admission, clock = 0, threads = (\<lambda>_. Idle)\<rparr>"

inductive reachable :: "AdmissionController \<Rightarrow> world \<Rightarrow> bool" for ctl where
  start: "reachable ctl initial_world"
| more: "reachable ctl w \<Longrightarrow> step ctl w w' \<Longrightarrow> reachable ctl w'"

inductive_cases step_elim: "step ctl w w'"

section \<open>One attempt\<close>

lemma active_simps [simp]:
  "active Cheap st = cheap_query_active st" "active Heavy st = heavy_query_active st"
  by (simp_all add: active_def)

lemma capacity_simps [simp]:
  "capacity ctl Cheap = cheap_query_capacity ctl" "capacity ctl Heavy = heavy_query_capacity ctl"
  by (simp_all add: capacity_def)

lemma try_reserve_active:
  "try_reserve ctl c st = (ok, st') \<Longrightarrow>
     ok = (active c st < capacity ctl c) \<and>
     active d st' = active d st + (if ok \<and> c = d then 1 else 0) \<and>
     query_rejections_total st' = query_rejections_total st"
  by (cases c; cases d) (auto split: if_splits)

lemma reject_query_active:
  "reject_query c st = (e, st', evs) \<Longrightarrow>
     active d st' = active d st \<and> query_rejections_total st' = query_rejections_total st + 1 \<and>
     status e = 429 \<and> reason e = query_rejection_reason c \<and> retry_after_seconds e = Some 1"
  by (cases d) (auto simp: reject_query_def)

lemma release_slot_active:
  "active d (release_slot c st) = active d st - (if c = d then 1 else 0)"
  by (cases c; cases d) simp_all

lemma reserve_attempt_spec:
  assumes "reserve_attempt ctl c max_wait deadline now st = (a, st', evs)"
  shows "(case a of
            Admitted \<Rightarrow> active c st < capacity ctl c
          | Refused e \<Rightarrow> \<not> active c st < capacity ctl c \<and> (max_wait = 0 \<or> deadline \<le> now) \<and>
              status e = 429 \<and> reason e = query_rejection_reason c \<and> retry_after_seconds e = Some 1
          | Sleep r \<Rightarrow> \<not> active c st < capacity ctl c \<and> now < deadline \<and> r = deadline - now)"
    and "active d st' = active d st + (if a = Admitted \<and> c = d then 1 else 0)"
    and "query_rejections_total st' = query_rejections_total st + (case a of Refused e \<Rightarrow> 1 | _ \<Rightarrow> 0)"
  using assms try_reserve_active [of ctl c st] reject_query_active [of c st]
  unfolding reserve_attempt_def
  by (auto split: prod.splits if_splits)

lemma reserve_loop_decides:
  "reserve_loop ctl c max_wait deadline early at_time st = (a, st', evs) \<Longrightarrow>
   (\<nexists>n. a = Sleep n) \<and> active d st' = active d st + (if a = Admitted \<and> c = d then 1 else 0)"
proof (induction ctl c max_wait deadline early at_time st rule: reserve_loop.induct)
  case (1 ctl c max_wait deadline at_time st)
  obtain a1 st1 evs1 where first: "reserve_attempt ctl c max_wait deadline at_time st = (a1, st1, evs1)"
    by (cases "reserve_attempt ctl c max_wait deadline at_time st") auto
  note one = reserve_attempt_spec [OF first]
  show ?case
  proof (cases a1)
    case (Sleep r)
    then have again: "reserve_attempt ctl c max_wait deadline (at_time + r) st1 = (a, st', evs)"
      using 1 first by simp
    from reserve_attempt_spec(1,2) [OF again] one(1) one(2) [of d] Sleep show ?thesis by auto
  qed (use 1 first one(2) [of d] in auto)
next
  case (2 ctl c max_wait deadline slept rest at_time st)
  obtain a1 st1 evs1 where first: "reserve_attempt ctl c max_wait deadline at_time st = (a1, st1, evs1)"
    by (cases "reserve_attempt ctl c max_wait deadline at_time st") auto
  with 2 reserve_attempt_spec(2) [OF first, of d] show ?case by (cases a1) auto
qed

lemma reserve_waiting_active:
  assumes "reserve_waiting ctl c max_wait at_time early st = (r, st', evs)"
  shows "active d st' = active d st + (if r = Some (Inr ()) \<and> c = d then 1 else 0)"
    and "r = None \<longleftrightarrow> instant_add at_time max_wait = None"
proof -
  have "active d st' = active d st + (if r = Some (Inr ()) \<and> c = d then 1 else 0) \<and>
      (r = None \<longleftrightarrow> instant_add at_time max_wait = None)"
  proof (cases "instant_add at_time max_wait")
    case (Some deadline)
    obtain a st1 evs1 where loop: "reserve_loop ctl c max_wait deadline early at_time st = (a, st1, evs1)"
      by (cases "reserve_loop ctl c max_wait deadline early at_time st") auto
    with reserve_loop_decides [OF loop, of d] assms Some show ?thesis
      by (cases a) (auto simp: reserve_waiting_def)
  qed (use assms in \<open>simp add: reserve_waiting_def\<close>)
  then show "active d st' = active d st + (if r = Some (Inr ()) \<and> c = d then 1 else 0)"
    "r = None \<longleftrightarrow> instant_add at_time max_wait = None" by blast+
qed

lemma reserve_attempt_events:
  "reserve_attempt ctl c max_wait deadline at_time st = (a, st', evs) \<Longrightarrow>
   RejectionCounted ls \<in> set evs \<Longrightarrow> ls = [(''admission'', ''query''), (''reason'', query_rejection_reason c)]"
  by (auto simp: reserve_attempt_def reject_query_def split: prod.splits if_splits)

lemma reserve_loop_events:
  "reserve_loop ctl c max_wait deadline early at_time st = (a, st', evs) \<Longrightarrow>
   RejectionCounted ls \<in> set evs \<Longrightarrow> ls = [(''admission'', ''query''), (''reason'', query_rejection_reason c)]"
  by (induction ctl c max_wait deadline early at_time st rule: reserve_loop.induct)
    (auto dest: reserve_attempt_events split: prod.splits attempt.splits)

lemma reserve_waiting_events:
  "reserve_waiting ctl c max_wait at_time early st = (r, st', evs) \<Longrightarrow>
   RejectionCounted ls \<in> set evs \<Longrightarrow> ls = [(''admission'', ''query''), (''reason'', query_rejection_reason c)]"
  by (auto simp: reserve_waiting_def emit_admission_gauges_def dest: reserve_loop_events split: prod.splits option.splits)

section \<open>The invariant\<close>

definition holders :: "QueryClass \<Rightarrow> world \<Rightarrow> nat set" where
  "holders c w = {t. threads w t = Holding c}"

definition admission_inv :: "AdmissionController \<Rightarrow> world \<Rightarrow> bool" where
  "admission_inv ctl w =
     (finite {t. threads w t \<noteq> Idle} \<and>
      (\<forall>c. card (holders c w) = active c (slots w) \<and> active c (slots w) \<le> capacity ctl c))"

lemma set_thread_sel [simp]:
  "slots (set_thread t s w) = slots w" "clock (set_thread t s w) = clock w"
  "threads (set_thread t s w) = (threads w)(t := s)"
  by (simp_all add: set_thread_def)

lemma finite_holders: "finite {t. threads w t \<noteq> Idle} \<Longrightarrow> finite (holders c w)"
  unfolding holders_def by (rule finite_subset [of _ "{t. threads w t \<noteq> Idle}"]) auto

lemma finite_set_thread:
  "finite {t. f t \<noteq> Idle} \<Longrightarrow> finite {t. (f(u := s)) t \<noteq> Idle}"
  by (rule finite_subset [of _ "insert u {t. f t \<noteq> Idle}"]) auto

lemma holders_slots [simp]: "holders c (w\<lparr>slots := st\<rparr>) = holders c w" "holders c (w\<lparr>clock := k\<rparr>) = holders c w"
  by (simp_all add: holders_def)

lemma holders_acquire:
  "threads w t \<noteq> Holding c \<Longrightarrow> holders c (set_thread t (Holding c) w) = insert t (holders c w)"
  "t \<notin> holders c w \<longleftrightarrow> threads w t \<noteq> Holding c"
  by (auto simp: holders_def)

lemma holders_same:
  "threads w t \<noteq> Holding c \<Longrightarrow> s \<noteq> Holding c \<Longrightarrow> holders c (set_thread t s w) = holders c w"
  by (auto simp: holders_def)

lemma holders_release:
  "threads w t = Holding c \<Longrightarrow> s \<noteq> Holding c \<Longrightarrow> holders c (set_thread t s w) = holders c w - {t}"
  by (auto simp: holders_def)

lemma inv_set_thread:
  assumes inv: "admission_inv ctl w" and "\<And>c. threads w t \<noteq> Holding c" and "\<And>c. s \<noteq> Holding c"
  shows "admission_inv ctl (set_thread t s w)"
  using assms finite_set_thread [of "threads w" t s] holders_same [of w t _ s]
  by (auto simp: admission_inv_def)

lemma run_attempt_inv:
  assumes inv: "admission_inv ctl w" and idle: "\<And>c. threads w t \<noteq> Holding c"
  shows "admission_inv ctl (run_attempt ctl t c max_wait deadline w)"
proof -
  obtain a st evs where r: "reserve_attempt ctl c max_wait deadline (clock w) (slots w) = (a, st, evs)"
    by (cases "reserve_attempt ctl c max_wait deadline (clock w) (slots w)") auto
  note spec = reserve_attempt_spec [OF r]
  let ?s = "case a of Admitted \<Rightarrow> Holding c | Refused e \<Rightarrow> Rejected e | Sleep r \<Rightarrow> Waiting c deadline False"
  let ?w = "set_thread t ?s (w\<lparr>slots := st\<rparr>)"
  have fin: "finite {u. threads ?w u \<noteq> Idle}"
    using inv finite_set_thread [of "threads w" t ?s] by (simp add: admission_inv_def)
  have "card (holders d ?w) = active d st \<and> active d st \<le> capacity ctl d" for d
  proof (cases "a = Admitted \<and> c = d")
    case True
    then have "holders d ?w = insert t (holders d w)"
      using holders_acquire(1) [of "w\<lparr>slots := st\<rparr>" t d] idle by simp
    moreover have "t \<notin> holders d w" using idle by (simp add: holders_def)
    moreover have "finite (holders d w)" using inv finite_holders by (simp add: admission_inv_def)
    ultimately have "card (holders d ?w) = Suc (card (holders d w))" by simp
    with True spec(1) spec(2) [of d] inv show ?thesis by (simp add: admission_inv_def)
  next
    case False
    then have "?s \<noteq> Holding d" by (cases a) auto
    then have "holders d ?w = holders d w"
      using holders_same [of "w\<lparr>slots := st\<rparr>" t d ?s] idle by simp
    with False spec(2) [of d] inv show ?thesis by (simp add: admission_inv_def)
  qed
  with fin have "admission_inv ctl ?w" by (simp add: admission_inv_def)
  then show ?thesis by (simp add: run_attempt_def r)
qed

lemma drop_guard_inv:
  assumes inv: "admission_inv ctl w" and t: "threads w t = Holding c"
  shows "admission_inv ctl (set_thread t Notifying (w\<lparr>slots := release_slot c (slots w)\<rparr>))" (is "admission_inv ctl ?w")
proof -
  have "card (holders d ?w) = active d (slots ?w) \<and> active d (slots ?w) \<le> capacity ctl d" for d
  proof (cases "c = d")
    case True
    have fin: "finite (holders d w)" using inv finite_holders by (simp add: admission_inv_def)
    have "holders d ?w = holders d w - {t}"
      using holders_release [of "w\<lparr>slots := release_slot c (slots w)\<rparr>" t d] t True by simp
    moreover have "t \<in> holders d w" using t True by (simp add: holders_def)
    ultimately have "card (holders d ?w) = card (holders d w) - 1" by simp
    with True inv release_slot_active [of d c "slots w"] show ?thesis
      by (auto simp: admission_inv_def intro: le_trans [OF diff_le_self])
  next
    case False
    then have "holders d ?w = holders d w"
      using holders_same [of "w\<lparr>slots := release_slot c (slots w)\<rparr>" t d] t by simp
    with False inv release_slot_active [of d c "slots w"] show ?thesis by (simp add: admission_inv_def)
  qed
  moreover have "finite {u. threads ?w u \<noteq> Idle}"
    using inv finite_set_thread [of "threads w" t Notifying] by (simp add: admission_inv_def)
  ultimately show ?thesis by (simp add: admission_inv_def)
qed

lemma step_inv:
  assumes "step ctl w w'" and inv: "admission_inv ctl w"
  shows "admission_inv ctl w'"
  using assms(1)
proof cases
  case (notify t u c deadline)
  then have "admission_inv ctl (set_thread u (Waiting c deadline True) w)"
    using inv by (intro inv_set_thread) auto
  with notify show ?thesis by (auto intro!: inv_set_thread split: if_splits)
next
  case tick
  with inv show ?thesis by (simp add: admission_inv_def)
qed (use inv in \<open>auto intro!: run_attempt_inv drop_guard_inv inv_set_thread\<close>)

lemma reachable_inv: "reachable ctl w \<Longrightarrow> admission_inv ctl w"
proof (induction rule: reachable.induct)
  case start
  then show ?case
    by (simp add: admission_inv_def initial_world_def initial_admission_def holders_def active_def split: QueryClass.splits)
next
  case (more w w')
  then show ?case using step_inv by blast
qed

section \<open>Rejections and waiting\<close>

lemma run_attempt_outcome:
  assumes "run_attempt ctl t c max_wait deadline w = w'"
  shows "(threads w' t = Holding c \<and> active c (slots w) < capacity ctl c)
       \<or> (\<exists>e. threads w' t = Rejected e \<and> \<not> active c (slots w) < capacity ctl c \<and>
            (max_wait = 0 \<or> deadline \<le> clock w) \<and>
            status e = 429 \<and> reason e = query_rejection_reason c \<and> retry_after_seconds e = Some 1)
       \<or> (threads w' t = Waiting c deadline False \<and> \<not> active c (slots w) < capacity ctl c \<and> clock w < deadline)"
    and "u \<noteq> t \<Longrightarrow> threads w' u = threads w u" and "clock w' = clock w"
    and "d \<noteq> c \<Longrightarrow> active d (slots w') = active d (slots w)"
proof -
  obtain a st evs where r: "reserve_attempt ctl c max_wait deadline (clock w) (slots w) = (a, st, evs)"
    by (cases "reserve_attempt ctl c max_wait deadline (clock w) (slots w)") auto
  note spec = reserve_attempt_spec [OF r]
  have w': "w' = set_thread t
          (case a of Admitted \<Rightarrow> Holding c | Refused e \<Rightarrow> Rejected e | Sleep r \<Rightarrow> Waiting c deadline False)
          (w\<lparr>slots := st\<rparr>)"
    using assms by (simp add: run_attempt_def r)
  show "(threads w' t = Holding c \<and> active c (slots w) < capacity ctl c)
       \<or> (\<exists>e. threads w' t = Rejected e \<and> \<not> active c (slots w) < capacity ctl c \<and>
            (max_wait = 0 \<or> deadline \<le> clock w) \<and>
            status e = 429 \<and> reason e = query_rejection_reason c \<and> retry_after_seconds e = Some 1)
       \<or> (threads w' t = Waiting c deadline False \<and> \<not> active c (slots w) < capacity ctl c \<and> clock w < deadline)"
    using spec(1) w' by (cases a) auto
  show "u \<noteq> t \<Longrightarrow> threads w' u = threads w u" "clock w' = clock w" using w' by simp_all
  show "d \<noteq> c \<Longrightarrow> active d (slots w') = active d (slots w)" using w' spec(2) [of d] by auto
qed

lemma step_new_rejection:
  assumes "step ctl w w'" and "threads w' t = Rejected e" and "threads w t \<noteq> Rejected e"
  shows "\<exists>c. \<not> active c (slots w) < capacity ctl c \<and> status e = 429 \<and>
    reason e = query_rejection_reason c \<and> retry_after_seconds e = Some 1"
  using assms(1)
proof cases
  case (enter u max_wait deadline c)
  show ?thesis
  proof (cases "u = t")
    case True
    with run_attempt_outcome(1) [OF enter(1) [symmetric]] assms(2) show ?thesis by auto
  next
    case False
    with run_attempt_outcome(2) [OF enter(1) [symmetric], of t] assms show ?thesis by auto
  qed
next
  case (wake u c deadline n)
  show ?thesis
  proof (cases "u = t")
    case True
    with run_attempt_outcome(1) [OF wake(1) [symmetric]] assms(2) show ?thesis by auto
  next
    case False
    with run_attempt_outcome(2) [OF wake(1) [symmetric], of t] assms show ?thesis by auto
  qed
qed (use assms(2,3) in \<open>auto split: if_splits\<close>)

section \<open>Properties of admission\<close>

text \<open>
  C4. In every state the threads can reach, the counter of each class is exactly the
  number of threads that hold a guard of it, and never exceeds the class's capacity; so a
  release never saturates at zero.
\<close>

theorem admission_capacity_respected:
  assumes "reachable ctl w"
  shows "active c (slots w) = card {t. threads w t = Holding c} \<and> active c (slots w) \<le> capacity ctl c \<and>
    (threads w t = Holding c \<longrightarrow> 0 < active c (slots w))"
proof -
  from reachable_inv [OF assms] have inv: "card (holders c w) = active c (slots w)"
    "active c (slots w) \<le> capacity ctl c" "finite (holders c w)"
    using finite_holders by (simp_all add: admission_inv_def)
  moreover have "0 < card (holders c w)" if "threads w t = Holding c"
    using that inv(3) by (auto simp: holders_def card_gt_0_iff)
  ultimately show ?thesis unfolding holders_def by auto
qed

text \<open>A controller with one slot of each class, and a thread that enters it.\<close>

definition one_each :: AdmissionController where
  "one_each = \<lparr>cheap_query_capacity = 1, heavy_query_capacity = 1\<rparr>"

definition world_at :: "nat \<Rightarrow> nat \<Rightarrow> (nat \<Rightarrow> thread_status) \<Rightarrow> world" where
  "world_at ch hv ts =
     \<lparr>slots = \<lparr>cheap_query_active = ch, heavy_query_active = hv, query_rejections_total = 0\<rparr>,
      clock = 0, threads = ts\<rparr>"

lemma world_at_simps [simp]:
  "threads (world_at ch hv ts) = ts" "clock (world_at ch hv ts) = 0"
  "cheap_query_active (slots (world_at ch hv ts)) = ch" "heavy_query_active (slots (world_at ch hv ts)) = hv"
  "set_thread t s (world_at ch hv ts) = world_at ch hv (ts(t := s))"
  "set_thread t s ((world_at ch hv ts)\<lparr>slots := slots (world_at c' h' ts')\<rparr>) = world_at c' h' (ts(t := s))"
  by (simp_all add: world_at_def set_thread_def)

lemma attempt_one_each:
  "run_attempt one_each t Cheap mw d (world_at 0 hv ts) = world_at (Suc 0) hv (ts(t := Holding Cheap))"
  "run_attempt one_each t Heavy mw d (world_at ch 0 ts) = world_at ch (Suc 0) (ts(t := Holding Heavy))"
  "0 < mw \<Longrightarrow> 0 < d \<Longrightarrow> run_attempt one_each t Cheap mw d (world_at (Suc 0) hv ts) = world_at (Suc 0) hv (ts(t := Waiting Cheap d False))"
  "0 < mw \<Longrightarrow> 0 < d \<Longrightarrow> run_attempt one_each t Heavy mw d (world_at ch (Suc 0) ts) = world_at ch (Suc 0) (ts(t := Waiting Heavy d False))"
  by (simp_all add: run_attempt_def reserve_attempt_def one_each_def world_at_def set_thread_def)

lemma reach_enter: "reachable ctl w \<Longrightarrow> threads w t = Idle \<Longrightarrow> instant_add (clock w) mw = Some d \<Longrightarrow>
    run_attempt ctl t c mw d w = w' \<Longrightarrow> reachable ctl w'"
  using more enter by blast

lemma reach_first: "reachable one_each (world_at 1 0 ((\<lambda>_. Idle)(0 := Holding Cheap)))"
proof -
  have "reachable one_each (world_at 0 0 (\<lambda>_. Idle))"
    using start [of one_each] by (simp add: initial_world_def initial_admission_def world_at_def)
  then show ?thesis
    by (rule reach_enter [where t = 0 and c = Cheap and mw = 0]) (simp_all add: attempt_one_each instant_add_def)
qed

theorem admission_capacity_respected_witness:
  "card {t. ((\<lambda>_. Idle)(0::nat := Holding Cheap)) t = Holding Cheap} = 1"
  using admission_capacity_respected [OF reach_first, of Cheap] by simp

text \<open>
  C19. A thread is only ever turned away when its class is full, and the refusal says so:
  status 429, the class's own reason, and to retry after a second.
\<close>

theorem rejected_only_when_full:
  assumes "reachable ctl w" and "step ctl w w'"
    and "threads w' t = Rejected e" and "threads w t \<noteq> Rejected e"
  shows "\<exists>c. active c (slots w) = capacity ctl c \<and> status e = 429 \<and>
    reason e = query_rejection_reason c \<and> retry_after_seconds e = Some 1"
proof -
  from step_new_rejection [OF assms(2-4)] obtain c where c: "\<not> active c (slots w) < capacity ctl c"
    "status e = 429" "reason e = query_rejection_reason c" "retry_after_seconds e = Some 1"
    by blast
  moreover have "active c (slots w) \<le> capacity ctl c"
    using reachable_inv [OF assms(1)] by (simp add: admission_inv_def)
  ultimately show ?thesis by (intro exI [of _ c]) simp
qed

theorem rejected_only_when_full_witness:
  "\<exists>(e::ApiError) c. active c (slots (world_at 1 0 ((\<lambda>_. Idle)(0 := Holding Cheap)))) = capacity one_each c \<and> status e = 429"
proof -
  let ?w = "world_at 1 0 ((\<lambda>_. Idle)(0 := Holding Cheap))"
  let ?w' = "run_attempt one_each 1 Cheap 0 0 ?w"
  have s: "step one_each ?w ?w'" using enter [of ?w 1 0 0 one_each Cheap] by (simp add: instant_add_def)
  obtain e where e: "threads ?w' 1 = Rejected e"
    by (simp add: run_attempt_def reserve_attempt_def one_each_def reject_query_def)
  have "threads ?w 1 \<noteq> Rejected e" by simp
  from rejected_only_when_full [OF reach_first s e this] show ?thesis by blast
qed

text \<open>
  Waiting is bounded: a thread that runs after its deadline does not go back to
  sleep, it holds a guard or has been turned away; and one that does sleep has its
  deadline still ahead of it.
\<close>

theorem waiting_ends_by_deadline:
  assumes "run_attempt ctl t c max_wait deadline w = w'"
  shows "if deadline \<le> clock w then threads w' t = Holding c \<or> (\<exists>e. threads w' t = Rejected e)
         else \<forall>d n. threads w' t = Waiting c d n \<longrightarrow> d = deadline \<and> clock w' < d"
  using run_attempt_outcome(1,3) [OF assms] by auto

theorem waiting_ends_by_deadline_witness:
  "\<exists>e. threads (run_attempt one_each 1 Cheap 5 0 (world_at 1 0 ((\<lambda>_. Idle)(0 := Holding Cheap)))) 1 = Rejected e"
  using waiting_ends_by_deadline [of one_each 1 Cheap 5 0 "world_at 1 0 ((\<lambda>_. Idle)(0 := Holding Cheap))"]
  by (auto simp: run_attempt_def reserve_attempt_def one_each_def reject_query_def)

text \<open>
  The classes do not compete: what an attempt does is decided by its own class's
  counter, and it leaves the other class's counter alone.
\<close>

theorem classes_are_isolated:
  assumes "active c st1 = active c st2" and "d \<noteq> c"
  shows "fst (reserve_attempt ctl c max_wait deadline now st1) = fst (reserve_attempt ctl c max_wait deadline now st2) \<and>
    active d (fst (snd (reserve_attempt ctl c max_wait deadline now st1))) = active d st1"
proof -
  obtain a st evs where r: "reserve_attempt ctl c max_wait deadline now st1 = (a, st, evs)"
    by (cases "reserve_attempt ctl c max_wait deadline now st1") auto
  have "active d st = active d st1"
    using reserve_attempt_spec(2) [OF r, of d] assms(2) by auto
  moreover have "fst (reserve_attempt ctl c max_wait deadline now st1) = fst (reserve_attempt ctl c max_wait deadline now st2)"
    using assms(1) by (cases c) (auto simp: reserve_attempt_def reject_query_def)
  ultimately show ?thesis by (simp add: r)
qed

theorem classes_are_isolated_witness:
  "fst (reserve_attempt one_each Cheap 0 0 0 (initial_admission\<lparr>heavy_query_active := 1\<rparr>)) = Admitted"
proof -
  have "fst (reserve_attempt one_each Cheap 0 0 0 (initial_admission\<lparr>heavy_query_active := 1\<rparr>)) =
      fst (reserve_attempt one_each Cheap 0 0 0 initial_admission)"
    using classes_are_isolated [of Cheap "initial_admission\<lparr>heavy_query_active := 1\<rparr>" initial_admission Heavy]
    by (simp add: initial_admission_def)
  then show ?thesis by (simp add: reserve_attempt_def one_each_def initial_admission_def)
qed

text \<open>
  With a configuration that passed validation, the two capacities are both positive
  and add up to the query concurrency.
\<close>

theorem capacities_partition_concurrency:
  assumes "Config_validate config = Inr ()"
  shows "0 < cheap_query_capacity (admission_new config) \<and> 0 < heavy_query_capacity (admission_new config) \<and>
    cheap_query_capacity (admission_new config) + heavy_query_capacity (admission_new config) =
      concurrency (query_interactive (operator config))"
  using assms by (auto simp: Config_validate_def validate_operator_iff admission_new_def Let_def)

theorem capacities_partition_concurrency_witness:
  "cheap_query_capacity (admission_new \<lparr>operator = OperatorConfig_test ''t.db'' ''s''\<rparr>) +
   heavy_query_capacity (admission_new \<lparr>operator = OperatorConfig_test ''t.db'' ''s''\<rparr>) = 4"
proof -
  have "Config_validate \<lparr>operator = OperatorConfig_test ''t.db'' ''s''\<rparr> = Inr ()"
    by (simp add: Config_validate_def validate_operator_iff OperatorConfig_test_def validate_tls_def
        uses_quack_def trim_plain plain_char_def)
  from capacities_partition_concurrency [OF this] show ?thesis by (simp add: OperatorConfig_test_def)
qed

text \<open>
  C22. A wake-up can be lost: all threads share one condition variable and a release wakes
  one of them of either class. A state is reachable in which a cheap slot is free, a
  thread waits for a cheap slot with its deadline ahead, and no notification is under way:
  it sleeps on until its time runs out, though it could be admitted.
\<close>

theorem lost_wakeup_reachable:
  "\<exists>w t d. reachable one_each w \<and> threads w t = Waiting Cheap d False \<and> clock w < d \<and>
     active Cheap (slots w) < capacity one_each Cheap \<and>
     (\<nexists>u. threads w u = Notifying) \<and> (\<nexists>u c d'. threads w u = Waiting c d' True)"
proof -
  let ?t2 = "Waiting Cheap 1000 False" and ?t3 = "Waiting Heavy 1000 False"
  let ?f = "(\<lambda>_. Idle)(0 := Holding Cheap, 1 := Holding Heavy, 2 := ?t2, 3 := ?t3) :: nat \<Rightarrow> thread_status"
  have "reachable one_each (world_at 1 1 ((\<lambda>_. Idle)(0 := Holding Cheap, 1 := Holding Heavy)))"
    by (rule reach_enter [OF reach_first, where t = 1 and c = Heavy and mw = 0]) (simp_all add: attempt_one_each instant_add_def)
  then have "reachable one_each (world_at 1 1 ((\<lambda>_. Idle)(0 := Holding Cheap, 1 := Holding Heavy, 2 := ?t2)))"
    by (rule reach_enter [where t = 2 and c = Cheap and mw = 1000 and d = 1000]) (simp_all add: attempt_one_each instant_add_def)
  then have "reachable one_each (world_at 1 1 ?f)"
    by (rule reach_enter [where t = 3 and c = Heavy and mw = 1000 and d = 1000]) (simp_all add: attempt_one_each instant_add_def)
  moreover have "step one_each (world_at 1 1 ?f) (world_at 0 1 (?f(0 := Notifying)))"
    using drop_guard [of "world_at 1 1 ?f" 0 Cheap one_each] by (simp add: world_at_def set_thread_def)
  ultimately have "reachable one_each (world_at 0 1 (?f(0 := Notifying)))" by (rule more)
  moreover have "step one_each (world_at 0 1 (?f(0 := Notifying)))
      (world_at 0 1 (?f(3 := Waiting Heavy 1000 True, 0 := Idle)))"
    using notify [of "world_at 0 1 (?f(0 := Notifying))" 0 3 Heavy 1000 one_each]
    by (simp add: fun_upd_twist)
  ultimately have "reachable one_each (world_at 0 1 (?f(3 := Waiting Heavy 1000 True, 0 := Idle)))" by (rule more)
  moreover have "step one_each (world_at 0 1 (?f(3 := Waiting Heavy 1000 True, 0 := Idle)))
      (world_at 0 1 (?f(3 := ?t3, 0 := Idle)))"
    using wake [of "world_at 0 1 (?f(3 := Waiting Heavy 1000 True, 0 := Idle))" 3 Heavy 1000 True one_each]
    by (simp add: attempt_one_each fun_upd_twist)
  ultimately have r: "reachable one_each (world_at 0 1 (?f(3 := ?t3, 0 := Idle)))" by (rule more)
  show ?thesis
    by (intro exI [of _ "world_at 0 1 (?f(3 := ?t3, 0 := Idle))"] exI [of _ 2] exI [of _ 1000])
      (use r in \<open>simp add: one_each_def\<close>)
qed

end
