(* ===== verification/Routes.thy ===== *)
theory Routes
  imports Validation Http_Parser Response Admission
begin

text \<open>
  The HTTP routes: the compatibility route table and its dispatch
  (\<^verbatim>\<open>src/src/http/compat_routes.rs\<close>) and the router around it
  (\<^verbatim>\<open>src/src/http/router.rs\<close>). The handlers of \<^verbatim>\<open>src/src/compat/\<close>, the storage probes,
  the metrics and the JSON library are the fields of \<open>Services\<close>, over a state \<open>'s\<close> they
  may change. A panic, of a handler, of an assertion in the metrics, of the clock while
  waiting for a slot, or of \<open>expect\<close> on a missing parameter, is the answer \<open>None\<close>: it ends
  the thread after the guards it holds are dropped.
\<close>

section \<open>The route table\<close>

datatype AuthRequirement = Api

datatype QueryAdmission = AdmNone | AdmCheap | AdmHeavy

datatype RoutePattern =
  Exact string
| PrefixParam string
| PrefixSuffixParam string string

datatype CompatHandler =
  PrometheusQuery
| PrometheusQueryRange
| PrometheusLabels
| PrometheusSeries
| PrometheusMetadata
| PrometheusLabelValues
| LokiQuery
| LokiQueryRange
| LokiLabels
| LokiSeries
| LokiLabelValues
| TempoSearch
| TempoTags
| TempoTrace
| TempoTagValues
| BuildInfo

record CompatRoute =
  methods :: "string list"
  template :: string
  pattern :: RoutePattern
  auth :: AuthRequirement
  admission :: QueryAdmission
  handler :: CompatHandler

record CompatRouteMatch =
  matched_route :: CompatRoute
  route_param :: "string option"

definition compat_route ::
  "string list \<Rightarrow> string \<Rightarrow> RoutePattern \<Rightarrow> QueryAdmission \<Rightarrow> CompatHandler \<Rightarrow> CompatRoute" where
  "compat_route ms tmpl pat adm h =
     \<lparr>methods = ms, template = tmpl, pattern = pat, auth = Api, admission = adm, handler = h\<rparr>"

definition COMPAT_ROUTES :: "CompatRoute list" where
  "COMPAT_ROUTES =
     [compat_route [''GET'', ''POST''] ''/api/v1/query'' (Exact ''/api/v1/query'') AdmCheap PrometheusQuery,
      compat_route [''GET'', ''POST''] ''/api/v1/query_range'' (Exact ''/api/v1/query_range'') AdmHeavy PrometheusQueryRange,
      compat_route [''GET''] ''/api/v1/labels'' (Exact ''/api/v1/labels'') AdmCheap PrometheusLabels,
      compat_route [''GET''] ''/api/v1/series'' (Exact ''/api/v1/series'') AdmCheap PrometheusSeries,
      compat_route [''GET''] ''/api/v1/metadata'' (Exact ''/api/v1/metadata'') AdmCheap PrometheusMetadata,
      compat_route [''GET''] ''/api/v1/label/:name/values'' (PrefixSuffixParam ''/api/v1/label/'' ''/values'') AdmCheap PrometheusLabelValues,
      compat_route [''GET''] ''/loki/api/v1/query'' (Exact ''/loki/api/v1/query'') AdmCheap LokiQuery,
      compat_route [''GET''] ''/loki/api/v1/query_range'' (Exact ''/loki/api/v1/query_range'') AdmHeavy LokiQueryRange,
      compat_route [''GET''] ''/loki/api/v1/labels'' (Exact ''/loki/api/v1/labels'') AdmCheap LokiLabels,
      compat_route [''GET''] ''/loki/api/v1/series'' (Exact ''/loki/api/v1/series'') AdmCheap LokiSeries,
      compat_route [''GET''] ''/loki/api/v1/label/:name/values'' (PrefixSuffixParam ''/loki/api/v1/label/'' ''/values'') AdmCheap LokiLabelValues,
      compat_route [''GET''] ''/api/search'' (Exact ''/api/search'') AdmHeavy TempoSearch,
      compat_route [''GET''] ''/api/search/tags'' (Exact ''/api/search/tags'') AdmCheap TempoTags,
      compat_route [''GET''] ''/api/v2/search/tags'' (Exact ''/api/v2/search/tags'') AdmCheap TempoTags,
      compat_route [''GET''] ''/api/v2/traces/:trace_id'' (PrefixParam ''/api/v2/traces/'') AdmHeavy TempoTrace,
      compat_route [''GET''] ''/api/traces/:trace_id'' (PrefixParam ''/api/traces/'') AdmHeavy TempoTrace,
      compat_route [''GET''] ''/api/search/tag/:tag/values'' (PrefixSuffixParam ''/api/search/tag/'' ''/values'') AdmCheap TempoTagValues,
      compat_route [''GET''] ''/api/v2/search/tag/:tag/values'' (PrefixSuffixParam ''/api/v2/search/tag/'' ''/values'') AdmCheap TempoTagValues,
      compat_route [''GET''] ''/api/status/buildinfo'' (Exact ''/api/status/buildinfo'') AdmNone BuildInfo]"

definition param_ok :: "string \<Rightarrow> bool" where
  "param_ok p = (p \<noteq> [] \<and> CHR ''/'' \<notin> set p)"

definition filter_option :: "('a \<Rightarrow> bool) \<Rightarrow> 'a option \<Rightarrow> 'a option" where
  "filter_option p x = Option.bind x (\<lambda>a. if p a then Some a else None)"

fun match_route_path :: "RoutePattern \<Rightarrow> string \<Rightarrow> string option option" where
  "match_route_path (Exact e) path = (if path = e then Some None else None)"
| "match_route_path (PrefixParam pre) path =
     map_option Some (filter_option param_ok (strip_prefix pre path))"
| "match_route_path (PrefixSuffixParam pre suf) path =
     map_option Some (filter_option param_ok (Option.bind (strip_prefix pre path) (strip_suffix suf)))"

definition match_compat_route :: "string \<Rightarrow> string \<Rightarrow> CompatRouteMatch option" where
  "match_compat_route verb path =
     find_map (\<lambda>route.
       if verb \<notin> set (methods route) then None
       else map_option (\<lambda>param. \<lparr>matched_route = route, route_param = param\<rparr>)
              (match_route_path (pattern route) path)) COMPAT_ROUTES"

section \<open>What the handlers need\<close>

text \<open>
  A handler answers with a value or an error, or panics, and may change the state. Waiting for
  admission is \<open>reserve_slot\<close>; dropping the guard is \<open>release_guard\<close>.
\<close>

type_synonym ('s, 'a) action = "'s \<Rightarrow> 'a checked \<times> 's"
type_synonym 's effect = "'s \<Rightarrow> unit option \<times> 's"

text \<open>One effect after another; nothing follows a panic.\<close>

definition seq_do :: "'s effect \<Rightarrow> ('s \<Rightarrow> 'a option \<times> 's) \<Rightarrow> 's \<Rightarrow> 'a option \<times> 's" where
  "seq_do first rest s =
     (case first s of
        (None, s') \<Rightarrow> (None, s')
      | (Some _, s') \<Rightarrow> rest s')"

record ('s, 'f) Services =
  svc_config :: Config
  reserve_slot :: "QueryClass \<Rightarrow> ('s, unit) action"
  release_guard :: "QueryClass \<Rightarrow> 's \<Rightarrow> 's"
  query_request :: "string \<Rightarrow> nat \<Rightarrow> string \<Rightarrow> 's effect"
  observe_phase :: "string \<Rightarrow> string \<Rightarrow> 's effect"
  json_text :: "'f json \<Rightarrow> string"
  json_parse :: "string \<Rightarrow> 'f json option"
  build_version :: string
  prometheus_query :: "params \<Rightarrow> ('s, 'f json) action"
  prometheus_query_range :: "params \<Rightarrow> ('s, 'f json) action"
  prometheus_labels :: "params \<Rightarrow> ('s, 'f json) action"
  prometheus_series :: "params \<Rightarrow> ('s, 'f json) action"
  prometheus_metadata :: "('s, 'f json) action"
  prometheus_label_values :: "string \<Rightarrow> params \<Rightarrow> ('s, 'f json) action"
  loki_query :: "params \<Rightarrow> ('s, 'f json) action"
  loki_query_range :: "params \<Rightarrow> ('s, 'f json) action"
  loki_labels :: "params \<Rightarrow> ('s, 'f json) action"
  loki_series :: "params \<Rightarrow> ('s, 'f json) action"
  loki_label_values :: "string \<Rightarrow> params \<Rightarrow> ('s, 'f json) action"
  tempo_search :: "params \<Rightarrow> ('s, 'f json) action"
  tempo_tags :: "'f json"
  tempo_trace :: "string \<Rightarrow> ('s, 'f json) action"
  tempo_trace_proto :: "string \<Rightarrow> ('s, string) action"
  tempo_tag_values :: "string \<Rightarrow> params \<Rightarrow> ('s, 'f json) action"
  storage_probe :: "'s \<Rightarrow> (bool \<times> 'f json) \<times> 's"
  storage_health :: "'s \<Rightarrow> (bool \<times> 'f json) \<times> 's"
  queries_health :: "'s \<Rightarrow> (string \<times> 'f json) list"
  admission_json :: "'s \<Rightarrow> 'f json"
  record_admission_metrics :: "'s effect"
  record_storage_operator_gauges :: "'s effect"
  render_metrics :: "'s \<Rightarrow> string"

section \<open>Dispatch\<close>

definition expect_param :: "string option \<Rightarrow> (string \<Rightarrow> ('s, 'a) action) \<Rightarrow> ('s, 'a) action" where
  "expect_param param f s = (case param of Some p \<Rightarrow> f p s | None \<Rightarrow> (None, s))"

fun compat_value ::
  "('s, 'f) Services \<Rightarrow> CompatHandler \<Rightarrow> string option \<Rightarrow> params \<Rightarrow> ('s, 'f json) action" where
  "compat_value svc PrometheusQuery param ps s = prometheus_query svc ps s"
| "compat_value svc PrometheusQueryRange param ps s = prometheus_query_range svc ps s"
| "compat_value svc PrometheusLabels param ps s = prometheus_labels svc ps s"
| "compat_value svc PrometheusSeries param ps s = prometheus_series svc ps s"
| "compat_value svc PrometheusMetadata param ps s = prometheus_metadata svc s"
| "compat_value svc PrometheusLabelValues param ps s =
     expect_param param (\<lambda>name. prometheus_label_values svc name ps) s"
| "compat_value svc LokiQuery param ps s = loki_query svc ps s"
| "compat_value svc LokiQueryRange param ps s = loki_query_range svc ps s"
| "compat_value svc LokiLabels param ps s = loki_labels svc ps s"
| "compat_value svc LokiSeries param ps s = loki_series svc ps s"
| "compat_value svc LokiLabelValues param ps s =
     expect_param param (\<lambda>name. loki_label_values svc name ps) s"
| "compat_value svc TempoSearch param ps s = tempo_search svc ps s"
| "compat_value svc TempoTags param ps s = (Some (Inr (tempo_tags svc)), s)"
| "compat_value svc TempoTrace param ps s = expect_param param (tempo_trace svc) s"
| "compat_value svc TempoTagValues param ps s =
     expect_param param (\<lambda>tag. tempo_tag_values svc tag ps) s"
| "compat_value svc BuildInfo param ps s =
     (Some (Inr (JObject [(''branch'', JString ''local''), (''buildDate'', JString []),
                          (''buildUser'', JString ''canardstack''), (''revision'', JString ''canardstack''),
                          (''version'', JString (build_version svc))])), s)"

definition authorize ::
  "('s, 'f) Services \<Rightarrow> AuthRequirement \<Rightarrow> headers \<Rightarrow> ('s, 'a) action \<Rightarrow> ('s, 'a) action" where
  "authorize svc requirement hs run s =
     (case requirement of Api \<Rightarrow>
        (case validate_api_key hs (svc_config svc) False of
           Inl e \<Rightarrow> (Some (Inl e), s)
         | Inr _ \<Rightarrow> run s))"

text \<open>
  The guard is dropped however the work ends. A reservation that panics has no guard to
  hand out, so it gives its slot back itself.
\<close>

definition with_guard ::
  "(QueryClass \<Rightarrow> ('s, unit) action) \<Rightarrow> (QueryClass \<Rightarrow> 's \<Rightarrow> 's) \<Rightarrow> QueryClass \<Rightarrow>
   ('s, 'a) action \<Rightarrow> ('s, 'a) action" where
  "with_guard reserve release c run s =
     (case reserve c s of
        (None, s') \<Rightarrow> (None, s')
      | (Some (Inl e), s') \<Rightarrow> (Some (Inl e), s')
      | (Some (Inr _), s') \<Rightarrow> (case run s' of (r, s'') \<Rightarrow> (r, release c s'')))"

definition with_query_admission ::
  "(QueryClass \<Rightarrow> ('s, unit) action) \<Rightarrow> (QueryClass \<Rightarrow> 's \<Rightarrow> 's) \<Rightarrow> QueryAdmission \<Rightarrow>
   ('s, 'a) action \<Rightarrow> ('s, 'a) action" where
  "with_query_admission reserve release adm run s =
     (case adm of
        AdmNone \<Rightarrow> run s
      | AdmCheap \<Rightarrow> with_guard reserve release Cheap run s
      | AdmHeavy \<Rightarrow> with_guard reserve release Heavy run s)"

definition compat_error :: "ApiError \<Rightarrow> 'f json" where
  "compat_error err =
     JObject [(''error'', JString (message err)), (''errorType'', JString (reason err)),
              (''status'', JString ''error'')]"

definition compat_error_response :: "('s, 'f) Services \<Rightarrow> ApiError \<Rightarrow> HttpResponse" where
  "compat_error_response svc err =
     (let response = response_json (json_text svc) (status err) (compat_error err) in
      case retry_after_seconds err of
        Some seconds \<Rightarrow> response_with_retry_after response seconds
      | None \<Rightarrow> response)"

definition record_query_metrics :: "('s, 'f) Services \<Rightarrow> string \<Rightarrow> 'a api_result \<Rightarrow> 's effect" where
  "record_query_metrics svc tmpl result s =
     (case (case result of Inr _ \<Rightarrow> (200, ''ok'') | Inl err \<Rightarrow> (status err, reason err)) of
        (st, why) \<Rightarrow> seq_do (query_request svc tmpl st why) (observe_phase svc tmpl ''query_execute'') s)"

definition answered ::
  "('s, 'f) Services \<Rightarrow> string \<Rightarrow> ('a \<Rightarrow> HttpResponse) \<Rightarrow> 'a checked \<times> 's \<Rightarrow> HttpResponse option \<times> 's" where
  "answered svc tmpl respond rs =
     (case rs of
        (None, s) \<Rightarrow> (None, s)
      | (Some result, s) \<Rightarrow>
          seq_do (record_query_metrics svc tmpl result)
            (\<lambda>s'. (Some (case result of Inr v \<Rightarrow> respond v | Inl err \<Rightarrow> compat_error_response svc err), s')) s)"

definition compat_http :: "('s, 'f) Services \<Rightarrow> string \<Rightarrow> 'f json checked \<times> 's \<Rightarrow> HttpResponse option \<times> 's" where
  "compat_http svc tmpl rs = answered svc tmpl (response_json (json_text svc) 200) rs"

definition wants_json :: "headers \<Rightarrow> bool" where
  "wants_json hs =
     (case map_of hs ''accept'' of Some v \<Rightarrow> str_contains v ''application/json'' | None \<Rightarrow> False)"

definition tempo_trace_http ::
  "('s, 'f) Services \<Rightarrow> CompatRouteMatch \<Rightarrow> headers \<Rightarrow> 's \<Rightarrow> HttpResponse option \<times> 's" where
  "tempo_trace_http svc m hs s =
     (let route = matched_route m in
      case route_param m of
        None \<Rightarrow> (None, s)
      | Some trace_id \<Rightarrow>
          if wants_json hs then
            compat_http svc (template route)
              (authorize svc (auth route) hs
                (with_query_admission (reserve_slot svc) (release_guard svc) (admission route)
                  (tempo_trace svc trace_id)) s)
          else
            answered svc (template route) (response_bytes 200 ''application/protobuf'')
              (authorize svc (auth route) hs
                (with_query_admission (reserve_slot svc) (release_guard svc) (admission route)
                  (tempo_trace_proto svc trace_id)) s))"

definition insert_json_param :: "('s, 'f) Services \<Rightarrow> string \<times> 'f json \<Rightarrow> params \<Rightarrow> params" where
  "insert_json_param svc kv ps =
     (case json_as_str (snd kv) of
        Some v \<Rightarrow> insert_param (fst kv) v ps
      | None \<Rightarrow>
          if \<not> is_null (snd kv) then insert_param (fst kv) (json_text svc (snd kv)) ps else ps)"

definition body_content_type :: "headers \<Rightarrow> string" where
  "body_content_type hs =
     (case map_of hs ''content-type'' of
        Some v \<Rightarrow> to_ascii_lowercase (trim (hd (split_char (CHR '';'') v)))
      | None \<Rightarrow> [])"

definition request_params :: "('s, 'f) Services \<Rightarrow> params \<Rightarrow> headers \<Rightarrow> string \<Rightarrow> params" where
  "request_params svc query hs body =
     (if body = [] then query
      else if body_content_type hs = ''application/json'' then
        (case json_parse svc body of
           Some (JObject kvs) \<Rightarrow> fold (insert_json_param svc) kvs query
         | _ \<Rightarrow> query)
      else insert_pairs (from_utf8_lossy body) query)"

definition route_compat ::
  "('s, 'f) Services \<Rightarrow> CompatRouteMatch \<Rightarrow> params \<Rightarrow> headers \<Rightarrow> string \<Rightarrow> 's \<Rightarrow> HttpResponse option \<times> 's" where
  "route_compat svc m query hs body s =
     (let ps = request_params svc query hs body; route = matched_route m in
      if handler route = TempoTrace then tempo_trace_http svc m hs s
      else compat_http svc (template route)
        (authorize svc (auth route) hs
          (with_query_admission (reserve_slot svc) (release_guard svc) (admission route)
            (compat_value svc (handler route) (route_param m) ps)) s))"

section \<open>The router\<close>

definition admin_health_response ::
  "('s, 'f) Services \<Rightarrow> headers \<Rightarrow> ('s \<Rightarrow> (bool \<times> 'f json) \<times> 's) \<Rightarrow> 's \<Rightarrow> HttpResponse \<times> 's" where
  "admin_health_response svc hs compute s =
     (case validate_api_key hs (svc_config svc) True of
        Inl err \<Rightarrow> (from_api_error (json_text svc) err, s)
      | Inr _ \<Rightarrow> (case compute s of ((ready, body), s') \<Rightarrow>
          (response_json (json_text svc) (if ready then 200 else 503) body, s')))"

definition queries_health_with_admission :: "('s, 'f) Services \<Rightarrow> 's \<Rightarrow> (bool \<times> 'f json) \<times> 's" where
  "queries_health_with_admission svc s =
     (let document = JObject ((''admission'', admission_json svc s) #
            filter (\<lambda>p. fst p \<noteq> ''admission'') (queries_health svc s)) in
      case storage_probe svc s of ((ready, _), s') \<Rightarrow> ((ready, document), s'))"

definition route_inner ::
  "('s, 'f) Services \<Rightarrow> string \<Rightarrow> string \<Rightarrow> params \<Rightarrow> headers \<Rightarrow> string \<Rightarrow> 's \<Rightarrow> HttpResponse option \<times> 's" where
  "route_inner svc verb path query hs body s =
     (case match_compat_route verb path of
        Some m \<Rightarrow> route_compat svc m query hs body s
      | None \<Rightarrow>
          if verb = ''GET'' \<and> path = ''/healthz'' then
            (case storage_probe svc s of ((ok, probe), s') \<Rightarrow>
               (Some (response_json (json_text svc) (if ok then 200 else 503)
                 (JObject [(''status'', JString (if ok then ''ok'' else ''error'')), (''storage'', probe)])), s'))
          else if verb = ''GET'' \<and> path = ''/metrics'' then
            seq_do (record_admission_metrics svc) (seq_do (record_storage_operator_gauges svc)
              (\<lambda>s'. (Some (response_text 200 ''text/plain; charset=utf-8'' (render_metrics svc s')), s'))) s
          else if verb = ''GET'' \<and> path = ''/api/admin/health/storage'' then
            apfst Some (admin_health_response svc hs (storage_health svc) s)
          else if verb = ''GET'' \<and> path = ''/api/admin/health/queries'' then
            apfst Some (admin_health_response svc hs (queries_health_with_admission svc) s)
          else (Some (from_api_error (json_text svc) (ApiError_new 404 ''not_found'' ''route not found'')), s))"

text \<open>The router's entries, for a body that is lent and one that is given away.\<close>

datatype RequestBody = Borrowed string | Owned string

fun as_slice :: "RequestBody \<Rightarrow> string" where
  "as_slice (Borrowed b) = b"
| "as_slice (Owned b) = b"

definition route_borrowed ::
  "('s, 'f) Services \<Rightarrow> string \<Rightarrow> string \<Rightarrow> params \<Rightarrow> headers \<Rightarrow> string \<Rightarrow> 's \<Rightarrow> HttpResponse option \<times> 's" where
  "route_borrowed svc verb path query hs body s = route_inner svc verb path query hs (as_slice (Borrowed body)) s"

definition route_owned ::
  "('s, 'f) Services \<Rightarrow> string \<Rightarrow> string \<Rightarrow> params \<Rightarrow> headers \<Rightarrow> string \<Rightarrow> 's \<Rightarrow> HttpResponse option \<times> 's" where
  "route_owned svc verb path query hs body s = route_inner svc verb path query hs (as_slice (Owned body)) s"

lemma routes_by_body [simp]:
  "route_borrowed svc verb path query hs body s = route_inner svc verb path query hs body s"
  "route_owned svc verb path query hs body s = route_inner svc verb path query hs body s"
  by (simp_all add: route_borrowed_def route_owned_def)

section \<open>Routes and parameters\<close>

definition needs_param :: "CompatHandler \<Rightarrow> bool" where
  "needs_param h = (h \<in> {PrometheusLabelValues, LokiLabelValues, TempoTrace, TempoTagValues})"

fun has_param :: "RoutePattern \<Rightarrow> bool" where
  "has_param (Exact e) = False"
| "has_param (PrefixParam pre) = True"
| "has_param (PrefixSuffixParam pre suf) = True"

lemma routes_have_params:
  "list_all (\<lambda>r. if needs_param (handler r) then has_param (pattern r) else True) COMPAT_ROUTES"
  by (simp add: COMPAT_ROUTES_def compat_route_def needs_param_def)

lemma match_route_path_param:
  "match_route_path pat path = Some param \<Longrightarrow> has_param pat \<Longrightarrow> \<exists>p. param = Some p \<and> param_ok p"
  by (cases pat) (auto simp: filter_option_def bind_eq_Some_conv split: if_splits)

lemma match_compat_routeD:
  assumes "match_compat_route verb path = Some m"
  shows "matched_route m \<in> set COMPAT_ROUTES \<and> verb \<in> set (methods (matched_route m)) \<and>
    match_route_path (pattern (matched_route m)) path = Some (route_param m)"
  using assms unfolding match_compat_route_def
  by (auto dest!: find_map_SomeD split: if_splits)

lemma matched_param:
  assumes "match_compat_route verb path = Some m" and "needs_param (handler (matched_route m))"
  shows "\<exists>p. route_param m = Some p \<and> param_ok p"
proof -
  from match_compat_routeD [OF assms(1)] have r: "matched_route m \<in> set COMPAT_ROUTES"
    "match_route_path (pattern (matched_route m)) path = Some (route_param m)" by auto
  from r(1) assms(2) routes_have_params have "has_param (pattern (matched_route m))"
    by (auto simp: list_all_iff)
  with match_route_path_param [OF r(2)] show ?thesis by simp
qed

text \<open>A path's segments, and the segments a pattern asks for, \<open>None\<close> being the parameter.\<close>

abbreviation "segments s \<equiv> split_char (CHR ''/'') s"

fun pattern_segments :: "RoutePattern \<Rightarrow> string option list" where
  "pattern_segments (Exact e) = map Some (segments e)"
| "pattern_segments (PrefixParam pre) = map Some (butlast (segments pre)) @ [None]"
| "pattern_segments (PrefixSuffixParam pre suf) =
     map Some (butlast (segments pre)) @ [None] @ map Some (tl (segments suf))"

fun pattern_wf :: "RoutePattern \<Rightarrow> bool" where
  "pattern_wf (Exact e) = True"
| "pattern_wf (PrefixParam pre) = (last (segments pre) = [])"
| "pattern_wf (PrefixSuffixParam pre suf) = (last (segments pre) = [] \<and> hd (segments suf) = [])"

definition segment_match :: "string option list \<Rightarrow> string list \<Rightarrow> bool" where
  "segment_match ps xs = list_all2 (\<lambda>p x. p = None \<or> p = Some x) ps xs"

definition overlap :: "string option list \<Rightarrow> string option list \<Rightarrow> bool" where
  "overlap ps qs = list_all2 (\<lambda>p q. p = None \<or> q = None \<or> p = q) ps qs"

lemma segment_match_overlap: "segment_match ps xs \<Longrightarrow> segment_match qs xs \<Longrightarrow> overlap ps qs"
  unfolding segment_match_def overlap_def list_all2_conv_all_nth by metis

lemma segments_append:
  "segments (a @ b) = butlast (segments a) @ [last (segments a) @ hd (segments b)] @ tl (segments b)"
proof (induction a)
  case Nil
  then show ?case by (cases "segments b") simp_all
next
  case (Cons c a)
  then show ?case
    by (cases "segments a") (auto simp: hd_append split: list.splits)
qed

lemma segments_param: "CHR ''/'' \<notin> set p \<Longrightarrow> segments p = [p]"
  by (rule split_char_absent)

lemma segment_match_refl: "segment_match (map Some xs) xs"
  by (simp add: segment_match_def list_all2_conv_all_nth)

lemma segment_match_append:
  "segment_match ps xs \<Longrightarrow> segment_match qs ys \<Longrightarrow> segment_match (ps @ qs) (xs @ ys)"
  unfolding segment_match_def by (rule list_all2_appendI)

lemma segment_match_None: "segment_match [None] [x]"
  by (simp add: segment_match_def)

lemma match_segments:
  assumes wf: "pattern_wf pat" and m: "match_route_path pat path = Some param"
  shows "segment_match (pattern_segments pat) (segments path)"
proof (cases pat)
  case (Exact e)
  with m show ?thesis by (auto simp: segment_match_refl split: if_splits)
next
  case (PrefixParam pre)
  with m obtain p where p: "path = pre @ p" "CHR ''/'' \<notin> set p"
    by (auto simp: filter_option_def bind_eq_Some_conv strip_prefix_Some_iff param_ok_def split: if_splits)
  then have "segments path = butlast (segments pre) @ [p]"
    using wf PrefixParam by (simp add: segments_append segments_param)
  then show ?thesis
    using PrefixParam by (simp add: segment_match_append segment_match_refl segment_match_None)
next
  case (PrefixSuffixParam pre suf)
  with m obtain p where p: "path = pre @ (p @ suf)" "CHR ''/'' \<notin> set p"
    by (auto simp: filter_option_def bind_eq_Some_conv strip_prefix_Some_iff strip_suffix_Some_iff
        param_ok_def split: if_splits)
  have "segments (p @ suf) = [p] @ tl (segments suf)"
    using wf PrefixSuffixParam p(2) by (simp add: segments_append segments_param)
  with p(1) have "segments path = butlast (segments pre) @ [p] @ tl (segments suf)"
    using wf PrefixSuffixParam by (simp add: segments_append)
  then show ?thesis
    using PrefixSuffixParam
    by (auto intro!: segment_match_append segment_match_refl segment_match_None
        segment_match_append [OF segment_match_None, simplified])
qed

text \<open>No two patterns of a list can match the same segments.\<close>

fun clash_free :: "string option list list \<Rightarrow> bool" where
  "clash_free [] = True"
| "clash_free (x # xs) = (list_all (\<lambda>y. \<not> overlap x y) xs \<and> clash_free xs)"

lemma overlap_sym: "overlap ps qs \<Longrightarrow> overlap qs ps"
  unfolding overlap_def list_all2_conv_all_nth by metis

lemma clash_free_unique:
  "clash_free (map f rs) \<Longrightarrow> r1 \<in> set rs \<Longrightarrow> r2 \<in> set rs \<Longrightarrow> overlap (f r1) (f r2) \<Longrightarrow> r1 = r2"
  by (induction rs) (auto simp: list_all_iff dest: overlap_sym)

lemma route_patterns_wf: "list_all pattern_wf (map pattern COMPAT_ROUTES)"
  by code_simp

lemma routes_clash_free: "clash_free (map (\<lambda>r. pattern_segments (pattern r)) COMPAT_ROUTES)"
  by code_simp

lemma route_unique:
  assumes "r1 \<in> set COMPAT_ROUTES" "r2 \<in> set COMPAT_ROUTES"
    and "match_route_path (pattern r1) path = Some p1" "match_route_path (pattern r2) path = Some p2"
  shows "r1 = r2"
proof -
  have "pattern_wf (pattern r1)" "pattern_wf (pattern r2)"
    using route_patterns_wf assms(1,2) by (auto simp: list_all_iff)
  then have "overlap (pattern_segments (pattern r1)) (pattern_segments (pattern r2))"
    using match_segments [OF _ assms(3)] match_segments [OF _ assms(4)] segment_match_overlap by blast
  with clash_free_unique [OF routes_clash_free assms(1,2)] show ?thesis .
qed

section \<open>The admission interface\<close>

text \<open>
  What the dispatcher relies on: reserving counts one more of its class when it succeeds
  and nothing otherwise, when it is refused or panics; releasing gives back one of its class.
\<close>

locale query_slots =
  fixes reserve :: "QueryClass \<Rightarrow> 's \<Rightarrow> unit checked \<times> 's"
    and release :: "QueryClass \<Rightarrow> 's \<Rightarrow> 's"
    and in_use :: "QueryClass \<Rightarrow> 's \<Rightarrow> nat"
  assumes reserve_ok: "reserve c s = (Some (Inr u), s') \<Longrightarrow> in_use d s' = in_use d s + (if c = d then 1 else 0)"
    and reserve_refused: "reserve c s = (Some (Inl e), s') \<Longrightarrow> in_use d s' = in_use d s"
    and reserve_panicked: "reserve c s = (None, s') \<Longrightarrow> in_use d s' = in_use d s"
    and release_one: "in_use d (release c s) = in_use d s - (if c = d then 1 else 0)"
begin

lemma guard_balanced:
  assumes run: "\<And>s. in_use d (snd (run s)) = in_use d s"
  shows "in_use d (snd (with_guard reserve release c run s)) = in_use d s"
proof -
  obtain x s1 where r: "reserve c s = (x, s1)" by force
  consider (panicked) "x = None" | (refused) e where "x = Some (Inl e)" | (held) u where "x = Some (Inr u)"
    by (metis not_Some_eq sum.exhaust)
  then show ?thesis
  proof cases
    case (held u)
    then have "snd (with_guard reserve release c run s) = release c (snd (run s1))"
      using r by (simp add: with_guard_def split: prod.split)
    with run [of s1] reserve_ok [OF r [unfolded held], of d] release_one [of d c "snd (run s1)"]
    show ?thesis by simp
  qed (use r reserve_refused [of c s _ s1 d] reserve_panicked [of c s s1 d] in \<open>auto simp: with_guard_def\<close>)
qed

lemma admission_balanced:
  assumes "\<And>s. in_use d (snd (run s)) = in_use d s"
  shows "in_use d (snd (with_query_admission reserve release adm run s)) = in_use d s"
  by (cases adm) (simp_all add: with_query_admission_def guard_balanced assms)

end

text \<open>
  The admission controller provides it: the dispatcher's own reservation, which waits as long
  as the configuration allows, woken early as often as it happens. Its events are recorded by
  \<^verbatim>\<open>App\<close>, which is the interface's other provider.
\<close>

definition reserve_by ::
  "AdmissionController \<Rightarrow> nat \<Rightarrow> nat \<Rightarrow> nat list \<Rightarrow> QueryClass \<Rightarrow> AdmissionState \<Rightarrow> unit checked \<times> AdmissionState" where
  "reserve_by ctl max_wait at_time early c st = apsnd fst (reserve_waiting ctl c max_wait at_time early st)"

lemma reserve_by_active:
  assumes "reserve_by ctl max_wait at_time early c st = (r, st')"
  shows "active d st' = active d st + (if r = Some (Inr ()) \<and> c = d then 1 else 0)"
proof -
  obtain evs where "reserve_waiting ctl c max_wait at_time early st = (r, st', evs)"
    using assms by (cases "reserve_waiting ctl c max_wait at_time early st") (auto simp: reserve_by_def)
  from reserve_waiting_active(1) [OF this] show ?thesis .
qed

interpretation slots: query_slots "reserve_by ctl max_wait at_time early" release_slot active
  for ctl max_wait at_time early
proof
  show "active d s' = active d s + (if c = d then 1 else 0)"
    if "reserve_by ctl max_wait at_time early c s = (Some (Inr u), s')" for c s u s' d
    using reserve_by_active [OF that, of d] by simp
  show "active d s' = active d s" if "reserve_by ctl max_wait at_time early c s = (Some (Inl e), s')" for c s e s' d
    using reserve_by_active [OF that, of d] by simp
  show "active d s' = active d s" if "reserve_by ctl max_wait at_time early c s = (None, s')" for c s s' d
    using reserve_by_active [OF that, of d] by simp
  show "active d (release_slot c s) = active d s - (if c = d then 1 else 0)" for d c s
    by (rule release_slot_active)
qed

section \<open>Requests without a valid key\<close>

lemma authorize_refused:
  "validate_api_key hs (svc_config svc) False = Inl e \<Longrightarrow> authorize svc a hs run s = (Some (Inl e), s)"
  by (cases a) (simp add: authorize_def)

lemma route_compat_refused:
  assumes "validate_api_key hs (svc_config svc) False = Inl e" and "route_param m \<noteq> None \<or> handler (matched_route m) \<noteq> TempoTrace"
  shows "route_compat svc m query hs body s =
    seq_do (record_query_metrics svc (template (matched_route m)) (Inl e :: unit api_result))
      (\<lambda>t. (Some (compat_error_response svc e), t)) s"
  using assms(2)
  by (auto simp: route_compat_def tempo_trace_http_def Let_def authorize_refused [OF assms(1)]
      compat_http_def answered_def record_query_metrics_def fun_eq_iff seq_do_def)

section \<open>Panics\<close>

text \<open>
  No handler panics on some parameters, and nothing else a request asks for does: neither
  the metrics nor reserving a slot.
\<close>

definition never_panics :: "('s \<Rightarrow> 'a option \<times> 's) \<Rightarrow> bool" where
  "never_panics run \<longleftrightarrow> (\<forall>s. fst (run s) \<noteq> None)"

definition handlers_answer_on :: "('s, 'f) Services \<Rightarrow> params \<Rightarrow> bool" where
  "handlers_answer_on svc ps \<longleftrightarrow>
     (\<forall>h param. (needs_param h \<longrightarrow> param \<noteq> None) \<longrightarrow> never_panics (compat_value svc h param ps)) \<and>
     (\<forall>trace_id. never_panics (tempo_trace_proto svc trace_id))"

definition records_answer :: "('s, 'f) Services \<Rightarrow> bool" where
  "records_answer svc \<longleftrightarrow>
     (\<forall>tmpl st why. never_panics (query_request svc tmpl st why)) \<and>
     (\<forall>tmpl phase. never_panics (observe_phase svc tmpl phase)) \<and>
     never_panics (record_admission_metrics svc) \<and> never_panics (record_storage_operator_gauges svc) \<and>
     (\<forall>c. never_panics (reserve_slot svc c))"

lemma never_panicsD: "never_panics run \<Longrightarrow> (fst (run s) = None) = False"
  by (simp add: never_panics_def)

lemma seq_do_None: "fst (seq_do first rest s) = None \<longleftrightarrow> fst (first s) = None \<or> fst (rest (snd (first s))) = None"
  by (cases "first s"; cases "fst (first s)") (simp_all add: seq_do_def)

lemma seq_do_answers: "never_panics first \<Longrightarrow> never_panics rest \<Longrightarrow> never_panics (seq_do first rest)"
  by (simp add: never_panics_def seq_do_None del: not_None_eq)

lemma with_guard_answers:
  "never_panics (reserve c) \<Longrightarrow> never_panics run \<Longrightarrow> fst (with_guard reserve release c run s) \<noteq> None"
  by (cases "reserve c s"; cases "the (fst (reserve c s))"; cases "fst (reserve c s)")
    (auto simp: with_guard_def case_prod_beta never_panicsD simp del: not_None_eq dest: never_panicsD [of "reserve c" s])

lemma guarded_answers:
  "(\<And>c. never_panics (reserve c)) \<Longrightarrow> never_panics run \<Longrightarrow>
   fst (authorize svc a hs (with_query_admission reserve release adm run) s) \<noteq> None"
  using with_guard_answers [of reserve _ run release s]
  by (cases adm; cases a; cases "validate_api_key hs (svc_config svc) False")
    (simp_all add: authorize_def with_query_admission_def never_panics_def del: not_None_eq)

lemma query_metrics_answer: "records_answer svc \<Longrightarrow> never_panics (record_query_metrics svc tmpl result)"
  by (simp add: records_answer_def never_panics_def [of "record_query_metrics svc tmpl result"]
      record_query_metrics_def seq_do_None never_panicsD del: not_None_eq split: prod.split)

lemma answered_None: "fst rs = None \<Longrightarrow> fst (answered svc tmpl respond rs) = None"
  by (auto simp: answered_def split: prod.splits option.splits)

lemma answered_answers: "records_answer svc \<Longrightarrow> fst rs \<noteq> None \<Longrightarrow> fst (answered svc tmpl respond rs) \<noteq> None"
  by (cases rs; cases "fst rs")
    (simp_all add: answered_def seq_do_None never_panicsD [OF query_metrics_answer] del: not_None_eq)

section \<open>Properties of the routes\<close>

text \<open>
  The order of the route table does not matter: no path matches two of its routes.
\<close>

theorem route_table_unambiguous:
  assumes "r1 \<in> set COMPAT_ROUTES" and "r2 \<in> set COMPAT_ROUTES"
    and "match_route_path (pattern r1) path \<noteq> None" and "match_route_path (pattern r2) path \<noteq> None"
  shows "r1 = r2"
  using assms route_unique by blast

theorem route_table_unambiguous_witness:
  "\<exists>r \<in> set COMPAT_ROUTES. \<forall>r' \<in> set COMPAT_ROUTES.
     match_route_path (pattern r') ''/api/search/tag/http.route/values'' \<noteq> None \<longrightarrow> r' = r"
proof -
  let ?r = "compat_route [''GET''] ''/api/search/tag/:tag/values'' (PrefixSuffixParam ''/api/search/tag/'' ''/values'') AdmCheap TempoTagValues"
  have r: "?r \<in> set COMPAT_ROUTES" by (simp add: COMPAT_ROUTES_def)
  have m: "match_route_path (pattern ?r) ''/api/search/tag/http.route/values'' \<noteq> None"
    by (simp add: compat_route_def strip_suffix_def filter_option_def param_ok_def)
  show ?thesis
    by (rule bexI [OF _ r]) (use route_table_unambiguous [OF _ r _ m] in blast)
qed

text \<open>
  Dispatching never panics by itself: whenever a path matches, every handler that takes a
  parameter gets one, so only a panic of a handler, of the metrics or of a reservation
  leaves a request without an answer.
\<close>

lemma route_inner_answers:
  assumes "records_answer svc" "handlers_answer_on svc (request_params svc query hs body)"
  shows "fst (route_inner svc verb path query hs body s) \<noteq> None"
proof (cases "match_compat_route verb path")
  case None
  have "never_panics (record_admission_metrics svc)" "never_panics (record_storage_operator_gauges svc)"
    using assms(1) by (simp_all add: records_answer_def)
  with None show ?thesis
    by (simp add: route_inner_def Let_def seq_do_None never_panicsD del: not_None_eq split: prod.splits)
next
  case (Some m)
  have param: "needs_param (handler (matched_route m)) \<longrightarrow> route_param m \<noteq> None"
    using matched_param [OF Some] by auto
  note runs = assms(2) [unfolded handlers_answer_on_def]
  have slot: "never_panics (reserve_slot svc c)" for c using assms(1) by (simp add: records_answer_def)
  note answer = answered_answers [OF assms(1) guarded_answers [OF slot]]
  have "fst (route_compat svc m query hs body s) \<noteq> None"
  proof (cases "handler (matched_route m) = TempoTrace")
    case True
    then obtain p where p: "route_param m = Some p" using param by (auto simp: needs_param_def)
    have "never_panics (tempo_trace svc p)"
      using conjunct1 [OF runs, rule_format, of TempoTrace "Some p"] by (simp add: never_panics_def expect_param_def)
    with True p runs show ?thesis
      by (simp add: route_compat_def tempo_trace_http_def Let_def compat_http_def answer del: not_None_eq)
  next
    case False
    from param runs have "never_panics (compat_value svc (handler (matched_route m)) (route_param m) (request_params svc query hs body))"
      by blast
    with False show ?thesis
      by (simp add: route_compat_def Let_def compat_http_def answer del: not_None_eq)
  qed
  with Some show ?thesis by (simp add: route_inner_def)
qed

text \<open>
  The key a request needs: a query route the API key, the two admin documents the admin key.
  \<open>/healthz\<close> and \<open>/metrics\<close> are open to anyone, and an unknown path answers 404.
\<close>

definition key_needed :: "string \<Rightarrow> string \<Rightarrow> bool option" where
  "key_needed verb path =
     (if match_compat_route verb path \<noteq> None then Some False
      else if verb = ''GET'' \<and> path \<in> {''/api/admin/health/storage'', ''/api/admin/health/queries''} then Some True
      else None)"

text \<open>
  C20. A request without the key its route needs has no effect but its own metrics. On a
  query route no slot is asked for and no handler runs: all that happens is that the request
  is counted and timed under its template, with the refusal's status and reason, and it is
  answered with the refusal. On an admin route, with the admin key in place of the API key,
  nothing is read or changed at all.
\<close>

theorem unauthorized_does_nothing:
  assumes "key_needed verb path = Some admin" and "validate_api_key hs (svc_config svc) admin = Inl e"
  shows "if admin then
      route_inner svc verb path query hs body s = (Some (from_api_error (json_text svc) e), s)
    else \<exists>route \<in> set COMPAT_ROUTES. match_route_path (pattern route) path \<noteq> None \<and>
      route_inner svc verb path query hs body s =
        seq_do (query_request svc (template route) (status e) (reason e))
          (seq_do (observe_phase svc (template route) ''query_execute'')
            (\<lambda>t. (Some (compat_error_response svc e), t))) s \<and>
      resp_status (compat_error_response svc e) = status e"
proof (cases admin)
  case True
  with assms show ?thesis
    by (auto simp: key_needed_def route_inner_def Let_def admin_health_response_def apfst_def split: if_splits)
next
  case False
  then obtain m where m: "match_compat_route verb path = Some m"
    using assms(1) by (auto simp: key_needed_def split: if_splits)
  then have "route_param m \<noteq> None \<or> handler (matched_route m) \<noteq> TempoTrace"
    using matched_param by (auto simp: needs_param_def)
  from route_compat_refused [OF assms(2) [unfolded False [THEN iffD2 [OF eq_False]]] this]
  have "route_inner svc verb path query hs body s =
        seq_do (query_request svc (template (matched_route m)) (status e) (reason e))
          (seq_do (observe_phase svc (template (matched_route m)) ''query_execute'')
            (\<lambda>t. (Some (compat_error_response svc e), t))) s"
    using m by (simp add: route_inner_def record_query_metrics_def seq_do_def split: prod.split option.split)
  moreover have "resp_status (compat_error_response svc e) = status e"
    by (simp add: compat_error_response_def response_json_def response_with_retry_after_def Let_def split: option.split)
  ultimately show ?thesis
    using False match_compat_routeD [OF m] by (auto intro!: bexI [of _ "matched_route m"])
qed

text \<open>Services that write down what is asked of them.\<close>

definition noting :: "string list \<Rightarrow> string list effect" where
  "noting names s = (Some (), s @ names)"

definition logging_services :: "(string list, unit) Services" where
  "logging_services =
     (let act = \<lambda>name s. (Some (Inr JNull), s @ [name]); act1 = \<lambda>name (_ :: params) s. (Some (Inr JNull), s @ [name]);
          act2 = \<lambda>name (_ :: string) (_ :: params) s. (Some (Inr JNull), s @ [name]) in
      \<lparr>svc_config = \<lparr>operator = OperatorConfig_test ''t.db'' ''s''\<rparr>,
       reserve_slot = \<lambda>c s. (Some (Inr ()), s @ [''reserve'']), release_guard = \<lambda>c s. s @ [''release''],
       query_request = \<lambda>tmpl st why. noting [tmpl, show_nat st, why], observe_phase = \<lambda>tmpl phase. noting [phase],
       json_text = \<lambda>_. ''null'', json_parse = \<lambda>_. None, build_version = ''1'',
       prometheus_query = act1 ''query'', prometheus_query_range = act1 ''query_range'',
       prometheus_labels = act1 ''labels'', prometheus_series = act1 ''series'',
       prometheus_metadata = act ''metadata'', prometheus_label_values = act2 ''label_values'',
       loki_query = act1 ''loki_query'', loki_query_range = act1 ''loki_query_range'',
       loki_labels = act1 ''loki_labels'', loki_series = act1 ''loki_series'',
       loki_label_values = act2 ''loki_label_values'', tempo_search = act1 ''search'',
       tempo_tags = JNull, tempo_trace = \<lambda>_. act ''trace'', tempo_trace_proto = \<lambda>_ s. (Some (Inr []), s @ [''proto'']),
       tempo_tag_values = act2 ''tag_values'', storage_probe = \<lambda>s. ((True, JNull), s @ [''probe'']),
       storage_health = \<lambda>s. ((True, JNull), s @ [''health'']), queries_health = \<lambda>_. [], admission_json = \<lambda>_. JNull,
       record_admission_metrics = noting [''admission''], record_storage_operator_gauges = noting [''storage''],
       render_metrics = \<lambda>_. []\<rparr>)"

theorem unauthorized_does_nothing_witness:
  "(\<exists>resp. route_inner logging_services ''GET'' ''/loki/api/v1/labels'' [] [(''x-api-key'', ''wrong'')] [] [] =
      (Some resp, [''/loki/api/v1/labels'', ''403'', ''bad_api_key'', ''query_execute'']) \<and> resp_status resp = 403) \<and>
   snd (route_inner logging_services ''GET'' ''/api/admin/health/storage'' [] [(''x-api-key'', ''wrong'')] [] []) = []"
proof -
  let ?hs = "[(''x-api-key'', ''wrong'')]"
  let ?e = "ApiError_new 403 ''bad_api_key'' ''supplied API key is not authorized''"
  let ?route = "compat_route [''GET''] ''/loki/api/v1/labels'' (Exact ''/loki/api/v1/labels'') AdmCheap LokiLabels"
  have needs: "key_needed ''GET'' ''/loki/api/v1/labels'' = Some False"
    "key_needed ''GET'' ''/api/admin/health/storage'' = Some True"
    by code_simp+
  have v: "validate_api_key ?hs (svc_config logging_services) admin = Inl ?e" for admin
    by (simp add: validate_api_key_def supplied_key_def logging_services_def OperatorConfig_test_def
        constant_time_eq_iff as_bytes_inj)
  have "?route \<in> set COMPAT_ROUTES" "match_route_path (pattern ?route) ''/loki/api/v1/labels'' \<noteq> None"
    by (simp_all add: COMPAT_ROUTES_def compat_route_def)
  then have only: "route = ?route"
    if "route \<in> set COMPAT_ROUTES" "match_route_path (pattern route) ''/loki/api/v1/labels'' \<noteq> None" for route
    using that route_unique by blast
  have n: "show_nat 403 = ''403''" by code_simp
  obtain route where route: "route \<in> set COMPAT_ROUTES" "match_route_path (pattern route) ''/loki/api/v1/labels'' \<noteq> None"
    "route_inner logging_services ''GET'' ''/loki/api/v1/labels'' [] ?hs [] [] =
        seq_do (query_request logging_services (template route) (status ?e) (reason ?e))
          (seq_do (observe_phase logging_services (template route) ''query_execute'')
            (\<lambda>t. (Some (compat_error_response logging_services ?e), t))) []"
    "resp_status (compat_error_response logging_services ?e) = status ?e"
    using unauthorized_does_nothing [OF needs(1) v, of "[]" "[]" "[]"] by auto
  moreover have "snd (route_inner logging_services ''GET'' ''/api/admin/health/storage'' [] ?hs [] []) = []"
    using unauthorized_does_nothing [OF needs(2) v, of "[]" "[]" "[]"] by simp
  moreover have "template route = ''/loki/api/v1/labels''"
    using only [OF route(1,2)] by (simp add: compat_route_def)
  ultimately show ?thesis
    by (simp add: logging_services_def noting_def seq_do_def n)
qed

text \<open>
  C21. Admission slots are never leaked: a request that runs under admission, waiting for its
  slot as long as the configuration allows, leaves the number of slots in use of each class as
  it found it, whether it was refused, failed, answered or panicked, in its work or while
  waiting, for any work that does not itself touch the slots.
\<close>

theorem admission_slots_returned:
  assumes "\<And>s. active d (snd (run s)) = active d s"
  shows "active d (snd (with_query_admission (reserve_by ctl max_wait at_time early) release_slot adm run st)) = active d st"
  by (rule slots.admission_balanced [OF assms])

theorem admission_slots_returned_witness:
  "with_query_admission (reserve_by one_each 1000 5 [3, 4]) release_slot AdmCheap (\<lambda>st. (None, st)) initial_admission =
     (None :: unit checked, initial_admission) \<and>
   active Cheap (snd (with_query_admission (reserve_by one_each 1000 5 [3, 4]) release_slot AdmCheap
     (\<lambda>st. (None :: unit checked, st)) initial_admission)) = 0"
proof
  show "active Cheap (snd (with_query_admission (reserve_by one_each 1000 5 [3, 4]) release_slot AdmCheap
      (\<lambda>st. (None :: unit checked, st)) initial_admission)) = 0"
    using admission_slots_returned [of Cheap "\<lambda>st. (None :: unit checked, st)" one_each 1000 5 "[3, 4]" AdmCheap initial_admission]
    by (simp add: initial_admission_def)
qed (simp add: with_query_admission_def with_guard_def reserve_by_def reserve_waiting_def instant_add_def
    reserve_attempt_def one_each_def initial_admission_def)

end
