(* ===== verification/Metrics.thy ===== *)
theory Metrics
  imports BTree Text "HOL-Library.Word"
begin

text \<open>
  The metrics registry (\<^verbatim>\<open>src/src/metrics.rs\<close>): counters and gauges kept in sixteen
  shards, each behind its own lock, and rendered in key order. \<open>'f\<close> stands for \<open>f64\<close>, whose
  arithmetic and printing are the fields of \<open>FloatOps\<close>. A failed \<open>assert!\<close> is \<open>None\<close>.
\<close>

unbundle bit_operations_syntax

section \<open>Names, shapes and labels\<close>

record 'f FloatOps =
  float_zero :: 'f
  float_add :: "'f \<Rightarrow> 'f \<Rightarrow> 'f"
  float_of_u64 :: "64 word \<Rightarrow> 'f"
  float_fixed6 :: "'f \<Rightarrow> string"

datatype MetricId = MetricId (id_name: string) (id_labels: "(string \<times> string) list")

text \<open>The derived order: by name, then by labels.\<close>

definition MetricId_le :: "MetricId \<Rightarrow> MetricId \<Rightarrow> bool" where
  "MetricId_le a b = ((id_name a, id_labels a) \<le> (id_name b, id_labels b))"

definition MetricId_lt :: "MetricId \<Rightarrow> MetricId \<Rightarrow> bool" where
  "MetricId_lt a b = ((id_name a, id_labels a) < (id_name b, id_labels b))"

instantiation MetricId :: linorder
begin

definition less_eq_MetricId :: "MetricId \<Rightarrow> MetricId \<Rightarrow> bool" where
  "less_eq_MetricId a b = MetricId_le a b"

definition less_MetricId :: "MetricId \<Rightarrow> MetricId \<Rightarrow> bool" where
  "less_MetricId a b = MetricId_lt a b"

instance
proof
  fix a b c :: MetricId
  show "a < b \<longleftrightarrow> a \<le> b \<and> \<not> b \<le> a"
    unfolding less_eq_MetricId_def less_MetricId_def MetricId_le_def MetricId_lt_def by (rule less_le_not_le)
  show "a \<le> a"
    unfolding less_eq_MetricId_def MetricId_le_def by (rule order_refl)
  show "a \<le> b \<Longrightarrow> b \<le> c \<Longrightarrow> a \<le> c"
    unfolding less_eq_MetricId_def MetricId_le_def by (rule order_trans)
  show "a \<le> b \<Longrightarrow> b \<le> a \<Longrightarrow> a = b"
    unfolding less_eq_MetricId_def MetricId_le_def by (drule (1) antisym) (simp add: MetricId.expand)
  show "a \<le> b \<or> b \<le> a"
    unfolding less_eq_MetricId_def MetricId_le_def by (rule linear)
qed

end

datatype MetricKind = CounterKind | GaugeKind

datatype MetricShape = CounterShape | GaugeShape | ObservationShape

datatype MetricName =
  AdmissionCapacity
| AdmissionInUse
| AdmissionRejectionsTotal
| DucklakeActiveDataFileRows
| DucklakeActiveDataFiles
| FreshnessWatermarkTimestamp
| HttpConnectionClosesTotal
| HttpConnectionErrorsTotal
| HttpConnectionRequestsTotal
| PhaseDurationSeconds
| QueryDurationSeconds
| QueryRequestsTotal
| QueryTimeoutsTotal
| StorageLogicalRows
| StoragePhysicalBytes

fun metric_as_str :: "MetricName \<Rightarrow> string" where
  "metric_as_str AdmissionCapacity = ''canardstack_admission_capacity''"
| "metric_as_str AdmissionInUse = ''canardstack_admission_in_use''"
| "metric_as_str AdmissionRejectionsTotal = ''canardstack_admission_rejections_total''"
| "metric_as_str DucklakeActiveDataFileRows = ''canardstack_ducklake_active_data_file_rows''"
| "metric_as_str DucklakeActiveDataFiles = ''canardstack_ducklake_active_data_files''"
| "metric_as_str FreshnessWatermarkTimestamp = ''canardstack_freshness_watermark_timestamp''"
| "metric_as_str HttpConnectionClosesTotal = ''canardstack_http_connection_closes_total''"
| "metric_as_str HttpConnectionErrorsTotal = ''canardstack_http_connection_errors_total''"
| "metric_as_str HttpConnectionRequestsTotal = ''canardstack_http_connection_requests_total''"
| "metric_as_str PhaseDurationSeconds = ''canardstack_phase_duration_seconds''"
| "metric_as_str QueryDurationSeconds = ''canardstack_query_duration_seconds''"
| "metric_as_str QueryRequestsTotal = ''canardstack_query_requests_total''"
| "metric_as_str QueryTimeoutsTotal = ''canardstack_query_timeouts_total''"
| "metric_as_str StorageLogicalRows = ''canardstack_storage_logical_rows''"
| "metric_as_str StoragePhysicalBytes = ''canardstack_storage_physical_bytes''"

fun metric_shape :: "MetricName \<Rightarrow> MetricShape" where
  "metric_shape AdmissionCapacity = GaugeShape"
| "metric_shape AdmissionInUse = GaugeShape"
| "metric_shape DucklakeActiveDataFileRows = GaugeShape"
| "metric_shape DucklakeActiveDataFiles = GaugeShape"
| "metric_shape FreshnessWatermarkTimestamp = GaugeShape"
| "metric_shape StorageLogicalRows = GaugeShape"
| "metric_shape StoragePhysicalBytes = GaugeShape"
| "metric_shape PhaseDurationSeconds = ObservationShape"
| "metric_shape QueryDurationSeconds = ObservationShape"
| "metric_shape AdmissionRejectionsTotal = CounterShape"
| "metric_shape HttpConnectionClosesTotal = CounterShape"
| "metric_shape HttpConnectionErrorsTotal = CounterShape"
| "metric_shape HttpConnectionRequestsTotal = CounterShape"
| "metric_shape QueryRequestsTotal = CounterShape"
| "metric_shape QueryTimeoutsTotal = CounterShape"

fun allowed_label_keys :: "MetricName \<Rightarrow> string list" where
  "allowed_label_keys AdmissionCapacity = [''admission'']"
| "allowed_label_keys AdmissionInUse = [''admission'']"
| "allowed_label_keys AdmissionRejectionsTotal = [''admission'', ''reason'']"
| "allowed_label_keys DucklakeActiveDataFileRows = [''storage_signal'']"
| "allowed_label_keys DucklakeActiveDataFiles = [''storage_signal'']"
| "allowed_label_keys FreshnessWatermarkTimestamp = [''storage_signal'']"
| "allowed_label_keys StorageLogicalRows = [''storage_signal'']"
| "allowed_label_keys StoragePhysicalBytes = [''storage_signal'']"
| "allowed_label_keys HttpConnectionClosesTotal = [''reason'']"
| "allowed_label_keys HttpConnectionErrorsTotal = [''reason'']"
| "allowed_label_keys HttpConnectionRequestsTotal = [''mode'']"
| "allowed_label_keys PhaseDurationSeconds =
     [''request_kind'', ''route_template'', ''storage_signal'', ''phase'', ''reason'', ''status'', ''path'']"
| "allowed_label_keys QueryDurationSeconds = [''route_template'']"
| "allowed_label_keys QueryTimeoutsTotal = [''route_template'']"
| "allowed_label_keys QueryRequestsTotal = [''route_template'', ''status'', ''reason'']"

text \<open>The assertions on the labels of a recording: allowed keys, none twice.\<close>

fun no_duplicate_keys :: "(string \<times> string) list \<Rightarrow> bool" where
  "no_duplicate_keys [] = True"
| "no_duplicate_keys (e # rest) = (\<not> list_ex (\<lambda>l. fst l = fst e) rest \<and> no_duplicate_keys rest)"

definition validate_metric_labels :: "MetricName \<Rightarrow> (string \<times> string) list \<Rightarrow> bool" where
  "validate_metric_labels nm ls =
     (list_all (\<lambda>l. fst l \<in> set (allowed_label_keys nm)) ls \<and> no_duplicate_keys ls)"

section \<open>The sharded registry\<close>

record 'f MetricsInner =
  counters :: "(MetricId, 64 word) btree"
  gauges :: "(MetricId, 'f) btree"

type_synonym 'f Metrics = "'f MetricsInner list"

definition METRICS_SHARDS :: nat where
  "METRICS_SHARDS = 16"

definition empty_inner :: "'f MetricsInner" where
  "empty_inner = \<lparr>counters = [], gauges = []\<rparr>"

definition metrics_new :: "'f Metrics" where
  "metrics_new = replicate METRICS_SHARDS empty_inner"

text \<open>FNV-1a over the parts of an identifier, each closed by \<open>0xff\<close>; \<open>wrapping_mul\<close> is \<open>*\<close> on words.\<close>

definition hash_byte :: "64 word \<Rightarrow> char \<Rightarrow> 64 word" where
  "hash_byte h c = (h XOR of_char c) * 0x100000001b3"

definition hash_metric_part :: "64 word \<Rightarrow> string \<Rightarrow> 64 word" where
  "hash_metric_part h bs = (foldl hash_byte h bs XOR 0xff) * 0x100000001b3"

definition metric_hash :: "MetricId \<Rightarrow> 64 word" where
  "metric_hash i =
     foldl (\<lambda>h l. hash_metric_part (hash_metric_part h (fst l)) (snd l))
       (hash_metric_part 0xcbf29ce484222325 (id_name i)) (id_labels i)"

definition shard_for :: "MetricId \<Rightarrow> nat" where
  "shard_for i = unat (metric_hash i AND 15)"

definition in_shard :: "MetricId \<Rightarrow> ('f MetricsInner \<Rightarrow> 'f MetricsInner) \<Rightarrow> 'f Metrics \<Rightarrow> 'f Metrics" where
  "in_shard i f m = m[shard_for i := f (m ! shard_for i)]"

definition add_counter :: "MetricId \<Rightarrow> 64 word \<Rightarrow> 'f MetricsInner \<Rightarrow> 'f MetricsInner" where
  "add_counter i by inner =
     inner\<lparr>counters := bt_insert i (case bt_get (counters inner) i of None \<Rightarrow> by | Some c \<Rightarrow> c + by) (counters inner)\<rparr>"

definition put_gauge :: "MetricId \<Rightarrow> 'f \<Rightarrow> 'f MetricsInner \<Rightarrow> 'f MetricsInner" where
  "put_gauge i v inner = inner\<lparr>gauges := bt_insert i v (gauges inner)\<rparr>"

definition add_gauge :: "'f FloatOps \<Rightarrow> MetricId \<Rightarrow> 'f \<Rightarrow> 'f MetricsInner \<Rightarrow> 'f MetricsInner" where
  "add_gauge fl i v inner =
     inner\<lparr>gauges := bt_insert i
       (float_add fl (case bt_get (gauges inner) i of None \<Rightarrow> float_zero fl | Some c \<Rightarrow> c) v) (gauges inner)\<rparr>"

definition metric_inc :: "MetricName \<Rightarrow> (string \<times> string) list \<Rightarrow> 64 word \<Rightarrow> 'f Metrics \<Rightarrow> 'f Metrics option" where
  "metric_inc nm ls by m =
     (if metric_shape nm = CounterShape \<and> validate_metric_labels nm ls then
        (let i = MetricId (metric_as_str nm) ls in Some (in_shard i (add_counter i by) m))
      else None)"

definition metric_gauge :: "MetricName \<Rightarrow> (string \<times> string) list \<Rightarrow> 'f \<Rightarrow> 'f Metrics \<Rightarrow> 'f Metrics option" where
  "metric_gauge nm ls v m =
     (if metric_shape nm = GaugeShape \<and> validate_metric_labels nm ls then
        (let i = MetricId (metric_as_str nm) ls in Some (in_shard i (put_gauge i v) m))
      else None)"

definition observe_seconds ::
  "'f FloatOps \<Rightarrow> MetricName \<Rightarrow> (string \<times> string) list \<Rightarrow> 'f \<Rightarrow> 'f Metrics \<Rightarrow> 'f Metrics option" where
  "observe_seconds fl nm ls seconds m =
     (if metric_shape nm = ObservationShape \<and> validate_metric_labels nm ls then
        (let count_id = MetricId (metric_as_str nm @ ''_count'') ls;
             sum_id = MetricId (metric_as_str nm @ ''_sum'') ls;
             m' = in_shard count_id (add_counter count_id 1) m
         in Some (in_shard sum_id (add_gauge fl sum_id seconds) m'))
      else None)"

definition observe_query_route_phase_seconds ::
  "'f FloatOps \<Rightarrow> string \<Rightarrow> string \<Rightarrow> 'f \<Rightarrow> 'f Metrics \<Rightarrow> 'f Metrics option" where
  "observe_query_route_phase_seconds fl route phase seconds m =
     observe_seconds fl PhaseDurationSeconds [(''route_template'', route), (''phase'', phase)] seconds m"

definition status_label :: "nat \<Rightarrow> string" where
  "status_label st = show_nat st"

definition metrics_query_request ::
  "'f FloatOps \<Rightarrow> string \<Rightarrow> nat \<Rightarrow> string \<Rightarrow> 'f \<Rightarrow> 'f Metrics \<Rightarrow> 'f Metrics option" where
  "metrics_query_request fl route st why seconds m =
     Option.bind (metric_inc QueryRequestsTotal
         [(''route_template'', route), (''status'', status_label st), (''reason'', why)] 1 m) (\<lambda>m1.
     Option.bind (observe_seconds fl QueryDurationSeconds [(''route_template'', route)] seconds m1) (\<lambda>m2.
       if why = ''query_timeout'' then metric_inc QueryTimeoutsTotal [(''route_template'', route)] 1 m2
       else Some m2))"

section \<open>Reading the registry\<close>

definition merged_shards :: "'f Metrics \<Rightarrow> 'f MetricsInner" where
  "merged_shards m =
     foldl (\<lambda>acc inner. \<lparr>counters = bt_extend (counters acc) (counters inner),
                       gauges = bt_extend (gauges acc) (gauges inner)\<rparr>) empty_inner m"

definition escape_label_value :: "string \<Rightarrow> string" where
  "escape_label_value v = str_replace [CHR 0x22] [CHR 0x5C, CHR 0x22] (str_replace [CHR 0x5C] [CHR 0x5C, CHR 0x5C] v)"

definition render_id :: "MetricId \<Rightarrow> string" where
  "render_id i =
     (if id_labels i = [] then id_name i
      else id_name i @ ''{'' @
        join '','' (map (\<lambda>l. fst l @ ''='' @ [CHR 0x22] @ escape_label_value (snd l) @ [CHR 0x22]) (id_labels i)) @ ''}'')"

definition render_inner :: "'f FloatOps \<Rightarrow> 'f MetricsInner \<Rightarrow> string" where
  "render_inner fl inner =
     concat (map (\<lambda>e. render_id (fst e) @ '' '' @ show_nat (unat (snd e)) @ [LF]) (counters inner)) @
     concat (map (\<lambda>e. render_id (fst e) @ '' '' @ float_fixed6 fl (snd e) @ [LF]) (gauges inner))"

definition render_prometheus :: "'f FloatOps \<Rightarrow> 'f Metrics \<Rightarrow> string" where
  "render_prometheus fl m = render_inner fl (merged_shards m)"

record 'f MetricSample =
  sample_name :: string
  sample_labels :: "(string, string) btree"
  sample_value :: 'f
  sample_kind :: MetricKind

definition metric_labels_map :: "MetricId \<Rightarrow> (string, string) btree" where
  "metric_labels_map i = bt_extend [] (id_labels i)"

definition counter_sample :: "string \<Rightarrow> (string, string) btree \<Rightarrow> 'f \<Rightarrow> 'f MetricSample" where
  "counter_sample nm ls v =
     \<lparr>sample_name = nm, sample_labels = ls, sample_value = v, sample_kind = CounterKind\<rparr>"

definition gauge_sample :: "string \<Rightarrow> (string, string) btree \<Rightarrow> 'f \<Rightarrow> 'f MetricSample" where
  "gauge_sample nm ls v =
     \<lparr>sample_name = nm, sample_labels = ls, sample_value = v, sample_kind = GaugeKind\<rparr>"

definition snapshot :: "'f FloatOps \<Rightarrow> 'f Metrics \<Rightarrow> 'f MetricSample list" where
  "snapshot fl m = (let merged = merged_shards m in
     map (\<lambda>e. counter_sample (id_name (fst e)) (metric_labels_map (fst e)) (float_of_u64 fl (snd e))) (counters merged) @
     map (\<lambda>e. gauge_sample (id_name (fst e)) (metric_labels_map (fst e)) (snd e)) (gauges merged))"

section \<open>Maps in shards\<close>

text \<open>
  A map split into \<open>n\<close> maps by an index of the keys: every key lives in the part of its
  index, and putting the parts together gives the whole map. Any index below \<open>n\<close> will do,
  which is all the registry needs of its hash.
\<close>

definition homed :: "('k::linorder \<Rightarrow> nat) \<Rightarrow> nat \<Rightarrow> ('k, 'v) btree list \<Rightarrow> bool" where
  "homed index n ms =
     (length ms = n \<and> (\<forall>i < n. bt_wf (ms ! i) \<and> (\<forall>k \<in> fst ` set (ms ! i). index k = i)))"

definition merge_all :: "('k::linorder, 'v) btree list \<Rightarrow> ('k, 'v) btree" where
  "merge_all ms = foldl bt_extend [] ms"

lemma bt_wf_merge: "bt_wf acc \<Longrightarrow> bt_wf (foldl bt_extend acc ms)"
  by (induction ms arbitrary: acc) auto

lemma get_merge:
  "(\<forall>m \<in> set ms. bt_wf m \<and> (bt_get m k = None \<or> bt_get m k = r)) \<Longrightarrow>
   bt_get acc k = None \<or> bt_get acc k = r \<Longrightarrow>
   bt_get acc k = r \<or> (\<exists>m \<in> set ms. bt_get m k = r) \<Longrightarrow>
   bt_get (foldl bt_extend acc ms) k = r"
proof (induction ms arbitrary: acc)
  case (Cons m ms)
  have wf: "bt_wf m" and m: "bt_get m k = None \<or> bt_get m k = r"
    using Cons.prems(1) by auto
  have step: "bt_get (bt_extend acc m) k = (bt_get acc ++ bt_get m) k"
    by (simp only: bt_get_extend [OF wf])
  have "bt_get (foldl bt_extend (bt_extend acc m) ms) k = r"
  proof (rule Cons.IH)
    show "\<forall>m \<in> set ms. bt_wf m \<and> (bt_get m k = None \<or> bt_get m k = r)"
      using Cons.prems(1) by simp
    show "bt_get (bt_extend acc m) k = None \<or> bt_get (bt_extend acc m) k = r"
      using m Cons.prems(2) unfolding step by (auto simp: map_add_def split: option.splits)
    show "bt_get (bt_extend acc m) k = r \<or> (\<exists>m \<in> set ms. bt_get m k = r)"
      using m Cons.prems(2,3) unfolding step by (auto simp: map_add_def split: option.splits)
  qed
  then show ?case by simp
qed simp

locale sharding =
  fixes index :: "'k::linorder \<Rightarrow> nat" and n :: nat
  assumes index_lt: "index k < n"
begin

lemma homed_empty: "homed index n (replicate n [])"
  by (simp add: homed_def)

lemma merge_wf: "bt_wf (merge_all ms)"
  by (simp add: merge_all_def bt_wf_merge)

lemma merge_get:
  assumes "homed index n ms"
  shows "bt_get (merge_all ms) k = bt_get (ms ! index k) k"
  unfolding merge_all_def
proof (rule get_merge)
  have elsewhere: "bt_get (ms ! i) k = None" if "i < n" "i \<noteq> index k" for i
    using assms that bt_get_dom [of "ms ! i"] unfolding homed_def by (metis domIff)
  show "\<forall>m \<in> set ms. bt_wf m \<and> (bt_get m k = None \<or> bt_get m k = bt_get (ms ! index k) k)"
    using assms elsewhere unfolding homed_def all_set_conv_all_nth by metis
  show "bt_get [] k = bt_get (ms ! index k) k \<or> (\<exists>m \<in> set ms. bt_get m k = bt_get (ms ! index k) k)"
    using assms index_lt [of k] unfolding homed_def by auto
qed simp

lemma homed_insert:
  assumes "homed index n ms"
  shows "homed index n (ms[index k := bt_insert k v (ms ! index k)])"
proof -
  let ?ms = "ms[index k := bt_insert k v (ms ! index k)]"
  have len: "length ms = n" using assms by (simp add: homed_def)
  have part: "bt_wf (ms ! i)" "\<forall>x \<in> fst ` set (ms ! i). index x = i" if "i < n" for i
    using assms that by (simp_all add: homed_def)
  have "bt_wf (?ms ! i) \<and> (\<forall>x \<in> fst ` set (?ms ! i). index x = i)" if "i < n" for i
  proof (cases "i = index k")
    case True
    then have "?ms ! i = bt_insert k v (ms ! i)" using len index_lt [of k] by simp
    then show ?thesis
      using part [OF that] True by (simp only: set_bt_insert bt_wf_insert ball_simps simp_thms)
  qed (use part [OF that] in simp)
  then show ?thesis using len by (simp add: homed_def)
qed

lemma merge_insert:
  assumes "homed index n ms"
  shows "merge_all (ms[index k := bt_insert k v (ms ! index k)]) = bt_insert k v (merge_all ms)"
proof (rule bt_ext)
  have len: "length ms = n" using assms by (simp add: homed_def)
  show "bt_get (merge_all (ms[index k := bt_insert k v (ms ! index k)])) = bt_get (bt_insert k v (merge_all ms))"
  proof
    fix x
    show "bt_get (merge_all (ms[index k := bt_insert k v (ms ! index k)])) x = bt_get (bt_insert k v (merge_all ms)) x"
      using merge_get [OF homed_insert [OF assms], of k v x] merge_get [OF assms, of x] len index_lt [of k]
      by (cases "index x = index k") (auto simp: nth_list_update)
  qed
qed (simp_all add: merge_wf)

end

lemma shard_for_lt: "shard_for i < METRICS_SHARDS"
proof -
  have "metric_hash i AND 15 \<le> 15" by (rule word_and_le1)
  then show ?thesis by (simp add: shard_for_def METRICS_SHARDS_def word_le_nat_alt)
qed

interpretation shards: sharding shard_for METRICS_SHARDS
  by unfold_locales (rule shard_for_lt)

section \<open>The registry without shards\<close>

text \<open>What the registry promises: the same recordings into one pair of maps.\<close>

datatype 'f metric_op =
  IncOp MetricName "(string \<times> string) list" "64 word"
| GaugeOp MetricName "(string \<times> string) list" 'f
| ObserveOp MetricName "(string \<times> string) list" 'f
| PhaseOp string string 'f
| QueryOp string nat string 'f

fun metric_step :: "'f FloatOps \<Rightarrow> 'f metric_op \<Rightarrow> 'f Metrics \<Rightarrow> 'f Metrics option" where
  "metric_step fl (IncOp nm ls by) m = metric_inc nm ls by m"
| "metric_step fl (GaugeOp nm ls v) m = metric_gauge nm ls v m"
| "metric_step fl (ObserveOp nm ls v) m = observe_seconds fl nm ls v m"
| "metric_step fl (PhaseOp route phase v) m = observe_query_route_phase_seconds fl route phase v m"
| "metric_step fl (QueryOp route st why v) m = metrics_query_request fl route st why v m"

definition flat_inc :: "MetricName \<Rightarrow> (string \<times> string) list \<Rightarrow> 64 word \<Rightarrow> 'f MetricsInner \<Rightarrow> 'f MetricsInner option" where
  "flat_inc nm ls by inner =
     (if metric_shape nm = CounterShape \<and> validate_metric_labels nm ls
      then Some (add_counter (MetricId (metric_as_str nm) ls) by inner) else None)"

definition flat_gauge :: "MetricName \<Rightarrow> (string \<times> string) list \<Rightarrow> 'f \<Rightarrow> 'f MetricsInner \<Rightarrow> 'f MetricsInner option" where
  "flat_gauge nm ls v inner =
     (if metric_shape nm = GaugeShape \<and> validate_metric_labels nm ls
      then Some (put_gauge (MetricId (metric_as_str nm) ls) v inner) else None)"

definition flat_observe ::
  "'f FloatOps \<Rightarrow> MetricName \<Rightarrow> (string \<times> string) list \<Rightarrow> 'f \<Rightarrow> 'f MetricsInner \<Rightarrow> 'f MetricsInner option" where
  "flat_observe fl nm ls v inner =
     (if metric_shape nm = ObservationShape \<and> validate_metric_labels nm ls
      then Some (add_gauge fl (MetricId (metric_as_str nm @ ''_sum'') ls) v
                  (add_counter (MetricId (metric_as_str nm @ ''_count'') ls) 1 inner))
      else None)"

fun flat_step :: "'f FloatOps \<Rightarrow> 'f metric_op \<Rightarrow> 'f MetricsInner \<Rightarrow> 'f MetricsInner option" where
  "flat_step fl (IncOp nm ls by) inner = flat_inc nm ls by inner"
| "flat_step fl (GaugeOp nm ls v) inner = flat_gauge nm ls v inner"
| "flat_step fl (ObserveOp nm ls v) inner = flat_observe fl nm ls v inner"
| "flat_step fl (PhaseOp route phase v) inner =
     flat_observe fl PhaseDurationSeconds [(''route_template'', route), (''phase'', phase)] v inner"
| "flat_step fl (QueryOp route st why v) inner =
     Option.bind (flat_inc QueryRequestsTotal
         [(''route_template'', route), (''status'', show_nat st), (''reason'', why)] 1 inner) (\<lambda>i1.
     Option.bind (flat_observe fl QueryDurationSeconds [(''route_template'', route)] v i1) (\<lambda>i2.
       if why = ''query_timeout'' then flat_inc QueryTimeoutsTotal [(''route_template'', route)] 1 i2
       else Some i2))"

fun run_ops :: "('o \<Rightarrow> 's \<Rightarrow> 's option) \<Rightarrow> 'o list \<Rightarrow> 's \<Rightarrow> 's option" where
  "run_ops step [] s = Some s"
| "run_ops step (o1 # rest) s = Option.bind (step o1 s) (run_ops step rest)"

definition registry_ok :: "'f Metrics \<Rightarrow> bool" where
  "registry_ok m =
     (homed shard_for METRICS_SHARDS (map counters m) \<and> homed shard_for METRICS_SHARDS (map gauges m))"

lemma merged_shards_eq:
  "merged_shards m = \<lparr>counters = merge_all (map counters m), gauges = merge_all (map gauges m)\<rparr>"
proof -
  have "foldl (\<lambda>acc inner. \<lparr>counters = bt_extend (counters acc) (counters inner),
          gauges = bt_extend (gauges acc) (gauges inner)\<rparr>) \<lparr>counters = c, gauges = g\<rparr> m =
        \<lparr>counters = foldl bt_extend c (map counters m), gauges = foldl bt_extend g (map gauges m)\<rparr>" for c g
    by (induction m arbitrary: c g) simp_all
  then show ?thesis by (simp add: merged_shards_def merge_all_def empty_inner_def)
qed

lemma shard_index_ok: "registry_ok m \<Longrightarrow> shard_for i < length m"
  using shard_for_lt [of i] by (simp add: registry_ok_def homed_def)

lemma registry_new: "registry_ok metrics_new"
  by (simp add: registry_ok_def metrics_new_def empty_inner_def shards.homed_empty)

lemma merge_all_empty: "merge_all (replicate k []) = []"
  unfolding merge_all_def by (induction k) (simp_all add: bt_extend_def)

lemma merged_new: "merged_shards metrics_new = empty_inner"
  by (simp add: merged_shards_eq metrics_new_def empty_inner_def merge_all_empty)

lemma in_shard_counters:
  assumes "registry_ok m" "\<And>inner. gauges (f inner) = gauges inner"
    "\<And>inner. counters (f inner) = bt_insert i (g (bt_get (counters inner) i)) (counters inner)"
  shows "registry_ok (in_shard i f m)"
    and "merged_shards (in_shard i f m) = (merged_shards m)
      \<lparr>counters := bt_insert i (g (bt_get (counters (merged_shards m)) i)) (counters (merged_shards m))\<rparr>"
proof -
  note lt = shard_index_ok [OF assms(1), of i]
  have home: "homed shard_for METRICS_SHARDS (map counters m)"
    using assms(1) by (simp add: registry_ok_def)
  have gs: "map gauges (in_shard i f m) = map gauges m"
    using lt assms(2) by (simp add: in_shard_def map_update list_update_same_conv)
  have cs: "map counters (in_shard i f m) = (map counters m)[shard_for i :=
      bt_insert i (g (bt_get (merge_all (map counters m)) i)) (map counters m ! shard_for i)]"
    using lt assms(3) shards.merge_get [OF home, of i] by (simp add: in_shard_def map_update)
  show "registry_ok (in_shard i f m)"
    using assms(1) shards.homed_insert [OF home] by (simp add: registry_ok_def gs cs)
  show "merged_shards (in_shard i f m) = (merged_shards m)
      \<lparr>counters := bt_insert i (g (bt_get (counters (merged_shards m)) i)) (counters (merged_shards m))\<rparr>"
    using shards.merge_insert [OF home] by (simp add: merged_shards_eq gs cs)
qed

lemma in_shard_gauges:
  assumes "registry_ok m" "\<And>inner. counters (f inner) = counters inner"
    "\<And>inner. gauges (f inner) = bt_insert i (g (bt_get (gauges inner) i)) (gauges inner)"
  shows "registry_ok (in_shard i f m)"
    and "merged_shards (in_shard i f m) = (merged_shards m)
      \<lparr>gauges := bt_insert i (g (bt_get (gauges (merged_shards m)) i)) (gauges (merged_shards m))\<rparr>"
proof -
  note lt = shard_index_ok [OF assms(1), of i]
  have home: "homed shard_for METRICS_SHARDS (map gauges m)"
    using assms(1) by (simp add: registry_ok_def)
  have cs: "map counters (in_shard i f m) = map counters m"
    using lt assms(2) by (simp add: in_shard_def map_update list_update_same_conv)
  have gs: "map gauges (in_shard i f m) = (map gauges m)[shard_for i :=
      bt_insert i (g (bt_get (merge_all (map gauges m)) i)) (map gauges m ! shard_for i)]"
    using lt assms(3) shards.merge_get [OF home, of i] by (simp add: in_shard_def map_update)
  show "registry_ok (in_shard i f m)"
    using assms(1) shards.homed_insert [OF home] by (simp add: registry_ok_def gs cs)
  show "merged_shards (in_shard i f m) = (merged_shards m)
      \<lparr>gauges := bt_insert i (g (bt_get (gauges (merged_shards m)) i)) (gauges (merged_shards m))\<rparr>"
    using shards.merge_insert [OF home] by (simp add: merged_shards_eq gs cs)
qed

lemma sim_add_counter:
  assumes "registry_ok m"
  shows "registry_ok (in_shard i (add_counter i by) m) \<and>
    merged_shards (in_shard i (add_counter i by) m) = add_counter i by (merged_shards m)"
  using in_shard_counters [OF assms, of "add_counter i by" i "\<lambda>x. case x of None \<Rightarrow> by | Some c \<Rightarrow> c + by"]
  by (simp add: add_counter_def)

lemma sim_put_gauge:
  assumes "registry_ok m"
  shows "registry_ok (in_shard i (put_gauge i v) m) \<and>
    merged_shards (in_shard i (put_gauge i v) m) = put_gauge i v (merged_shards m)"
  using in_shard_gauges [OF assms, of "put_gauge i v" i "\<lambda>_. v"] by (simp add: put_gauge_def)

lemma sim_add_gauge:
  assumes "registry_ok m"
  shows "registry_ok (in_shard i (add_gauge fl i v) m) \<and>
    merged_shards (in_shard i (add_gauge fl i v) m) = add_gauge fl i v (merged_shards m)"
  using in_shard_gauges [OF assms, of "add_gauge fl i v" i
    "\<lambda>x. float_add fl (case x of None \<Rightarrow> float_zero fl | Some c \<Rightarrow> c) v"]
  by (simp add: add_gauge_def)

section \<open>Sharding cannot be seen\<close>

definition agrees :: "'f Metrics option \<Rightarrow> 'f MetricsInner option \<Rightarrow> bool" where
  "agrees r q = (case r of None \<Rightarrow> q = None | Some m \<Rightarrow> registry_ok m \<and> q = Some (merged_shards m))"

lemma agrees_None [simp]: "agrees None q \<longleftrightarrow> q = None"
  by (simp add: agrees_def)

lemma agrees_Some [simp]: "agrees (Some m) q \<longleftrightarrow> registry_ok m \<and> q = Some (merged_shards m)"
  by (simp add: agrees_def)

lemma agrees_bind:
  assumes "agrees r q" "\<And>m. registry_ok m \<Longrightarrow> agrees (f m) (g (merged_shards m))"
  shows "agrees (Option.bind r f) (Option.bind q g)"
  using assms by (cases r) simp_all

lemma agrees_inc: "registry_ok m \<Longrightarrow> agrees (metric_inc nm ls by m) (flat_inc nm ls by (merged_shards m))"
  by (simp add: metric_inc_def flat_inc_def Let_def sim_add_counter)

lemma agrees_gauge: "registry_ok m \<Longrightarrow> agrees (metric_gauge nm ls v m) (flat_gauge nm ls v (merged_shards m))"
  by (simp add: metric_gauge_def flat_gauge_def Let_def sim_put_gauge)

lemma agrees_observe:
  "registry_ok m \<Longrightarrow> agrees (observe_seconds fl nm ls v m) (flat_observe fl nm ls v (merged_shards m))"
  by (simp add: observe_seconds_def flat_observe_def Let_def sim_add_gauge sim_add_counter)

lemma agrees_step: "registry_ok m \<Longrightarrow> agrees (metric_step fl p m) (flat_step fl p (merged_shards m))"
proof (cases p)
  case (QueryOp route st why v)
  assume ok: "registry_ok m"
  then show ?thesis
    unfolding QueryOp metric_step.simps flat_step.simps metrics_query_request_def status_label_def
    by (intro agrees_bind agrees_inc agrees_observe) (simp_all add: agrees_inc)
qed (simp_all add: agrees_inc agrees_gauge agrees_observe observe_query_route_phase_seconds_def)

lemma agrees_run:
  "registry_ok m \<Longrightarrow> agrees (run_ops (metric_step fl) ps m) (run_ops (flat_step fl) ps (merged_shards m))"
  by (induction ps arbitrary: m) (simp_all add: agrees_bind agrees_step)

text \<open>
  C24. Sharding is invisible: whatever is recorded, in whatever order, the registry renders
  the text that one unsharded pair of maps gives, and it panics on a recording exactly when
  the unsharded one does.
\<close>

theorem metrics_shards_invisible:
  "map_option (render_prometheus fl) (run_ops (metric_step fl) ps metrics_new) =
   map_option (render_inner fl) (run_ops (flat_step fl) ps empty_inner)"
  using agrees_run [OF registry_new, of fl ps]
  by (cases "run_ops (metric_step fl) ps metrics_new") (simp_all add: merged_new render_prometheus_def)

section \<open>Recording a query never panics\<close>

lemma labels_ok [simp]:
  "validate_metric_labels QueryRequestsTotal [(''route_template'', a), (''status'', b), (''reason'', c)]"
  "validate_metric_labels QueryDurationSeconds [(''route_template'', a)]"
  "validate_metric_labels QueryTimeoutsTotal [(''route_template'', a)]"
  "validate_metric_labels PhaseDurationSeconds [(''route_template'', a), (''phase'', b)]"
  by (simp_all add: validate_metric_labels_def)

lemma metrics_query_request_total: "metrics_query_request fl route st why v m \<noteq> None"
  by (simp add: metrics_query_request_def metric_inc_def observe_seconds_def Let_def)

lemma phase_total: "observe_query_route_phase_seconds fl route phase v m \<noteq> None"
  by (simp add: observe_query_route_phase_seconds_def observe_seconds_def Let_def)

end
