(* ===== verification/Server.thy ===== *)
theory Server
  imports Http_Parser Routes Metrics
begin

text \<open>
  One connection of the HTTP server (\<^verbatim>\<open>handle_stream\<close> of
  \<^verbatim>\<open>src/src/http/server.rs\<close>): reading requests off the socket within the parser's limits,
  routing them and answering in order until the connection closes. The socket is the list of
  buffers it will deliver; writes to it are taken to succeed. A panic, of a handler or of an
  assertion in the metrics, ends the thread of its connection.
\<close>

section \<open>Limits and fixed answers\<close>

definition KEEPALIVE_REQUEST_LIMIT :: nat where
  "KEEPALIVE_REQUEST_LIMIT = 10000"

definition should_keep_connection_alive :: "bool \<Rightarrow> nat \<Rightarrow> bool" where
  "should_keep_connection_alive client_requested_close requests_served =
     (\<not> client_requested_close \<and> requests_served < KEEPALIVE_REQUEST_LIMIT)"

text \<open>
  The parts of the state a connection uses: the router's services, the counters, and which
  socket errors are timeouts.
\<close>

record ('s, 'f) Connection =
  services :: "('s, 'f) Services"
  inc_metric :: "MetricName \<Rightarrow> (string \<times> string) list \<Rightarrow> 's effect"
  is_socket_timeout :: "string \<Rightarrow> bool"

definition header_limit_response :: "('s, 'f) Connection \<Rightarrow> HttpResponse" where
  "header_limit_response con =
     response_json (json_text (services con)) 400
       (JObject [(''error'', JString ''headers_too_large''),
                 (''message'', JString ''request headers exceed configured parser limits'')])"

definition content_length_response :: "('s, 'f) Connection \<Rightarrow> HttpResponse" where
  "content_length_response con =
     response_json (json_text (services con)) 400
       (JObject [(''error'', JString ''invalid_content_length''),
                 (''message'', JString ''content-length must be a non-negative integer'')])"

definition body_limit_response :: "('s, 'f) Connection \<Rightarrow> nat \<Rightarrow> HttpResponse" where
  "body_limit_response con n =
     response_json (json_text (services con)) 400
       (JObject [(''error'', JString ''payload_too_large''),
                 (''message'', JString (''payload has '' @ show_nat n @ '' bytes; max is '' @
                    show_nat (max_body_bytes (operator (svc_config (services con))))))])"

definition classify_io_error :: "('s, 'f) Connection \<Rightarrow> string \<Rightarrow> string" where
  "classify_io_error con msg =
     (if is_socket_timeout con msg then ''socket_timeout''
      else if str_contains msg ''timed out'' \<or> str_contains msg ''timeout'' then ''socket_timeout''
      else if str_contains msg ''connection reset'' \<or> str_contains msg ''broken pipe'' then ''connection_reset''
      else ''io_error'')"

section \<open>Reading a request\<close>

lemma read_line_loop_count:
  "read_line_loop max_bytes count out bufs = (Inr (ReadLine n, out'), rest) \<Longrightarrow>
   n + length out = count + length out' \<and> n \<le> max max_bytes count"
  by (induction max_bytes count out bufs rule: read_line_loop.induct)
    (auto split: if_splits prod.splits)

lemma read_bounded_line_nonempty:
  "read_bounded_line max_bytes bufs = (Inr (ReadLine n, line), rest) \<Longrightarrow> line \<noteq> [] \<Longrightarrow> 0 < n"
  using read_line_loop_count [of max_bytes 0 "[]" bufs]
  by (fastforce simp: read_bounded_line_def split: prod.splits sum.splits LineRead.splits)

definition is_line_end :: "char \<Rightarrow> bool" where
  "is_line_end c = (c = CR \<or> c = LF)"

definition insert_header :: "string \<Rightarrow> headers \<Rightarrow> headers" where
  "insert_header line hs =
     (case split_once '':'' line of
        Some (k, v) \<Rightarrow> insert_param (to_ascii_lowercase (trim k)) (trim v) hs
      | None \<Rightarrow> hs)"

datatype header_read = HeadersRead headers | HeadersTooLarge | HeadersFailed string

text \<open>
  The header lines up to the empty one. Every line counted is at least one byte and the
  bytes are bounded, so the loop ends.
\<close>

function read_headers :: "nat \<Rightarrow> headers \<Rightarrow> buffer list \<Rightarrow> header_read \<times> buffer list" where
  "read_headers header_bytes hs bufs =
     (case read_bounded_line MAX_HEADER_LINE_BYTES bufs of
        (Inl e, rest) \<Rightarrow> (HeadersFailed e, rest)
      | (Inr (TooLong, _), rest) \<Rightarrow> (HeadersTooLarge, rest)
      | (Inr (ReadLine n, line), rest) \<Rightarrow>
          (if header_bytes + n > MAX_HEADER_BYTES \<or> length hs \<ge> MAX_HEADER_COUNT then (HeadersTooLarge, rest)
           else if trim_end_matches is_line_end line = [] then (HeadersRead hs, rest)
           else read_headers (header_bytes + n) (insert_header (trim_end_matches is_line_end line) hs) rest))"
  by pat_completeness auto
termination
proof (relation "measure (\<lambda>(header_bytes, hs, bufs). Suc MAX_HEADER_BYTES - header_bytes)", goal_cases)
  case (2 header_bytes hs bufs r rest x lr line n)
  then have "line \<noteq> []" by (auto simp: trim_end_matches_def)
  then have "0 < n" using 2 read_bounded_line_nonempty by metis
  then show ?case using 2 by auto
qed simp

declare read_headers.simps [simp del]

fun read_exact :: "nat \<Rightarrow> buffer list \<Rightarrow> (string + string) \<times> buffer list" where
  "read_exact n [] = (if n = 0 then (Inr [], []) else (Inl ''failed to fill whole buffer'', []))"
| "read_exact n (IoError e # bufs) = (if n = 0 then (Inr [], IoError e # bufs) else (Inl e, bufs))"
| "read_exact n (Bytes b # bufs) =
     (if n = 0 then (Inr [], Bytes b # bufs)
      else if length b < n then
        (case read_exact (n - length b) bufs of
           (Inr r, rest) \<Rightarrow> (Inr (b @ r), rest)
         | (Inl e, rest) \<Rightarrow> (Inl e, rest))
      else (Inr (take n b), if length b = n then bufs else Bytes (drop n b) # bufs))"

datatype request_read =
  StreamEnded
| FirstLineFailed string
| ReadFailed string
| Refused HttpResponse
| Request string string headers string

definition content_length :: "headers \<Rightarrow> nat option" where
  "content_length hs =
     (case map_of hs ''content-length'' of
        Some raw \<Rightarrow> parse_unsigned (2 ^ 64 - 1) raw
      | None \<Rightarrow> Some 0)"

definition read_request :: "('s, 'f) Connection \<Rightarrow> buffer list \<Rightarrow> request_read \<times> buffer list" where
  "read_request con bufs =
     (case read_bounded_line MAX_REQUEST_LINE_BYTES bufs of
        (Inl e, rest) \<Rightarrow> (FirstLineFailed e, rest)
      | (Inr (TooLong, _), rest) \<Rightarrow> (Refused (header_limit_response con), rest)
      | (Inr (ReadLine first_read, first), rest) \<Rightarrow>
          if first_read = 0 then (StreamEnded, rest)
          else
            (let parts = split_whitespace first;
                 verb = (case parts of m # _ \<Rightarrow> m | [] \<Rightarrow> []);
                 target = (case parts of _ # t # _ \<Rightarrow> t | _ \<Rightarrow> ''/'') in
             case read_headers 0 [] rest of
               (HeadersFailed e, rest) \<Rightarrow> (ReadFailed e, rest)
             | (HeadersTooLarge, rest) \<Rightarrow> (Refused (header_limit_response con), rest)
             | (HeadersRead hs, rest) \<Rightarrow>
                 (case content_length hs of
                    None \<Rightarrow> (Refused (content_length_response con), rest)
                  | Some n \<Rightarrow>
                      if n > max_body_bytes (operator (svc_config (services con)))
                      then (Refused (body_limit_response con n), rest)
                      else (case read_exact n rest of
                              (Inl e, rest) \<Rightarrow> (ReadFailed e, rest)
                            | (Inr body, rest) \<Rightarrow> (Request verb target hs body, rest)))))"

section \<open>The connection\<close>

definition close_requested :: "headers \<Rightarrow> bool" where
  "close_requested hs =
     (case map_of hs ''connection'' of Some v \<Rightarrow> eq_ignore_ascii_case v ''close'' | None \<Rightarrow> False)"

datatype connection_end = ConnectionClosed | ConnectionFailed string | ConnectionPanicked

text \<open>A request answered is counted before its response is written.\<close>

definition counted :: "('s, 'f) Connection \<Rightarrow> bool \<Rightarrow> HttpResponse option \<times> 's \<Rightarrow> HttpResponse option \<times> 's" where
  "counted con keep_alive rs =
     (case rs of
        (None, s) \<Rightarrow> (None, s)
      | (Some response, s) \<Rightarrow>
          seq_do (inc_metric con HttpConnectionRequestsTotal
              [(''mode'', if keep_alive then ''keep_alive'' else ''connection_close'')])
            (\<lambda>t. (Some response, t)) s)"

definition close_counted :: "('s, 'f) Connection \<Rightarrow> string \<Rightarrow> 's \<Rightarrow> connection_end \<times> 's" where
  "close_counted con why s =
     (case inc_metric con HttpConnectionClosesTotal [(''reason'', why)] s of
        (None, t) \<Rightarrow> (ConnectionPanicked, t)
      | (Some _, t) \<Rightarrow> (ConnectionClosed, t))"

text \<open>The responses written, in order; how the connection ended; the state it left.\<close>

function handle_stream ::
  "('s, 'f) Connection \<Rightarrow> nat \<Rightarrow> buffer list \<Rightarrow> 's \<Rightarrow> string list \<times> connection_end \<times> 's" where
  "handle_stream con requests bufs s =
     (case read_request con bufs of
        (StreamEnded, _) \<Rightarrow> ([], ConnectionClosed, s)
      | (FirstLineFailed e, _) \<Rightarrow>
          (if 0 < requests \<and> is_socket_timeout con e
           then ([], close_counted con ''keepalive_idle_timeout'' s)
           else ([], ConnectionFailed e, s))
      | (ReadFailed e, _) \<Rightarrow> ([], ConnectionFailed e, s)
      | (Refused response, _) \<Rightarrow> ([write_response response], ConnectionClosed, s)
      | (Request verb target hs body, rest) \<Rightarrow>
          (case split_target target of (path, query) \<Rightarrow>
           let keep_alive = should_keep_connection_alive (close_requested hs) (requests + 1) in
           case counted con keep_alive (route_owned (services con) verb path query hs body s) of
             (None, s') \<Rightarrow> ([], ConnectionPanicked, s')
           | (Some response, s') \<Rightarrow>
               (let out = write_response_with_connection response keep_alive in
                if should_keep_connection_alive (close_requested hs) (requests + 1)
                then apfst (Cons out) (handle_stream con (requests + 1) rest s')
                else ([out],
                  if KEEPALIVE_REQUEST_LIMIT \<le> requests + 1 then close_counted con ''keepalive_request_limit'' s'
                  else (ConnectionClosed, s')))))"
  by pat_completeness auto
termination
  by (relation "measure (\<lambda>(con, requests, bufs, s). KEEPALIVE_REQUEST_LIMIT - requests)")
    (auto simp: should_keep_connection_alive_def)

declare handle_stream.simps [simp del]

text \<open>The thread of a connection records how it failed.\<close>

definition serve_connection :: "('s, 'f) Connection \<Rightarrow> buffer list \<Rightarrow> 's \<Rightarrow> string list \<times> connection_end \<times> 's" where
  "serve_connection con bufs s =
     (case handle_stream con 0 bufs s of
        (outs, ConnectionFailed e, t) \<Rightarrow>
          (case inc_metric con HttpConnectionErrorsTotal [(''reason'', classify_io_error con e)] t of
             (None, t') \<Rightarrow> (outs, ConnectionPanicked, t')
           | (Some _, t') \<Rightarrow> (outs, ConnectionFailed e, t'))
      | ended \<Rightarrow> ended)"

text \<open>
  Accepting a connection: the counter of the connections served goes up, or the client is
  told to come back; a thread that ends takes its connection off the counter. A panic here
  would end the loop that accepts.
\<close>

definition overload_error :: ApiError where
  "overload_error =
     with_retry_after (ApiError_new 503 ''server_overloaded'' ''max concurrent connections exceeded'') 5"

definition accept_connection :: "('s, 'f) Connection \<Rightarrow> nat \<Rightarrow> 's \<Rightarrow> (string option \<times> nat) option \<times> 's" where
  "accept_connection con served s =
     (if served \<ge> max_concurrent_connections (operator (svc_config (services con))) then
        seq_do (inc_metric con HttpConnectionErrorsTotal [(''reason'', ''max_connections_exceeded'')])
          (\<lambda>t. (Some (Some (write_response (from_api_error (json_text (services con)) overload_error)), served), t)) s
      else (Some (None, served + 1), s))"

section \<open>A connection is bounded\<close>

text \<open>Whatever a client sends, its connection answers at most 10,000 requests.\<close>

lemma handle_stream_bounded: "length (fst (handle_stream con n bufs s)) \<le> max 1 (KEEPALIVE_REQUEST_LIMIT - n)"
proof (induction con n bufs s rule: handle_stream.induct)
  case (1 con n bufs s)
  obtain r rest where read: "read_request con bufs = (r, rest)" by force
  show ?case
  proof (cases r)
    case (Request verb target hs body)
    obtain path query where target: "split_target target = (path, query)" by force
    let ?keep = "should_keep_connection_alive (close_requested hs) (n + 1)"
    obtain answer s' where served: "counted con ?keep (route_owned (services con) verb path query hs body s) = (answer, s')" by force
    note step = handle_stream.simps [of con n bufs s, unfolded read Request target, simplified, unfolded target, simplified, unfolded Let_def]
    show ?thesis
    proof (cases answer)
      case (Some response)
      show ?thesis
      proof (cases ?keep)
        case True
        then have "Suc n < KEEPALIVE_REQUEST_LIMIT" by (simp add: should_keep_connection_alive_def)
        with 1 [OF read [symmetric] Request target [symmetric] refl served [symmetric] Some refl True] True Some served
        show ?thesis by (auto simp: step Let_def)
      qed (use served Some in \<open>simp add: step Let_def\<close>)
    qed (use served in \<open>simp add: step\<close>)
  qed (simp_all add: handle_stream.simps [of con n bufs s] read)
qed

section \<open>What a client sends\<close>

record ClientRequest =
  req_verb :: string
  req_target :: string
  req_headers :: headers
  req_body :: string

definition render_header :: "string \<times> string \<Rightarrow> string" where
  "render_header h = fst h @ '': '' @ snd h @ [CR, LF]"

definition render_request :: "ClientRequest \<Rightarrow> string" where
  "render_request r =
     req_verb r @ '' '' @ req_target r @ '' HTTP/1.1'' @ [CR, LF] @
     concat (map render_header (req_headers r)) @ [CR, LF] @ req_body r"

definition received_headers :: "headers \<Rightarrow> headers \<Rightarrow> headers" where
  "received_headers sent hs = fold (\<lambda>h. insert_param (to_ascii_lowercase (fst h)) (snd h)) sent hs"

definition ascii_text :: "string \<Rightarrow> bool" where
  "ascii_text s = list_all (\<lambda>c. byte c < (128::nat) \<and> c \<noteq> CR \<and> c \<noteq> LF) s"

definition sendable_header :: "string \<times> string \<Rightarrow> bool" where
  "sendable_header h =
     (list_all plain_char (fst h) \<and> fst h \<noteq> [] \<and> CHR '':'' \<notin> set (fst h) \<and> ascii_text (snd h) \<and>
      trim (snd h) = snd h \<and> length (render_header h) \<le> MAX_HEADER_LINE_BYTES)"

text \<open>A request within the limits of the parser.\<close>

definition sendable :: "('s, 'f) Connection \<Rightarrow> ClientRequest \<Rightarrow> bool" where
  "sendable con r =
     (list_all plain_char (req_verb r) \<and> req_verb r \<noteq> [] \<and>
      list_all plain_char (req_target r) \<and> req_target r \<noteq> [] \<and>
      length (req_verb r) + length (req_target r) + 12 \<le> MAX_REQUEST_LINE_BYTES \<and>
      list_all sendable_header (req_headers r) \<and> length (req_headers r) < MAX_HEADER_COUNT \<and>
      length (concat (map render_header (req_headers r))) + 2 \<le> MAX_HEADER_BYTES \<and>
      content_length (received_headers (req_headers r) []) = Some (length (req_body r)) \<and>
      length (req_body r) \<le> max_body_bytes (operator (svc_config (services con))))"

lemma plain_ascii_text: "list_all plain_char s \<Longrightarrow> ascii_text s"
  by (auto simp: ascii_text_def list_all_iff plain_char_def)

lemma ascii_text_append [simp]: "ascii_text (a @ b) \<longleftrightarrow> ascii_text a \<and> ascii_text b"
  by (simp add: ascii_text_def)

lemma ascii_text_Cons [simp]:
  "ascii_text (c # s) \<longleftrightarrow> byte c < (128::nat) \<and> c \<noteq> CR \<and> c \<noteq> LF \<and> ascii_text s"
  by (simp add: ascii_text_def)

lemma line_take_at: "LF \<notin> set l \<Longrightarrow> line_take (l @ LF # r) = (l @ [LF], r)"
  by (simp add: line_take_skip)

lemma lossy_line: "ascii_text l \<Longrightarrow> from_utf8_lossy (l @ [CR, LF]) = l @ [CR, LF]"
  by (intro from_utf8_lossy_valid ascii_valid) (auto simp: ascii_text_def list_all_iff)

lemma read_line:
  assumes "all_bytes bufs" "buffered bufs = l @ CR # LF # r" "ascii_text l" "length l + 2 \<le> max_bytes"
  shows "\<exists>rest. read_bounded_line max_bytes bufs = (Inr (ReadLine (length l + 2), l @ [CR, LF]), rest) \<and>
    all_bytes rest \<and> buffered rest = r"
proof -
  have "LF \<notin> set (l @ [CR])" using assms(3) by (auto simp: ascii_text_def list_all_iff)
  from line_take_at [OF this, of r] have "line_take (buffered bufs) = (l @ [CR, LF], r)"
    using assms(2) by simp
  from read_line_loop_spec [OF assms(1) this, of 0 max_bytes "[]"] assms(4)
  obtain rest where "read_line_loop max_bytes 0 [] bufs = (Inr (ReadLine (length l + 2), l @ [CR, LF]), rest)"
    "all_bytes rest" "buffered rest = r" by auto
  then show ?thesis using lossy_line [OF assms(3)] by (auto simp: read_bounded_line_def)
qed

lemma trim_line_end: "ascii_text l \<Longrightarrow> trim_end_matches is_line_end (l @ [CR, LF]) = l"
  by (cases l rule: rev_cases) (auto simp: trim_end_matches_def is_line_end_def ascii_text_def)

lemma insert_sent_header:
  assumes "sendable_header h"
  shows "insert_header (fst h @ '': '' @ snd h) hs = insert_param (to_ascii_lowercase (fst h)) (snd h) hs"
proof -
  have "split_once '':'' (fst h @ '': '' @ snd h) = Some (fst h, '' '' @ snd h)"
    using assms split_once_char_append [of "CHR '':''" "fst h" "'' '' @ snd h"] by (simp add: sendable_header_def)
  moreover have "trim ('' '' @ snd h) = snd h"
    using assms by (simp add: sendable_header_def trim_def trim_start_space)
  ultimately show ?thesis
    using assms by (simp add: insert_header_def sendable_header_def trim_all_plain)
qed

lemma length_insert_param: "length (insert_param k v hs) \<le> Suc (length hs)"
  by (simp add: insert_param_def)

lemma read_headers_sent:
  assumes "list_all sendable_header sent" "length hs + length sent < MAX_HEADER_COUNT"
    "n + length (concat (map render_header sent)) + 2 \<le> MAX_HEADER_BYTES"
    "all_bytes bufs" "buffered bufs = concat (map render_header sent) @ CR # LF # r"
  shows "\<exists>rest. read_headers n hs bufs = (HeadersRead (received_headers sent hs), rest) \<and>
    all_bytes rest \<and> buffered rest = r"
  using assms
proof (induction sent arbitrary: n hs bufs)
  case Nil
  then obtain rest where rest: "read_bounded_line MAX_HEADER_LINE_BYTES bufs = (Inr (ReadLine 2, [CR, LF]), rest)"
    "all_bytes rest" "buffered rest = r"
    using read_line [of bufs "[]" r MAX_HEADER_LINE_BYTES] by (auto simp: ascii_text_def)
  then show ?case
    using Nil.prems unfolding read_headers.simps [of n hs bufs] rest(1)
    by (simp add: received_headers_def trim_end_matches_def is_line_end_def)
next
  case (Cons h sent)
  let ?line = "fst h @ '': '' @ snd h"
  have h: "sendable_header h" using Cons.prems(1) by simp
  then have line_ok: "ascii_text ?line"
    using plain_ascii_text by (simp add: sendable_header_def)
  have "buffered bufs = ?line @ CR # LF # concat (map render_header sent) @ CR # LF # r"
    using Cons.prems(5) by (simp add: render_header_def [of h])
  from read_line [OF Cons.prems(4) this line_ok, of MAX_HEADER_LINE_BYTES] h
  obtain rest where rest: "read_bounded_line MAX_HEADER_LINE_BYTES bufs = (Inr (ReadLine (length ?line + 2), ?line @ [CR, LF]), rest)"
    "all_bytes rest" "buffered rest = concat (map render_header sent) @ CR # LF # r"
    by (auto simp: sendable_header_def render_header_def)
  have len: "length (render_header h) = length ?line + 2" by (simp add: render_header_def)
  have next_step: "read_headers n hs bufs = read_headers (n + (length ?line + 2)) (insert_header ?line hs) rest"
    using Cons.prems(2,3) trim_line_end [OF line_ok] len unfolding read_headers.simps [of n hs bufs] rest(1) by simp
  have "\<exists>rest'. read_headers (n + (length ?line + 2)) (insert_header ?line hs) rest =
      (HeadersRead (received_headers sent (insert_header ?line hs)), rest') \<and> all_bytes rest' \<and> buffered rest' = r"
    using Cons.prems(1,2,3) len rest length_insert_param [of "to_ascii_lowercase (fst h)" "snd h" hs]
    unfolding insert_sent_header [OF h] by (intro Cons.IH) simp_all
  then show ?case
    unfolding next_step insert_sent_header [OF h] by (simp add: received_headers_def)
qed

lemma read_exact_bytes:
  "all_bytes bufs \<Longrightarrow> buffered bufs = b @ r \<Longrightarrow>
   \<exists>rest. read_exact (length b) bufs = (Inr b, rest) \<and> all_bytes rest \<and> buffered rest = r"
proof (induction "length b" bufs arbitrary: b rule: read_exact.induct)
  case (3 c bufs)
  show ?case
  proof (cases "length c < length b")
    case True
    then obtain b' where b: "b = c @ b'" "buffered bufs = b' @ r"
      using 3(3) by (auto simp: append_eq_append_conv2)
    then show ?thesis using 3(1) [of b'] 3(2) True by (auto simp: all_bytes_def)
  next
    case False
    then obtain c' where "c = b @ c'" "r = c' @ buffered bufs"
      using 3(3) by (auto simp: append_eq_append_conv2)
    then show ?thesis using 3(2) by (auto simp: all_bytes_def)
  qed
qed (auto simp: all_bytes_def)

section \<open>Requests are received as sent\<close>

lemma read_sent_request:
  assumes "sendable con q" "all_bytes bufs" "buffered bufs = render_request q @ r"
  shows "\<exists>rest. read_request con bufs =
      (Request (req_verb q) (req_target q) (received_headers (req_headers q) []) (req_body q), rest) \<and>
    all_bytes rest \<and> buffered rest = r"
proof -
  let ?line = "req_verb q @ '' '' @ req_target q @ '' HTTP/1.1''"
  let ?sent = "req_headers q"
  have verb: "list_all plain_char (req_verb q)" "req_verb q \<noteq> []"
    and target: "list_all plain_char (req_target q)" "req_target q \<noteq> []"
    and hdrs: "list_all sendable_header ?sent" "length ?sent < MAX_HEADER_COUNT"
      "length (concat (map render_header ?sent)) + 2 \<le> MAX_HEADER_BYTES"
    and body: "content_length (received_headers ?sent []) = Some (length (req_body q))"
      "length (req_body q) \<le> max_body_bytes (operator (svc_config (services con)))"
    and len: "length ?line + 2 \<le> MAX_REQUEST_LINE_BYTES"
    using assms(1) by (simp_all add: sendable_def)
  have "ascii_text ?line"
    using plain_ascii_text [OF verb(1)] plain_ascii_text [OF target(1)] by (simp add: ascii_text_def [of "[]"])
  from read_line [OF assms(2) _ this len] assms(3)
  obtain rest1 where r1: "read_bounded_line MAX_REQUEST_LINE_BYTES bufs = (Inr (ReadLine (length ?line + 2), ?line @ [CR, LF]), rest1)"
    "all_bytes rest1" "buffered rest1 = concat (map render_header ?sent) @ CR # LF # (req_body q @ r)"
    by (auto simp: render_request_def)
  obtain rest2 where r2: "read_headers 0 [] rest1 = (HeadersRead (received_headers ?sent []), rest2)"
    "all_bytes rest2" "buffered rest2 = req_body q @ r"
    using read_headers_sent [of ?sent "[]" 0 rest1 "req_body q @ r"] hdrs r1 by auto
  obtain rest3 where r3: "read_exact (length (req_body q)) rest2 = (Inr (req_body q), rest3)"
    "all_bytes rest3" "buffered rest3 = r"
    using read_exact_bytes [OF r2(2,3)] by auto
  have sp: "at_whitespace (CHR 0x20 # s)" for s
    by (simp add: at_whitespace_def ws_chars_def)
  have "split_whitespace (?line @ [CR, LF]) =
      req_verb q # req_target q # split_whitespace ('' HTTP/1.1'' @ [CR, LF])"
    using split_whitespace_word [OF verb] split_whitespace_word [OF target] split_whitespace_space sp by simp
  then have "read_request con bufs =
      (Request (req_verb q) (req_target q) (received_headers ?sent []) (req_body q), rest3)"
    using body unfolding read_request_def r1(1) by (simp add: r2(1) r3(1) Let_def)
  then show ?thesis using r3 by blast
qed

text \<open>The reference: each request in turn, as its client sent it.\<close>

fun answer_requests ::
  "('s, 'f) Connection \<Rightarrow> nat \<Rightarrow> ClientRequest list \<Rightarrow> 's \<Rightarrow> string list \<times> connection_end \<times> 's" where
  "answer_requests con n [] s = ([], ConnectionClosed, s)"
| "answer_requests con n (q # qs) s =
     (let hs = received_headers (req_headers q) []; pq = split_target (req_target q) in
      let keep_alive = should_keep_connection_alive (close_requested hs) (n + 1) in
      case counted con keep_alive
          (route_inner (services con) (req_verb q) (fst pq) (snd pq) hs (req_body q) s) of
        (None, s') \<Rightarrow> ([], ConnectionPanicked, s')
      | (Some response, s') \<Rightarrow>
          let out = write_response_with_connection response keep_alive in
          if keep_alive then apfst (Cons out) (answer_requests con (n + 1) qs s')
          else ([out],
            if KEEPALIVE_REQUEST_LIMIT \<le> n + 1 then close_counted con ''keepalive_request_limit'' s'
            else (ConnectionClosed, s')))"

lemma read_nothing:
  "all_bytes bufs \<Longrightarrow> buffered bufs = [] \<Longrightarrow> read_request con bufs = (StreamEnded, snd (read_request con bufs))"
  using read_line_loop_spec [of bufs "[]" "[]" 0 MAX_REQUEST_LINE_BYTES "[]"]
  by (auto simp: read_request_def read_bounded_line_def)

lemma handle_sent_requests:
  "list_all (sendable con) qs \<Longrightarrow> all_bytes bufs \<Longrightarrow> buffered bufs = concat (map render_request qs) \<Longrightarrow>
   handle_stream con n bufs s = answer_requests con n qs s"
proof (induction qs arbitrary: n bufs s)
  case Nil
  then show ?case
    using read_nothing [of bufs con] by (subst handle_stream.simps) (auto split: prod.split)
next
  case (Cons q qs)
  obtain rest where rest: "read_request con bufs =
      (Request (req_verb q) (req_target q) (received_headers (req_headers q) []) (req_body q), rest)"
    "all_bytes rest" "buffered rest = concat (map render_request qs)"
    using read_sent_request [of con q bufs "concat (map render_request qs)"] Cons.prems by auto
  have IH: "handle_stream con (n + 1) rest t = answer_requests con (n + 1) qs t" for t
    using Cons.IH rest Cons.prems(1) by simp
  show ?case
    by (subst handle_stream.simps)
      (simp add: rest(1) IH [simplified] Let_def split: prod.split option.split)
qed

text \<open>
  C12. Pipelined requests are answered exactly: however the bytes are cut into buffers, every
  request within the parser's limits reaches the router once, in order, with the method,
  target, headers and body its client sent, and its response is written before the next
  request is read, until one asks to close or the limit of the connection is reached.
\<close>

theorem pipelined_requests_answered:
  assumes "list_all (sendable con) qs" "all_bytes bufs" "buffered bufs = concat (map render_request qs)"
  shows "handle_stream con 0 bufs s = answer_requests con 0 qs s"
  by (rule handle_sent_requests [OF assms])

definition sample_connection :: "(string list, unit) Connection" where
  "sample_connection =
     \<lparr>services = logging_services, inc_metric = (\<lambda>nm _. noting [metric_as_str nm]),
      is_socket_timeout = (\<lambda>_. False)\<rparr>"

definition sample_requests :: "ClientRequest list" where
  "sample_requests =
     [\<lparr>req_verb = ''GET'', req_target = ''/healthz'', req_headers = [(''Host'', ''a b'')], req_body = []\<rparr>,
      \<lparr>req_verb = ''GET'', req_target = ''/x'', req_headers = [(''Connection'', ''close'')], req_body = []\<rparr>]"

lemma trim_ends_plain: "plain_char a \<Longrightarrow> plain_char b \<Longrightarrow> trim (a # s @ [b]) = a # s @ [b]"
  by (rule trim_plain) simp

lemma sample_requests_sendable: "list_all (sendable sample_connection) sample_requests"
  using trim_ends_plain [of "CHR ''a''" "CHR ''b''" "'' ''"]
  by (simp add: sample_requests_def sendable_def sendable_header_def plain_char_def ascii_text_def [of "[]"]
      render_header_def content_length_def received_headers_def insert_param_def trim_all_plain
      to_ascii_lowercase_def ascii_lower_char_def)

theorem pipelined_requests_answered_witness:
  "handle_stream sample_connection 0
     [Bytes ''GET /hea'', Bytes (drop 8 (concat (map render_request sample_requests)))] [] =
   answer_requests sample_connection 0 sample_requests []"
  by (rule pipelined_requests_answered [OF sample_requests_sendable])
    (simp_all add: all_bytes_def sample_requests_def render_request_def render_header_def)

text \<open>
  A request with a hundred headers is refused although the limit is a hundred: the empty
  line that ends them is counted against it too.
\<close>

lemma hundred_headers_refused:
  assumes "read_bounded_line MAX_HEADER_LINE_BYTES bufs = (Inr (ReadLine n, [CR, LF]), rest)"
    and "length hs = MAX_HEADER_COUNT"
  shows "fst (read_headers bytes hs bufs) = HeadersTooLarge"
  unfolding read_headers.simps [of bytes hs bufs] assms(1) using assms(2) by simp

end
