(* ===== verification/Compat_Params.thy ===== *)
theory Compat_Params
  imports Query_Engine Response Validation Http_Parser BTree
begin

text \<open>
  What the protocol adapters share (\<^verbatim>\<open>src/src/compat/params.rs\<close>): reading request
  parameters, times and limits, and the rows of a query. A time is its nanoseconds since the
  epoch. The time, number and JSON libraries are the fields of \<open>Library\<close>; time arithmetic
  that leaves the time library's range panics, which is \<open>None\<close>.
\<close>

section \<open>The libraries\<close>

record 'f Library =
  now :: int
  parse_rfc3339 :: "string \<Rightarrow> int option"
  parse_naive :: "string \<Rightarrow> int option"
  parse_offset :: "string \<Rightarrow> int option"
  timestamp_opt :: "int \<Rightarrow> nat \<Rightarrow> int option"
  f64_time :: "string \<Rightarrow> (int \<times> nat) option"
  representable :: "int \<Rightarrow> bool"
  as_f64 :: "'f json \<Rightarrow> 'f option"
  f64_zero :: 'f
  f64_text :: "'f \<Rightarrow> string"
  f64_one :: 'f
  f64_two :: 'f
  to_json_string :: "'f json \<Rightarrow> string"

text \<open>Seconds and microseconds of a time; its nanoseconds when they fit an \<open>i64\<close>.\<close>

definition timestamp :: "int \<Rightarrow> int" where
  "timestamp t = t div 1000000000"

definition timestamp_micros :: "int \<Rightarrow> int" where
  "timestamp_micros t = t div 1000"

definition in_i64 :: "int \<Rightarrow> bool" where
  "in_i64 i \<longleftrightarrow> - (2 ^ 63) \<le> i \<and> i < 2 ^ 63"

definition wrap_i64 :: "int \<Rightarrow> int" where
  "wrap_i64 i = (i + 2 ^ 63) mod 2 ^ 64 - 2 ^ 63"

definition timestamp_nanos_opt :: "int \<Rightarrow> int option" where
  "timestamp_nanos_opt t = (if in_i64 t then Some t else None)"

text \<open>Reading a field of a row.\<close>

definition get_str :: "string \<Rightarrow> 'f json \<Rightarrow> string option" where
  "get_str k row = Option.bind (json_get k row) json_as_str"

definition get_i64 :: "string \<Rightarrow> 'f json \<Rightarrow> int option" where
  "get_i64 k row = Option.bind (json_get k row) json_as_i64"

section \<open>Results that may panic\<close>

definition try_bind :: "'a checked \<Rightarrow> ('a \<Rightarrow> 'b checked) \<Rightarrow> 'b checked" where
  "try_bind r f =
     (case r of
        None \<Rightarrow> None
      | Some (Inl e) \<Rightarrow> Some (Inl e)
      | Some (Inr a) \<Rightarrow> f a)"

lemma try_bind_simps [simp]:
  "try_bind None f = None"
  "try_bind (Some (Inl e)) f = Some (Inl e)"
  "try_bind (Some (Inr a)) f = f a"
  by (simp_all add: try_bind_def)

lemma try_bind_Inr [result_simps]:
  "try_bind r f = Some (Inr b) \<longleftrightarrow> (\<exists>a. r = Some (Inr a) \<and> f a = Some (Inr b))"
  by (auto simp: try_bind_def split: option.splits sum.splits)

lemma try_bind_None [result_simps]:
  "try_bind r f = None \<longleftrightarrow> r = None \<or> (\<exists>a. r = Some (Inr a) \<and> f a = None)"
  by (auto simp: try_bind_def split: option.splits sum.splits)

lemma try_bind_Inl [result_simps]:
  "try_bind r f = Some (Inl e) \<longleftrightarrow> r = Some (Inl e) \<or> (\<exists>a. r = Some (Inr a) \<and> f a = Some (Inl e))"
  by (auto simp: try_bind_def split: option.splits sum.splits)

definition shift_time :: "'f Library \<Rightarrow> int \<Rightarrow> int \<Rightarrow> int checked" where
  "shift_time lib t d = (if representable lib (t + d) then Some (Inr (t + d)) else None)"

section \<open>Parameters\<close>

abbreviation "SECOND \<equiv> (1000000000 :: int)"
abbreviation "MINUTE \<equiv> (60 * 1000000000 :: int)"
abbreviation "HOUR \<equiv> (3600 * 1000000000 :: int)"

definition non_empty_param :: "params \<Rightarrow> string \<Rightarrow> string option" where
  "non_empty_param ps nm =
     (case map_of ps nm of Some v \<Rightarrow> if v \<noteq> [] then Some v else None | None \<Rightarrow> None)"

definition required_param :: "params \<Rightarrow> string \<Rightarrow> string api_result" where
  "required_param ps nm =
     ok_or (non_empty_param ps nm) (ApiError_new 400 ''missing_parameter'' (nm @ '' is required''))"

definition invalid_time :: "string \<Rightarrow> ApiError" where
  "invalid_time nm =
     ApiError_new 400 ''invalid_time_range'' (nm @ '' must be RFC3339, Unix seconds, or Unix nanoseconds'')"

definition parse_time :: "'f Library \<Rightarrow> string \<Rightarrow> int option" where
  "parse_time lib raw =
     (case parse_rfc3339 lib raw of
        Some t \<Rightarrow> Some t
      | None \<Rightarrow>
          (case parse_i64 raw of
             Some value \<Rightarrow> if value > 10000000000000 then Some value else timestamp_opt lib value 0
           | None \<Rightarrow>
               (case f64_time lib raw of
                  Some (secs, nanos) \<Rightarrow> timestamp_opt lib secs nanos
                | None \<Rightarrow> None)))"

definition required_time :: "'f Library \<Rightarrow> params \<Rightarrow> string \<Rightarrow> int api_result" where
  "required_time lib ps nm =
     and_then (required_param ps nm) (\<lambda>raw. ok_or (parse_time lib raw) (invalid_time nm))"

definition optional_time :: "'f Library \<Rightarrow> params \<Rightarrow> string \<Rightarrow> int option api_result" where
  "optional_time lib ps nm =
     (case non_empty_param ps nm of
        Some raw \<Rightarrow> map_ok Some (ok_or (parse_time lib raw) (invalid_time nm))
      | None \<Rightarrow> Inr None)"

fun ok_flatten :: "'e + 'a option \<Rightarrow> 'a option" where
  "ok_flatten (Inr v) = v"
| "ok_flatten (Inl e) = None"

definition or_else :: "'a option \<Rightarrow> 'a option \<Rightarrow> 'a option" where
  "or_else a b = (case a of Some x \<Rightarrow> Some x | None \<Rightarrow> b)"

definition unwrap_or :: "'a option \<Rightarrow> 'a \<Rightarrow> 'a" where
  "unwrap_or a d = (case a of Some x \<Rightarrow> x | None \<Rightarrow> d)"

text \<open>The default start, an hour before the end, is computed even when a start is given.\<close>

definition optional_range :: "'f Library \<Rightarrow> params \<Rightarrow> int \<Rightarrow> (int \<times> int) checked" where
  "optional_range lib ps max_secs =
     try_bind (Some (optional_time lib ps ''end'')) (\<lambda>end_param.
     let to = unwrap_or (or_else end_param (ok_flatten (optional_time lib ps ''to''))) (now lib) in
     try_bind (Some (optional_time lib ps ''start'')) (\<lambda>start_param.
     try_bind (shift_time lib to (- HOUR)) (\<lambda>hour_before.
     let from = unwrap_or (or_else start_param (ok_flatten (optional_time lib ps ''from''))) hour_before in
     Some (map_ok (\<lambda>_. (from, to)) (validate_range from to max_secs)))))"

definition parse_any_time_to_utc :: "'f Library \<Rightarrow> string \<Rightarrow> int option" where
  "parse_any_time_to_utc lib raw =
     or_else (parse_rfc3339 lib raw) (or_else (parse_naive lib raw) (parse_offset lib raw))"

definition parse_step :: "string \<Rightarrow> int api_result" where
  "parse_step raw =
     ok_or (parse_i64 (case strip_suffix ''s'' raw of Some r \<Rightarrow> r | None \<Rightarrow> raw))
       (ApiError_new 400 ''invalid_step'' ''step must be seconds or a duration ending in s'')"

definition parse_usize :: "string option \<Rightarrow> nat \<Rightarrow> nat \<Rightarrow> nat api_result" where
  "parse_usize v dflt limit_max =
     parse_limit (Some (unwrap_or (Option.bind v (parse_unsigned U64_MAX)) dflt)) dflt limit_max"

section \<open>Queries against the store\<close>

record 'f QueryEnv =
  stmt_time :: "int \<Rightarrow> string"
  stmt_prefix :: string
  stmt_run :: "string \<Rightarrow> AnyhowError + 'f json list"

text \<open>\<open>result_rows\<close> of each kind of query: the rows of its page.\<close>

definition metric_rows :: "'f QueryEnv \<Rightarrow> MetricPlan \<Rightarrow> 'f json list api_result" where
  "metric_rows q plan = map_ok page_rows (execute_metric (stmt_time q) (stmt_prefix q) (stmt_run q) 0 plan)"

definition log_rows :: "'f QueryEnv \<Rightarrow> LogPlan \<Rightarrow> 'f json list api_result" where
  "log_rows q plan = map_ok page_rows (execute_logs (stmt_time q) (stmt_prefix q) (stmt_run q) 0 plan)"

definition trace_rows :: "'f QueryEnv \<Rightarrow> TracePlan \<Rightarrow> 'f json list api_result" where
  "trace_rows q plan = map_ok page_rows (execute_trace_search (stmt_time q) (stmt_prefix q) (stmt_run q) 0 plan)"

section \<open>Ranges\<close>

lemma validate_range_Inr:
  "validate_range from to max_secs = Inr () \<longleftrightarrow> from < to \<and> (to - from) div NANOS \<le> max_secs"
  by (auto simp: validate_range_def Let_def)

lemma optional_range_valid:
  assumes "optional_range lib ps max_secs = Some (Inr (from, to))"
  shows "from < to \<and> (to - from) div NANOS \<le> max_secs"
  using assms validate_range_Inr
  by (auto simp: optional_range_def Let_def result_simps unit_eq)

text \<open>
  The fallback of a time outside the nanosecond range, its microseconds times a thousand,
  is outside of it as well but for the last microsecond.
\<close>

lemma nanos_fallback_overflows:
  assumes "t < - (2 ^ 63) \<or> 2 ^ 63 + 1000 \<le> t"
  shows "timestamp_nanos_opt t = None \<and> \<not> in_i64 (timestamp_micros t * 1000)"
  using assms by (auto simp: timestamp_nanos_opt_def timestamp_micros_def in_i64_def)

text \<open>With a default start before the first representable time, the request panics.\<close>

lemma optional_range_panics:
  assumes "optional_time lib ps ''end'' = Inr (Some to)" "\<not> representable lib (to - HOUR)"
    "is_ok (optional_time lib ps ''start'')"
  shows "optional_range lib ps max_secs = None"
  using assms
  by (auto simp: optional_range_def shift_time_def or_else_def unwrap_or_def is_ok_iff Let_def)

section \<open>A library to run examples on\<close>

text \<open>No text is a time but for ''today''; every time of sixty-four bits is one.\<close>

definition sample_library :: "unit Library" where
  "sample_library =
     \<lparr>now = 1700000000 * 1000000000, parse_rfc3339 = (\<lambda>_. None), parse_naive = (\<lambda>_. None),
      parse_offset = (\<lambda>raw. if raw = ''today'' then Some (1700000000 * 1000000000) else None),
      timestamp_opt = (\<lambda>s n. Some (s * 1000000000 + int n)), f64_time = (\<lambda>_. None),
      representable = (\<lambda>t. - (2 ^ 63) \<le> t \<and> t < 2 ^ 63), as_f64 = (\<lambda>_. None), f64_zero = (),
      f64_text = (\<lambda>_. ''0''), f64_one = (), f64_two = (), to_json_string = (\<lambda>_. [])\<rparr>"

end
