(* ===== verification/Series.thy ===== *)
theory Series
  imports BTree "HOL-Library.Multiset"
begin

text \<open>
  Grouping rows by their labels, as the Loki and Prometheus adapters do with a
  \<open>BTreeMap\<close> from the text of the labels to the labels and the rows so far
  (\<^verbatim>\<open>src/src/compat/loki.rs\<close>, \<^verbatim>\<open>src/src/compat/prometheus.rs\<close>).
\<close>

definition push_series :: "string \<Rightarrow> 'l \<Rightarrow> 'r \<Rightarrow> (string, 'l \<times> 'r list) btree \<Rightarrow> (string, 'l \<times> 'r list) btree" where
  "push_series key labels row m =
     (case bt_get m key of
        Some (ls, rows) \<Rightarrow> bt_insert key (ls, rows @ [row]) m
      | None \<Rightarrow> bt_insert key (labels, [row]) m)"

definition group_series :: "('l \<Rightarrow> string) \<Rightarrow> ('x \<Rightarrow> 'l) \<Rightarrow> ('x \<Rightarrow> 'r) \<Rightarrow> 'x list \<Rightarrow> (string, 'l \<times> 'r list) btree" where
  "group_series key labels row xs = foldl (\<lambda>m x. push_series (key (labels x)) (labels x) (row x) m) [] xs"

text \<open>What a series holds: the rows of its key, in order, under the labels of the first.\<close>

definition series_of :: "('l \<Rightarrow> string) \<Rightarrow> ('x \<Rightarrow> 'l) \<Rightarrow> ('x \<Rightarrow> 'r) \<Rightarrow> 'x list \<Rightarrow> string \<Rightarrow> ('l \<times> 'r list) option" where
  "series_of key labels row xs k =
     (case filter (\<lambda>x. key (labels x) = k) xs of
        [] \<Rightarrow> None
      | x # rest \<Rightarrow> Some (labels x, map row (x # rest)))"

lemma bt_get_push:
  "bt_get (push_series k l r m) =
   (bt_get m)(k \<mapsto> (case bt_get m k of Some (ls, rows) \<Rightarrow> (ls, rows @ [r]) | None \<Rightarrow> (l, [r])))"
  by (auto simp: push_series_def split: option.splits)

lemma bt_wf_push: "bt_wf m \<Longrightarrow> bt_wf (push_series k l r m)"
  by (auto simp: push_series_def split: option.splits)

lemma group_series_snoc:
  "group_series key labels row (xs @ [x]) =
   push_series (key (labels x)) (labels x) (row x) (group_series key labels row xs)"
  by (simp add: group_series_def)

lemma group_series_wf: "bt_wf (group_series key labels row xs)"
  by (induction xs rule: rev_induct) (simp_all add: group_series_snoc bt_wf_push, simp add: group_series_def)

lemma group_series_get: "bt_get (group_series key labels row xs) k = series_of key labels row xs k"
proof (induction xs arbitrary: k rule: rev_induct)
  case Nil
  then show ?case by (simp add: group_series_def series_of_def)
next
  case (snoc x xs)
  have old: "bt_get (group_series key labels row xs) = series_of key labels row xs"
    using snoc.IH by (rule ext)
  show ?case
    unfolding group_series_snoc bt_get_push old
    by (cases "filter (\<lambda>y. key (labels y) = key (labels x)) xs")
      (auto simp: series_of_def)
qed

text \<open>Nothing is lost or counted twice.\<close>

definition all_rows :: "(string, 'l \<times> 'r list) btree \<Rightarrow> 'r list" where
  "all_rows m = concat (map (\<lambda>e. snd (snd e)) m)"

lemma all_rows_insert:
  "bt_wf m \<Longrightarrow>
   mset (all_rows (bt_insert k (l, rs) m)) + mset (case bt_get m k of Some (_, old) \<Rightarrow> old | None \<Rightarrow> []) =
   mset (all_rows m) + mset rs"
proof (induction m)
  case (Cons e m)
  obtain k' l' rs' where e: "e = (k', l', rs')" by (cases e)
  have wf: "bt_wf m" and small: "\<forall>x \<in> fst ` set m. k' < x"
    using Cons.prems by (simp_all add: bt_wf_Cons e)
  have fresh: "bt_get m k = None" if "k < k'"
    using small that bt_get_dom [of m] by (fastforce dest: order.strict_trans)
  show ?case
    using Cons.IH [OF wf] fresh
    by (cases "k < k'"; cases "k = k'") (auto simp: e all_rows_def bt_get_Cons ac_simps)
qed (simp add: all_rows_def)

lemma all_rows_push:
  assumes "bt_wf m"
  shows "mset (all_rows (push_series k l r m)) = add_mset r (mset (all_rows m))"
  using all_rows_insert [OF assms, of k "fst (the (bt_get m k))" "snd (the (bt_get m k)) @ [r]"]
    all_rows_insert [OF assms, of k l "[r]"]
  by (auto simp: push_series_def split: option.splits)

lemma group_series_rows: "mset (all_rows (group_series key labels row xs)) = mset (map row xs)"
  by (induction xs rule: rev_induct)
    (simp_all add: group_series_snoc all_rows_push group_series_wf, simp add: group_series_def all_rows_def)

lemma group_series_entry:
  assumes "(k, ls, rs) \<in> set (group_series key labels row xs)"
  shows "\<exists>y \<in> set xs. ls = labels y \<and> k = key ls" and "rs = map row (filter (\<lambda>x. key (labels x) = k) xs)"
proof -
  have "map_of (group_series key labels row xs) k = Some (ls, rs)"
    by (rule map_of_is_SomeI [OF bt_wf_distinct [OF group_series_wf] assms])
  then have got: "series_of key labels row xs k = Some (ls, rs)"
    using group_series_get [of key labels row xs k] by (simp add: bt_get_def)
  then obtain y rest where f: "filter (\<lambda>x. key (labels x) = k) xs = y # rest" "ls = labels y" "rs = map row (y # rest)"
    by (auto simp: series_of_def split: list.splits)
  then have "y \<in> set xs" "key (labels y) = k"
    using filter_set [of "\<lambda>x. key (labels x) = k" xs] by auto
  then show "\<exists>y \<in> set xs. ls = labels y \<and> k = key ls" using f by auto
  show "rs = map row (filter (\<lambda>x. key (labels x) = k) xs)" using f by simp
qed

end
