(* ===== verification/Compat_Prometheus.thy ===== *)
theory Compat_Prometheus
  imports Compat_Params Series PromQL Discovery
begin

text \<open>
  The Prometheus adapter (\<^verbatim>\<open>src/src/compat/prometheus.rs\<close>): instant and range
  queries, their retry over sums, the series they answer with, and label discovery.
\<close>

definition METRIC_RANGE_SECS :: int where
  "METRIC_RANGE_SECS = 30 * 24 * 60 * 60"

section \<open>Running a metric query\<close>

record MetricPlanInput =
  input_metric_name :: string
  input_signal :: string
  input_aggregation :: string
  input_filters :: "FieldMatcher list"
  input_group_by :: "string list"
  input_bounds :: TimeBounds
  input_step :: int
  input_limit :: nat
  input_order :: SortDirection

definition metric_plan :: "MetricPlanInput \<Rightarrow> MetricPlan api_result" where
  "metric_plan inp =
     and_then (MetricSignal_parse (input_signal inp)) (\<lambda>sig.
     and_then (MetricAggregation_parse (input_aggregation inp)) (\<lambda>agg.
     Inr \<lparr>metric_selector = \<lparr>resource = Some (input_metric_name inp), matchers = input_filters inp, text_filters = []\<rparr>,
          metric_bounds = input_bounds inp, metric_signal = sig, metric_aggregation = agg,
          metric_group_by = input_group_by inp, step_seconds = input_step inp,
          metric_limit = input_limit inp, metric_order = input_order inp\<rparr>))"

definition execute_metric_rows_with_sum_fallback ::
  "'f QueryEnv \<Rightarrow> MetricPlanInput \<Rightarrow> 'f json list api_result" where
  "execute_metric_rows_with_sum_fallback env inp =
     and_then (MetricSignal_parse (input_signal inp)) (\<lambda>sig.
     and_then (MetricAggregation_parse (input_aggregation inp)) (\<lambda>agg.
     and_then (and_then (metric_plan inp) (metric_rows env)) (\<lambda>rows.
       if rows \<noteq> [] \<or> sig \<noteq> Gauge \<or> agg = AggRate then Inr rows
       else and_then (and_then (metric_plan (inp\<lparr>input_signal := ''sum''\<rparr>)) (metric_rows env)) (\<lambda>fallback_rows.
         if fallback_rows = [] then Inr rows else Inr fallback_rows))))"

section \<open>Answers\<close>

definition prom_success :: "'f json \<Rightarrow> 'f json" where
  "prom_success data = JObject [(''data'', data), (''status'', JString ''success'')]"

text \<open>\<open>f64_text\<close> prints a finite number and \<open>NaN\<close> for any other.\<close>

definition prom_value :: "'f Library \<Rightarrow> 'f \<Rightarrow> 'f json" where
  "prom_value lib v = JString (f64_text lib v)"

definition prometheus_probe_scalar :: "'f Library \<Rightarrow> string \<Rightarrow> 'f option" where
  "prometheus_probe_scalar lib raw =
     (let squeezed = concat (split_whitespace raw) in
      if squeezed = ''1'' then Some (f64_one lib)
      else if squeezed = ''1+1'' then Some (f64_two lib)
      else None)"

fun put_label :: "string \<times> 'f json \<Rightarrow> (string, 'f json) btree \<Rightarrow> (string, 'f json) btree" where
  "put_label (key, v) labels =
     (if key = ''timestamp'' \<or> key = ''value'' then labels
      else (case json_as_str v of
              Some s \<Rightarrow> if s \<noteq> [] then bt_insert key (JString s) labels else labels
            | None \<Rightarrow> labels))"

definition prom_metric_labels :: "string \<Rightarrow> 'f json option \<Rightarrow> 'f json" where
  "prom_metric_labels nm row =
     (let named = bt_insert ''__name__'' (JString nm) [] in
      JObject (case row of Some (JObject kvs) \<Rightarrow> fold put_label kvs named | _ \<Rightarrow> named))"

definition row_number :: "'f Library \<Rightarrow> 'f json \<Rightarrow> 'f" where
  "row_number lib row = unwrap_or (Option.bind (json_get ''value'' row) (as_f64 lib)) (f64_zero lib)"

definition vector_answer :: "'f Library \<Rightarrow> 'f json list \<Rightarrow> 'f json" where
  "vector_answer lib result =
     prom_success (JObject [(''result'', JArray result), (''resultType'', JString ''vector'')])"

definition vector_sample :: "'f Library \<Rightarrow> 'f json \<Rightarrow> int \<Rightarrow> 'f \<Rightarrow> 'f json" where
  "vector_sample lib labels at v =
     JObject [(''metric'', labels), (''value'', JArray [json_int (timestamp at), prom_value lib v])]"

definition prometheus_query :: "'f Library \<Rightarrow> 'f QueryEnv \<Rightarrow> params \<Rightarrow> 'f json checked" where
  "prometheus_query lib env ps =
     try_bind (Some (required_param ps ''query'')) (\<lambda>query.
     try_bind (Some (optional_time lib ps ''time'')) (\<lambda>time_param.
     let at = unwrap_or time_param (now lib) in
     (case prometheus_probe_scalar lib query of
        Some v \<Rightarrow> Some (Inr (vector_answer lib [vector_sample lib (JObject []) at v]))
      | None \<Rightarrow>
          try_bind (shift_time lib at (- (5 * MINUTE))) (\<lambda>from.
          try_bind (Some (parse_prom_query query)) (\<lambda>prom.
          try_bind (shift_time lib at SECOND) (\<lambda>to.
          Some (and_then (execute_metric_rows_with_sum_fallback env
              \<lparr>input_metric_name = metric_name prom, input_signal = signal prom, input_aggregation = aggregation prom,
               input_filters = filters prom, input_group_by = group_by prom,
               input_bounds = \<lparr>bounds_from = from, bounds_to = to\<rparr>, input_step = 300, input_limit = 1,
               input_order = Backward\<rparr>) (\<lambda>rows.
            Inr (if rows = [] then vector_answer lib []
                 else vector_answer lib [vector_sample lib
                        (prom_metric_labels (metric_name prom) (Some (last rows))) at
                        (row_number lib (last rows))])))))))))"

section \<open>Range queries\<close>

text \<open>The labels of a row: the metric's name and the non-empty grouping labels.\<close>

fun put_group_labels :: "'f json \<Rightarrow> string list \<Rightarrow> (string, 'f json) btree \<Rightarrow> (string, 'f json) btree" where
  "put_group_labels row [] labels = labels"
| "put_group_labels row (l # ls) labels =
     put_group_labels row ls
       (case get_str l row of
          Some s \<Rightarrow> if s \<noteq> [] then bt_insert l (JString s) labels else labels
        | None \<Rightarrow> labels)"

definition range_labels :: "string \<Rightarrow> string list \<Rightarrow> 'f json \<Rightarrow> (string, 'f json) btree" where
  "range_labels nm groups row = put_group_labels row groups (bt_insert ''__name__'' (JString nm) [])"

definition range_series ::
  "'f Library \<Rightarrow> string \<Rightarrow> string list \<Rightarrow> 'f json list \<Rightarrow> (string, (string, 'f json) btree \<times> 'f json list) btree" where
  "range_series lib nm groups rows =
     group_series (\<lambda>labels. to_json_string lib (JObject labels)) (range_labels nm groups) (\<lambda>row. row) rows"

definition range_value :: "'f Library \<Rightarrow> 'f json \<Rightarrow> 'f json option" where
  "range_value lib row =
     map_option (\<lambda>ts. JArray [json_int (timestamp ts), prom_value lib (row_number lib row)])
       (Option.bind (get_str ''timestamp'' row) (parse_any_time_to_utc lib))"

definition matrix_answer ::
  "'f Library \<Rightarrow> (string, (string, 'f json) btree \<times> 'f json list) btree \<Rightarrow> 'f json" where
  "matrix_answer lib series =
     prom_success (JObject
       [(''result'', JArray (map (\<lambda>e. JObject
            [(''metric'', JObject (fst (snd e))),
             (''values'', JArray (List.map_filter (range_value lib) (snd (snd e))))]) series)),
        (''resultType'', JString ''matrix'')])"

definition range_groups :: "PromQuery \<Rightarrow> string list" where
  "range_groups prom = (if explicit_grouping prom then group_by prom else [''service_name''])"

definition range_input :: "PromQuery \<Rightarrow> int \<Rightarrow> int \<Rightarrow> int \<Rightarrow> MetricPlanInput" where
  "range_input prom start end_time step =
     \<lparr>input_metric_name = metric_name prom, input_signal = signal prom, input_aggregation = aggregation prom,
      input_filters = filters prom, input_group_by = range_groups prom,
      input_bounds = \<lparr>bounds_from = start, bounds_to = end_time\<rparr>, input_step = step, input_limit = 5000,
      input_order = Forward\<rparr>"

definition prometheus_query_range :: "'f Library \<Rightarrow> 'f QueryEnv \<Rightarrow> params \<Rightarrow> 'f json api_result" where
  "prometheus_query_range lib env ps =
     and_then (required_param ps ''query'') (\<lambda>query.
     and_then (required_time lib ps ''start'') (\<lambda>start.
     and_then (required_time lib ps ''end'') (\<lambda>end_time.
     and_then (validate_range start end_time METRIC_RANGE_SECS) (\<lambda>_.
     and_then (parse_step (unwrap_or (map_of ps ''step'') ''60'')) (\<lambda>step.
     and_then (parse_prom_query query) (\<lambda>prom.
     and_then (execute_metric_rows_with_sum_fallback env (range_input prom start end_time step)) (\<lambda>rows.
     Inr (matrix_answer lib (range_series lib (metric_name prom) (range_groups prom) rows)))))))))"

section \<open>Discovery\<close>

definition prometheus_labels :: "'f Library \<Rightarrow> params \<Rightarrow> 'f json checked" where
  "prometheus_labels lib ps =
     try_bind (optional_range lib ps METRIC_RANGE_SECS)
       (\<lambda>_. Some (Inr (prom_success (json_strings prometheus_label_names))))"

definition prometheus_label_values_answer ::
  "'f Library \<Rightarrow> 'f MetaEnv \<Rightarrow> 64 word \<Rightarrow> string \<Rightarrow> params \<Rightarrow> 'f json DiscoveryCache \<Rightarrow>
   'f json checked \<times> 'f json DiscoveryCache" where
  "prometheus_label_values_answer lib env gen nm ps c =
     (case optional_range lib ps METRIC_RANGE_SECS of
        Some (Inr (from, to)) \<Rightarrow>
          (case prometheus_label_values env gen nm from to c of
             (r, c') \<Rightarrow> (Some (map_ok (\<lambda>vs. prom_success (json_strings vs)) r), c'))
      | Some (Inl e) \<Rightarrow> (Some (Inl e), c)
      | None \<Rightarrow> (None, c))"

definition prometheus_series_answer ::
  "'f Library \<Rightarrow> 'f MetaEnv \<Rightarrow> 64 word \<Rightarrow> params \<Rightarrow> 'f json DiscoveryCache \<Rightarrow>
   'f json checked \<times> 'f json DiscoveryCache" where
  "prometheus_series_answer lib env gen ps c =
     (case optional_range lib ps METRIC_RANGE_SECS of
        Some (Inr (from, to)) \<Rightarrow>
          (case prometheus_series env gen from to c of (r, c') \<Rightarrow> (Some (map_ok prom_success r), c'))
      | Some (Inl e) \<Rightarrow> (Some (Inl e), c)
      | None \<Rightarrow> (None, c))"

definition prometheus_metadata_answer ::
  "'f MetaEnv \<Rightarrow> 64 word \<Rightarrow> 'f json DiscoveryCache \<Rightarrow> 'f json api_result \<times> 'f json DiscoveryCache" where
  "prometheus_metadata_answer env gen c =
     (case prometheus_metric_metadata env gen c of (r, c') \<Rightarrow> (map_ok prom_success r, c'))"

section \<open>An accepted query always has its SQL\<close>

lemma metric_sql_total:
  assumes "resource (metric_selector plan) = Some nm"
    and "metric_aggregation plan = AggRate \<Longrightarrow> metric_signal plan = SumSignal"
    and "\<And>m. m \<in> set (matchers (metric_selector plan)) \<Longrightarrow> label_expr Metrics (field m) \<noteq> None"
  shows "\<exists>sql. metric_sql fmt plan = Inr sql"
proof -
  obtain agg where "agg_sql (metric_aggregation plan) (metric_signal plan) = Inr agg"
    using assms(2) by (cases "metric_aggregation plan") (auto simp: agg_sql_def)
  moreover obtain ws where "push_matchers [time_predicate fmt ''time_unix_nano'' (bounds_from (metric_bounds plan))
      (bounds_to (metric_bounds plan)), ''name = '' @ quote nm] (matchers (metric_selector plan)) Metrics ''unsupported_promql'' = Inr ws"
    using push_matchers_ok [OF assms(3)] by blast
  ultimately show ?thesis using assms(1) by (simp add: metric_sql_def)
qed

lemma group_selects_total:
  assumes "\<And>l. l \<in> set labels \<Longrightarrow> label_expr Metrics l \<noteq> None"
  shows "map fst (group_selects labels) = labels"
  using assms
  by (induction labels) (force simp: group_selects_def List.map_filter_def)+

lemma service_name_label: "label_expr Metrics ''service_name'' \<noteq> None"
  by (rule sample_label)

lemma aggregation_rate: "MetricAggregation_parse a = Inr AggRate \<Longrightarrow> a = ''rate''"
  by (simp add: MetricAggregation_parse_def split: if_splits)

lemma metric_rows_errors:
  assumes "metric_sql (stmt_time env) plan = Inr sql" "metric_rows env plan = Inl e"
  shows "\<exists>err. e = storage_err err"
  using assms
  by (auto simp: metric_rows_def execute_metric_def run_sql_def result_simps)
    (metis map_err.elims sum.distinct(1) sum.inject(1))

text \<open>
  C26. An accepted PromQL query always reaches the store: whatever the window and the step,
  its plan has a SQL statement, for a gauge also when it is tried again over sums, one
  column per grouping label stands in the statement, in order, so a query can fail after it
  was parsed only by the store's own error.
\<close>

theorem accepted_query_reaches_store:
  assumes "parse_prom_query raw = Inr q"
  shows "(\<exists>plan sql. metric_plan (range_input q start end_time step) = Inr plan \<and>
            metric_sql fmt plan = Inr sql) \<and>
    map fst (group_selects (range_groups q)) = range_groups q \<and>
    (case execute_metric_rows_with_sum_fallback env (range_input q start end_time step) of
       Inl e \<Rightarrow> \<exists>err. e = storage_err err
     | Inr rows \<Rightarrow> True)"
proof -
  let ?inp = "range_input q start end_time step"
  note typed = parse_prom_query_typed [OF assms]
  obtain agg sig where agg: "MetricAggregation_parse (aggregation q) = Inr agg"
    and sig: "MetricSignal_parse (signal q) = Inr sig"
    using typed by (auto simp: is_ok_iff)
  have rate: "sig = SumSignal" if "agg = AggRate"
    using typed aggregation_rate agg sig that by (auto simp: MetricSignal_parse_def)
  have groups: "label_expr Metrics l \<noteq> None" if "l \<in> set (range_groups q)" for l
    using typed service_name_label that by (auto simp: range_groups_def split: if_splits)
  have plan: "metric_plan (?inp\<lparr>input_signal := s\<rparr>) = Inr
      \<lparr>metric_selector = \<lparr>resource = Some (metric_name q), matchers = filters q, text_filters = []\<rparr>,
       metric_bounds = \<lparr>bounds_from = start, bounds_to = end_time\<rparr>, metric_signal = sg, metric_aggregation = agg,
       metric_group_by = range_groups q, step_seconds = step, metric_limit = 5000, metric_order = Forward\<rparr>"
    if "MetricSignal_parse s = Inr sg" for s sg
    using agg that by (simp add: metric_plan_def range_input_def)
  have sql: "\<exists>sql. metric_sql f
      \<lparr>metric_selector = \<lparr>resource = Some (metric_name q), matchers = filters q, text_filters = []\<rparr>,
       metric_bounds = \<lparr>bounds_from = start, bounds_to = end_time\<rparr>, metric_signal = sg, metric_aggregation = agg,
       metric_group_by = range_groups q, step_seconds = step, metric_limit = 5000, metric_order = Forward\<rparr> = Inr sql"
    if "sg = sig \<or> sg = SumSignal" for f sg
    using typed rate that by (intro metric_sql_total) auto
  have failure: "\<exists>err. e = storage_err err"
    if "and_then (metric_plan (?inp\<lparr>input_signal := s\<rparr>)) (metric_rows env) = Inl e"
      "MetricSignal_parse s = Inr sg" "sg = sig \<or> sg = SumSignal" for e s sg
    using that(1) plan [OF that(2)] sql [OF that(3)] metric_rows_errors
    by (metis (no_types, lifting) and_then.simps(2))
  have same: "?inp = ?inp\<lparr>input_signal := signal q\<rparr>" by (simp add: range_input_def)
  have "case execute_metric_rows_with_sum_fallback env ?inp of
      Inl e \<Rightarrow> \<exists>err. e = storage_err err | Inr rows \<Rightarrow> True"
    using failure [of "signal q" _ sig, folded same] failure [of "''sum''" _ SumSignal] agg sig
    unfolding execute_metric_rows_with_sum_fallback_def
    by (auto simp: range_input_def MetricSignal_parse_def result_simps split: sum.splits if_splits)
  moreover have "\<exists>plan sql. metric_plan ?inp = Inr plan \<and> metric_sql fmt plan = Inr sql"
    using plan [OF sig, folded same] sql by auto
  ultimately show ?thesis using group_selects_total [OF groups] by blast
qed

definition sample_query_env :: "unit QueryEnv" where
  "sample_query_env = \<lparr>stmt_time = show_int, stmt_prefix = ''lake.'', stmt_run = (\<lambda>_. Inr [])\<rparr>"

lemma gauge_example:
  "parse_prom_query ''max by (service.name) (heap)'' =
   Inr \<lparr>metric_name = ''heap'', signal = ''gauge'', aggregation = ''max'', filters = [],
        group_by = [''service_name''], explicit_grouping = True\<rparr>"
  by code_simp

theorem accepted_query_reaches_store_witness:
  "map fst (group_selects [''service_name'']) = [''service_name''] \<and>
   (case execute_metric_rows_with_sum_fallback sample_query_env
       (range_input \<lparr>metric_name = ''heap'', signal = ''gauge'', aggregation = ''max'', filters = [],
         group_by = [''service_name''], explicit_grouping = True\<rparr> 0 60 15) of
      Inl e \<Rightarrow> \<exists>err. e = storage_err err | Inr rows \<Rightarrow> True)"
  using accepted_query_reaches_store [OF gauge_example, of 0 60 15 show_int sample_query_env]
  by (simp add: range_groups_def)

section \<open>Series are a partition of the rows\<close>

lemma range_series_entries:
  "list_all (\<lambda>(k, labels, rs).
      rs = filter (\<lambda>r. to_json_string lib (JObject (range_labels nm groups r)) = k) rows \<and>
      k = to_json_string lib (JObject labels) \<and> (\<exists>r \<in> set rows. labels = range_labels nm groups r))
    (range_series lib nm groups rows)"
  using group_series_entry [of _ _ _ "\<lambda>labels. to_json_string lib (JObject labels)" "range_labels nm groups" "\<lambda>r. r" rows]
  unfolding range_series_def list_all_iff by fastforce

text \<open>
  A range query's series are a partition of its rows: every row is in exactly one
  series, the series come in the order of their labels' text, each holds the rows whose
  labels have that text, in the order the store returned them, and shows those labels.
\<close>

theorem range_series_partition:
  "mset (all_rows (range_series lib nm groups rows)) = mset rows \<and>
   sorted_wrt (<) (map fst (range_series lib nm groups rows)) \<and>
   list_all (\<lambda>(k, labels, rs).
      rs = filter (\<lambda>r. to_json_string lib (JObject (range_labels nm groups r)) = k) rows \<and>
      k = to_json_string lib (JObject labels) \<and> (\<exists>r \<in> set rows. labels = range_labels nm groups r))
    (range_series lib nm groups rows)"
  using group_series_rows [of "\<lambda>labels. to_json_string lib (JObject labels)" "range_labels nm groups" "\<lambda>r. r" rows]
    group_series_wf [of "\<lambda>labels. to_json_string lib (JObject labels)" "range_labels nm groups" "\<lambda>r. r" rows]
    range_series_entries [of lib nm groups rows]
  by (simp add: range_series_def bt_wf_def)

end
