(* ===== verification/Compat_Loki.thy ===== *)
theory Compat_Loki
  imports Compat_Params Series LogQL Discovery
begin

text \<open>
  The Loki adapter (\<^verbatim>\<open>src/src/compat/loki.rs\<close>): log queries, the streams they answer
  with, and label discovery.
\<close>

definition INTERACTIVE_RANGE_SECS :: int where
  "INTERACTIVE_RANGE_SECS = 24 * 60 * 60"

definition loki_success :: "'f json \<Rightarrow> 'f json" where
  "loki_success data = JObject [(''data'', data), (''status'', JString ''success'')]"

section \<open>Planning\<close>

text \<open>
  The default start is computed even when a start is given, and the end of an instant query
  is one second later: both can leave the range of times.
\<close>

definition loki_plan :: "'f Library \<Rightarrow> params \<Rightarrow> bool \<Rightarrow> LogPlan checked" where
  "loki_plan lib ps ranged =
     try_bind (Some (required_param ps ''query'')) (\<lambda>query.
     try_bind (Some (optional_time lib ps ''end'')) (\<lambda>end_param.
     let end_time = unwrap_or end_param (now lib) in
     try_bind (Some (optional_time lib ps ''start'')) (\<lambda>start_param.
     try_bind (shift_time lib end_time (- HOUR)) (\<lambda>hour_before.
     let start = unwrap_or start_param hour_before in
     try_bind (Some (validate_range start end_time INTERACTIVE_RANGE_SECS)) (\<lambda>_.
     try_bind (Some (parse_usize (map_of ps ''limit'') 100 1000)) (\<lambda>limit.
     try_bind (if ranged then Some (Inr end_time) else shift_time lib end_time SECOND) (\<lambda>to.
     Some (parse_loki_query query \<lparr>bounds_from = start, bounds_to = to\<rparr> limit
             (unwrap_or (map_of ps ''direction'') ''backward'')))))))))"

section \<open>Streams\<close>

fun put_stream_labels :: "'f json \<Rightarrow> string list \<Rightarrow> (string, 'f json) btree \<Rightarrow> (string, 'f json) btree" where
  "put_stream_labels row [] labels = labels"
| "put_stream_labels row (l # ls) labels =
     put_stream_labels row ls
       (case get_str l row of
          Some s \<Rightarrow> if s \<noteq> [] then bt_insert l (JString s) labels else labels
        | None \<Rightarrow> labels)"

definition stream_of :: "LogPlan \<Rightarrow> 'f json \<Rightarrow> (string, 'f json) btree" where
  "stream_of plan row = put_stream_labels row (stream_labels plan) []"

text \<open>
  A row's time in nanoseconds, the end of the range when it has none; where nanoseconds do
  not fit, the range's end in microseconds times a thousand, wrapped to 64 bits.
\<close>

definition line_nanos :: "'f Library \<Rightarrow> LogPlan \<Rightarrow> 'f json \<Rightarrow> int" where
  "line_nanos lib plan row =
     (let to = bounds_to (log_bounds plan);
          t = unwrap_or (Option.bind (get_str ''timestamp'' row) (parse_any_time_to_utc lib)) to in
      unwrap_or (timestamp_nanos_opt t) (wrap_i64 (timestamp_micros to * 1000)))"

definition stream_line :: "'f Library \<Rightarrow> LogPlan \<Rightarrow> 'f json \<Rightarrow> 'f json" where
  "stream_line lib plan row =
     JArray [JString (show_int (line_nanos lib plan row)), JString (unwrap_or (get_str ''body'' row) [])]"

definition log_streams ::
  "'f Library \<Rightarrow> LogPlan \<Rightarrow> 'f json list \<Rightarrow> (string, (string, 'f json) btree \<times> 'f json list) btree" where
  "log_streams lib plan rows =
     group_series (\<lambda>labels. to_json_string lib (JObject labels)) (stream_of plan) (stream_line lib plan) rows"

definition streams_answer ::
  "LogPlan \<Rightarrow> (string, (string, 'f json) btree \<times> 'f json list) btree \<Rightarrow> 'f json" where
  "streams_answer plan streams =
     (let result = map (\<lambda>e. JObject [(''stream'', JObject (fst (snd e))), (''values'', JArray (snd (snd e)))]) streams in
      loki_success (JObject
        [(''result'', JArray (if is_forward (direction plan) then rev result else result)),
         (''resultType'', JString ''streams'')]))"

definition loki_query_inner :: "'f Library \<Rightarrow> 'f QueryEnv \<Rightarrow> params \<Rightarrow> bool \<Rightarrow> 'f json checked" where
  "loki_query_inner lib env ps ranged =
     try_bind (loki_plan lib ps ranged) (\<lambda>plan.
     Some (map_ok (\<lambda>rows. streams_answer plan (log_streams lib plan rows)) (log_rows env plan)))"

definition loki_query :: "'f Library \<Rightarrow> 'f QueryEnv \<Rightarrow> params \<Rightarrow> 'f json checked" where
  "loki_query lib env ps = loki_query_inner lib env ps False"

definition loki_query_range :: "'f Library \<Rightarrow> 'f QueryEnv \<Rightarrow> params \<Rightarrow> 'f json checked" where
  "loki_query_range lib env ps = loki_query_inner lib env ps True"

section \<open>Discovery\<close>

definition loki_labels :: "'f Library \<Rightarrow> params \<Rightarrow> 'f json checked" where
  "loki_labels lib ps =
     try_bind (optional_range lib ps INTERACTIVE_RANGE_SECS)
       (\<lambda>_. Some (Inr (loki_success (json_strings loki_label_names))))"

definition loki_label_values_answer ::
  "'f Library \<Rightarrow> 'f MetaEnv \<Rightarrow> 64 word \<Rightarrow> string \<Rightarrow> params \<Rightarrow> 'f json DiscoveryCache \<Rightarrow>
   'f json checked \<times> 'f json DiscoveryCache" where
  "loki_label_values_answer lib env gen nm ps c =
     (case optional_range lib ps INTERACTIVE_RANGE_SECS of
        Some (Inr (from, to)) \<Rightarrow>
          (case loki_label_values env gen nm from to c of
             (r, c') \<Rightarrow> (Some (map_ok (\<lambda>vs. loki_success (json_strings vs)) r), c'))
      | Some (Inl e) \<Rightarrow> (Some (Inl e), c)
      | None \<Rightarrow> (None, c))"

definition loki_series_answer ::
  "'f Library \<Rightarrow> 'f MetaEnv \<Rightarrow> 64 word \<Rightarrow> params \<Rightarrow> 'f json DiscoveryCache \<Rightarrow>
   'f json checked \<times> 'f json DiscoveryCache" where
  "loki_series_answer lib env gen ps c =
     (case optional_range lib ps INTERACTIVE_RANGE_SECS of
        Some (Inr (from, to)) \<Rightarrow>
          (case loki_series env gen from to c of (r, c') \<Rightarrow> (Some (map_ok loki_success r), c'))
      | Some (Inl e) \<Rightarrow> (Some (Inl e), c)
      | None \<Rightarrow> (None, c))"

section \<open>What a log query asks for and answers\<close>

lemma parse_usize_bounds:
  "parse_usize v dflt limit_max = Inr n \<Longrightarrow> 1 \<le> n \<and> n \<le> limit_max"
  by (auto simp: parse_usize_def parse_limit_def Let_def split: if_splits)

lemma parse_loki_query_plan:
  "parse_loki_query raw bounds limit dir = Inr plan \<Longrightarrow>
   log_bounds plan = bounds \<and> log_limit plan = limit \<and> stream_labels plan = loki_stream_labels"
  by (auto simp: parse_loki_query_def result_simps split: prod.splits)

lemma shift_time_Inr: "shift_time lib t d = Some (Inr x) \<longleftrightarrow> x = t + d \<and> representable lib x"
  by (auto simp: shift_time_def)

text \<open>
  C28. A log query is bounded: whatever the parameters, a plan that is made asks for a
  non-empty window shorter than a day and two seconds (the check counts whole seconds, and
  an instant query ends a second later), and between one and a thousand lines, of the fixed
  stream labels.
\<close>

theorem loki_plan_bounded:
  assumes "loki_plan lib ps ranged = Some (Inr plan)"
  shows "let f = bounds_from (log_bounds plan); t = bounds_to (log_bounds plan) in
    f < t \<and> t - f < (INTERACTIVE_RANGE_SECS + 2) * SECOND \<and>
    1 \<le> log_limit plan \<and> log_limit plan \<le> 1000 \<and> stream_labels plan = loki_stream_labels"
proof -
  obtain query start end_time to limit dir where
    v: "validate_range start end_time INTERACTIVE_RANGE_SECS = Inr ()"
    and l: "parse_usize (map_of ps ''limit'') 100 1000 = Inr limit"
    and t: "to = end_time \<or> to = end_time + SECOND"
    and p: "parse_loki_query query \<lparr>bounds_from = start, bounds_to = to\<rparr> limit dir = Inr plan"
    using assms by (auto simp: loki_plan_def result_simps Let_def shift_time_Inr unit_eq split: if_splits) blast+
  have "(end_time - start) div NANOS \<le> INTERACTIVE_RANGE_SECS" "start < end_time"
    using v validate_range_Inr by auto
  then have "end_time - start < (INTERACTIVE_RANGE_SECS + 1) * NANOS"
    using div_mult_mod_eq [of "end_time - start" NANOS] pos_mod_bound [of NANOS "end_time - start"] by simp
  then show ?thesis
    using parse_loki_query_plan [OF p] parse_usize_bounds [OF l] t \<open>start < end_time\<close>
    by (auto simp: Let_def algebra_simps)
qed

theorem loki_plan_bounded_witness:
  "case loki_plan sample_library [(''query'', ''{service_name=\"cart\"} |= \"boom\"'')] False of
     Some (Inr plan) \<Rightarrow>
       bounds_from (log_bounds plan) < bounds_to (log_bounds plan) \<and>
       bounds_to (log_bounds plan) - bounds_from (log_bounds plan) < (INTERACTIVE_RANGE_SECS + 2) * SECOND \<and>
       1 \<le> log_limit plan \<and> log_limit plan \<le> 1000 \<and> stream_labels plan = loki_stream_labels
   | _ \<Rightarrow> False"
proof -
  have "map_option is_ok (loki_plan sample_library
      [(''query'', ''{service_name=\"cart\"} |= \"boom\"'')] False) = Some True"
    by code_simp
  then obtain plan where p: "loki_plan sample_library
      [(''query'', ''{service_name=\"cart\"} |= \"boom\"'')] False = Some (Inr plan)"
    by (auto simp: is_ok_iff)
  from loki_plan_bounded [OF p] show ?thesis by (simp add: p Let_def)
qed

text \<open>
  C27. A log query's streams are a partition of its rows: every row gives exactly one line,
  in exactly one stream, the streams come in the order of their labels' text, and each
  holds the lines of the rows whose labels have that text, in the order the store returned
  them.
\<close>

theorem log_streams_partition:
  "mset (all_rows (log_streams lib plan rows)) = mset (map (stream_line lib plan) rows) \<and>
   sorted_wrt (<) (map fst (log_streams lib plan rows)) \<and>
   list_all (\<lambda>(k, labels, values).
      values = map (stream_line lib plan)
        (filter (\<lambda>r. to_json_string lib (JObject (stream_of plan r)) = k) rows) \<and>
      k = to_json_string lib (JObject labels) \<and> (\<exists>r \<in> set rows. labels = stream_of plan r))
    (log_streams lib plan rows)"
  using group_series_rows [of "\<lambda>labels. to_json_string lib (JObject labels)" "stream_of plan" "stream_line lib plan" rows]
    group_series_wf [of "\<lambda>labels. to_json_string lib (JObject labels)" "stream_of plan" "stream_line lib plan" rows]
    group_series_entry [of _ _ _ "\<lambda>labels. to_json_string lib (JObject labels)" "stream_of plan" "stream_line lib plan" rows]
  by (simp add: log_streams_def bt_wf_def list_all_iff) fastforce

end
