(* ===== verification/Compat_Tempo.thy ===== *)
theory Compat_Tempo
  imports Compat_Params LogQL Discovery "HOL-Library.Signed_Division"
begin

text \<open>
  The Tempo adapter (\<^verbatim>\<open>src/src/compat/tempo.rs\<close>, and the span row of
  \<^verbatim>\<open>src/src/db/sql.rs\<close>): trace lookups as JSON and as protobuf, trace search and tags.
  The protobuf encoder is the parameter \<open>encode\<close>; a release build wraps 64-bit sums.
\<close>

definition TEMPO_RANGE_SECS :: int where
  "TEMPO_RANGE_SECS = 24 * 60 * 60"

section \<open>Trace identifiers and the lookup statements\<close>

definition is_hexdigit :: "char \<Rightarrow> bool" where
  "is_hexdigit c = (hex_nibble c \<noteq> None)"

definition validate_trace_id :: "string \<Rightarrow> unit api_result" where
  "validate_trace_id trace_id =
     (if list_all is_hexdigit trace_id \<and> (length trace_id = 16 \<or> length trace_id = 32) then Inr ()
      else Inl (ApiError_new 400 ''invalid_trace_id'' ''traceID must be 16 or 32 hex characters''))"

text \<open>\<open>None\<close> where the code panics: a label that is not registered for spans.\<close>

definition span_label :: "string \<Rightarrow> string option" where
  "span_label canonical_name = label_expr Spans canonical_name"

definition span_columns :: string where
  "span_columns =
     ''start_time_unix_nano::VARCHAR, lower(trace_id), lower(span_id), lower(parent_span_id), service_name, name, duration_time_unix_nano, status_code, ''"

definition trace_lookup_tail :: "(int \<Rightarrow> string) \<Rightarrow> string \<Rightarrow> string \<Rightarrow> int \<Rightarrow> int \<Rightarrow> string" where
  "trace_lookup_tail fmt prefix trace_id from to =
     '' FROM '' @ prefix @ signal_as_str SpansSignal @ '' WHERE lower(trace_id) = lower('' @ quote trace_id @
     '') AND '' @ time_predicate fmt ''start_time_unix_nano'' from to @
     '' ORDER BY start_time_unix_nano ASC LIMIT 20000''"

definition trace_json_head :: "string option" where
  "trace_json_head =
     Option.bind (span_label ''http_method'') (\<lambda>m.
     Option.bind (span_label ''http_status_code'') (\<lambda>st.
     Some (''SELECT '' @ span_columns @ m @ '' AS http_method, '' @ st @ '' AS http_status_code'')))"

definition trace_json_sql :: "(int \<Rightarrow> string) \<Rightarrow> string \<Rightarrow> string \<Rightarrow> int \<Rightarrow> int \<Rightarrow> string option" where
  "trace_json_sql fmt prefix trace_id from to =
     map_option (\<lambda>h. h @ trace_lookup_tail fmt prefix trace_id from to) trace_json_head"

definition trace_proto_head :: "string option" where
  "trace_proto_head =
     Option.bind (span_label ''http_method'') (\<lambda>m.
     Option.bind (span_label ''http_status_code'') (\<lambda>st.
     Option.bind (span_label ''deployment_environment'') (\<lambda>environment.
     Option.bind (span_label ''http_route'') (\<lambda>route.
     Option.bind (span_label ''exception_type'') (\<lambda>exc.
     Some (''SELECT '' @ span_columns @ m @ '' AS http_method, '' @ st @
           '' AS http_status_code, trace_state, kind, status_status_message, scope_name, scope_version, '' @
           environment @ '' AS deployment_environment, '' @ route @ '' AS http_route, '' @ exc @
           '' AS exception_type''))))))"

definition trace_proto_sql :: "(int \<Rightarrow> string) \<Rightarrow> string \<Rightarrow> string \<Rightarrow> int \<Rightarrow> int \<Rightarrow> string option" where
  "trace_proto_sql fmt prefix trace_id from to =
     map_option (\<lambda>h. h @ trace_lookup_tail fmt prefix trace_id from to) trace_proto_head"

section \<open>Reading span rows\<close>

datatype column = TextColumn string | IntColumn int | NullColumn

text \<open>\<open>row.get\<close> for a text, an optional text and an optional integer of a width.\<close>

definition column_text :: "(nat \<Rightarrow> AnyhowError) \<Rightarrow> column list \<Rightarrow> nat \<Rightarrow> AnyhowError + 'f json" where
  "column_text err row i =
     (if i < length row then (case row ! i of TextColumn s \<Rightarrow> Inr (JString s) | _ \<Rightarrow> Inl (err i)) else Inl (err i))"

definition column_opt_text :: "(nat \<Rightarrow> AnyhowError) \<Rightarrow> column list \<Rightarrow> nat \<Rightarrow> AnyhowError + 'f json" where
  "column_opt_text err row i =
     (if i < length row then
        (case row ! i of TextColumn s \<Rightarrow> Inr (JString s) | NullColumn \<Rightarrow> Inr JNull | _ \<Rightarrow> Inl (err i))
      else Inl (err i))"

definition column_opt_int :: "nat \<Rightarrow> (nat \<Rightarrow> AnyhowError) \<Rightarrow> column list \<Rightarrow> nat \<Rightarrow> AnyhowError + 'f json" where
  "column_opt_int w err row i =
     (if i < length row then
        (case row ! i of
           IntColumn n \<Rightarrow> if - (2 ^ (w - 1)) \<le> n \<and> n < 2 ^ (w - 1) then Inr (json_int n) else Inl (err i)
         | NullColumn \<Rightarrow> Inr JNull
         | _ \<Rightarrow> Inl (err i))
      else Inl (err i))"

definition read_columns ::
  "(string \<times> (nat \<Rightarrow> AnyhowError + 'f json) \<times> nat) list \<Rightarrow> AnyhowError + 'f json" where
  "read_columns cols =
     map_ok (\<lambda>kvs. JObject (foldl (\<lambda>m e. bt_insert (fst e) (snd e) m) [] kvs))
       (collect_results (map (\<lambda>(k, get, i). map_ok (\<lambda>v. (k, v)) (get i)) cols))"

definition span_row :: "(nat \<Rightarrow> AnyhowError) \<Rightarrow> column list \<Rightarrow> AnyhowError + 'f json" where
  "span_row err row = read_columns
     [(''timestamp'', column_text err row, 0), (''trace_id'', column_opt_text err row, 1),
      (''span_id'', column_opt_text err row, 2), (''parent_span_id'', column_opt_text err row, 3),
      (''service_name'', column_opt_text err row, 4), (''span_name'', column_opt_text err row, 5),
      (''duration'', column_opt_int 64 err row, 6), (''status_code'', column_opt_int 32 err row, 7),
      (''http_method'', column_opt_text err row, 8), (''http_status_code'', column_opt_int 32 err row, 9)]"

definition proto_row :: "(nat \<Rightarrow> AnyhowError) \<Rightarrow> column list \<Rightarrow> AnyhowError + 'f json" where
  "proto_row err row = read_columns
     [(''timestamp'', column_text err row, 0), (''trace_id'', column_opt_text err row, 1),
      (''span_id'', column_opt_text err row, 2), (''parent_span_id'', column_opt_text err row, 3),
      (''service_name'', column_opt_text err row, 4), (''span_name'', column_opt_text err row, 5),
      (''duration'', column_opt_int 64 err row, 6), (''status_code'', column_opt_int 32 err row, 7),
      (''http_method'', column_opt_text err row, 8), (''http_status_code'', column_opt_int 32 err row, 9),
      (''trace_state'', column_opt_text err row, 10), (''span_kind'', column_opt_int 32 err row, 11),
      (''status_message'', column_opt_text err row, 12), (''scope_name'', column_opt_text err row, 13),
      (''scope_version'', column_opt_text err row, 14), (''deployment_environment'', column_opt_text err row, 15),
      (''http_route'', column_opt_text err row, 16), (''exception_type'', column_opt_text err row, 17)]"

section \<open>Spans as JSON\<close>

definition str_or_empty :: "string \<Rightarrow> 'f json \<Rightarrow> string" where
  "str_or_empty k row = unwrap_or (get_str k row) []"

definition span_start_nanos :: "'f Library \<Rightarrow> 'f json \<Rightarrow> int" where
  "span_start_nanos lib row =
     (let start = unwrap_or (Option.bind (get_str ''timestamp'' row) (parse_any_time_to_utc lib)) (now lib) in
      unwrap_or (timestamp_nanos_opt start) (wrap_i64 (timestamp_micros start * 1000)))"

definition tempo_span :: "'f Library \<Rightarrow> 'f json \<Rightarrow> 'f json" where
  "tempo_span lib row =
     (let start_nanos = span_start_nanos lib row;
          duration_ns = unwrap_or (get_i64 ''duration'' row) 0 in
      JObject
        [(''attributes'', JArray
           [JObject [(''key'', JString ''service.name''),
                     (''value'', JObject [(''stringValue'', JString (str_or_empty ''service_name'' row))])],
            JObject [(''key'', JString ''http.request.method''),
                     (''value'', JObject [(''stringValue'', JString (str_or_empty ''http_method'' row))])],
            JObject [(''key'', JString ''http.response.status_code''),
                     (''value'', JObject [(''intValue'',
                        JString (show_int (unwrap_or (get_i64 ''http_status_code'' row) 0)))])]]),
         (''endTimeUnixNano'', JString (show_int (wrap_i64 (start_nanos + duration_ns)))),
         (''kind'', JString ''SPAN_KIND_UNSPECIFIED''),
         (''name'', JString (str_or_empty ''span_name'' row)),
         (''parentSpanId'', JString (str_or_empty ''parent_span_id'' row)),
         (''spanId'', JString (str_or_empty ''span_id'' row)),
         (''startTimeUnixNano'', JString (show_int start_nanos)),
         (''status'', JObject [(''code'', json_int (unwrap_or (get_i64 ''status_code'' row) 0))]),
         (''traceId'', JString (str_or_empty ''trace_id'' row))])"

section \<open>Spans as protobuf\<close>

datatype AttributeValue = StringAttr string | IntAttr int

record Attribute =
  attr_key :: string
  attr_value :: AttributeValue

record SpanStatus =
  status_message :: string
  status_code :: int

record Span =
  trace_id_hex :: string
  span_id_hex :: string
  trace_state :: string
  parent_span_id_hex :: "string option"
  flags :: nat
  span_name :: string
  span_kind :: int
  start_time_unix_nano :: "64 word"
  end_time_unix_nano :: "64 word"
  span_attributes :: "Attribute list"
  dropped_attributes_count :: nat
  dropped_events_count :: nat
  dropped_links_count :: nat
  span_status :: SpanStatus

record TraceData =
  resource_attributes :: "Attribute list"
  scope_name :: string
  scope_version :: string
  trace_spans :: "Span list"

definition compact_attrs :: "Attribute option list \<Rightarrow> Attribute list" where
  "compact_attrs values = List.map_filter (\<lambda>a. a) values"

definition string_attr :: "string \<Rightarrow> string \<Rightarrow> Attribute option" where
  "string_attr key v = (if v = [] then None else Some \<lparr>attr_key = key, attr_value = StringAttr v\<rparr>)"

definition int_attr :: "string \<Rightarrow> int option \<Rightarrow> Attribute option" where
  "int_attr key v = map_option (\<lambda>i. \<lparr>attr_key = key, attr_value = IntAttr i\<rparr>) v"

definition wrap_int32 :: "int \<Rightarrow> int" where
  "wrap_int32 i = (i + 2 ^ 31) mod 2 ^ 32 - 2 ^ 31"

definition tempo_proto_span :: "'f Library \<Rightarrow> 'f json \<Rightarrow> Span" where
  "tempo_proto_span lib row =
     (let start_nanos = (word_of_int (span_start_nanos lib row) :: 64 word);
          duration_ns = (word_of_int (max (unwrap_or (get_i64 ''duration'' row) 0) 0) :: 64 word) in
      \<lparr>trace_id_hex = str_or_empty ''trace_id'' row, span_id_hex = str_or_empty ''span_id'' row,
       trace_state = str_or_empty ''trace_state'' row,
       parent_span_id_hex = (case get_str ''parent_span_id'' row of
          Some v \<Rightarrow> if v \<noteq> [] then Some v else None | None \<Rightarrow> None),
       flags = 0, span_name = str_or_empty ''span_name'' row,
       span_kind = unwrap_or (map_option wrap_int32 (get_i64 ''span_kind'' row)) 0,
       start_time_unix_nano = start_nanos, end_time_unix_nano = start_nanos + duration_ns,
       span_attributes = compact_attrs
         [string_attr ''service.name'' (str_or_empty ''service_name'' row),
          string_attr ''http.request.method'' (str_or_empty ''http_method'' row),
          int_attr ''http.response.status_code'' (get_i64 ''http_status_code'' row),
          string_attr ''http.route'' (str_or_empty ''http_route'' row),
          string_attr ''exception.type'' (str_or_empty ''exception_type'' row)],
       dropped_attributes_count = 0, dropped_events_count = 0, dropped_links_count = 0,
       span_status = \<lparr>status_message = str_or_empty ''status_message'' row,
         status_code = (case get_i64 ''status_code'' row of
            Some code \<Rightarrow> if code = 2 then 2 else if code = 1 then 1 else 0 | None \<Rightarrow> 0)\<rparr>\<rparr>)"

text \<open>The first span that has the field, if any does.\<close>

definition first_str :: "string \<Rightarrow> 'f json list \<Rightarrow> string" where
  "first_str k spans = unwrap_or (find_map (get_str k) spans) []"

definition trace_data :: "'f Library \<Rightarrow> 'f json list \<Rightarrow> TraceData" where
  "trace_data lib spans =
     \<lparr>resource_attributes = compact_attrs
        [string_attr ''service.name'' (first_str ''service_name'' spans),
         string_attr ''deployment.environment'' (first_str ''deployment_environment'' spans)],
      scope_name = first_str ''scope_name'' spans, scope_version = first_str ''scope_version'' spans,
      trace_spans = map (tempo_proto_span lib) spans\<rparr>"

section \<open>Requests\<close>

text \<open>The database as the trace adapter sees it: rows of columns, and the error of a column.\<close>

record TraceEnv =
  span_time :: "int \<Rightarrow> string"
  span_prefix :: string
  span_statement :: "string \<Rightarrow> AnyhowError + column list list"
  span_error :: "nat \<Rightarrow> AnyhowError"

definition read_spans ::
  "TraceEnv \<Rightarrow> ((nat \<Rightarrow> AnyhowError) \<Rightarrow> column list \<Rightarrow> AnyhowError + 'f json) \<Rightarrow> string \<Rightarrow> 'f json list api_result" where
  "read_spans env read sql =
     map_err storage_err
       (and_then (span_statement env sql) (\<lambda>rows. collect_results (map (read (span_error env)) rows)))"

definition trace_query_env :: "TraceEnv \<Rightarrow> 'f QueryEnv" where
  "trace_query_env env =
     \<lparr>stmt_time = span_time env, stmt_prefix = span_prefix env,
      stmt_run = (\<lambda>sql. and_then (span_statement env sql)
        (\<lambda>rows. collect_results (map (span_row (span_error env)) rows)))\<rparr>"

text \<open>The window of a trace lookup: the last seven days, to ten minutes from now.\<close>

definition lookup_window :: "'f Library \<Rightarrow> (int \<times> int) checked" where
  "lookup_window lib =
     try_bind (shift_time lib (now lib) (10 * MINUTE)) (\<lambda>to.
     try_bind (shift_time lib to (- (7 * 24 * HOUR))) (\<lambda>from. Some (Inr (from, to))))"

definition lookup_spans ::
  "'f Library \<Rightarrow> TraceEnv \<Rightarrow> ((int \<Rightarrow> string) \<Rightarrow> string \<Rightarrow> string \<Rightarrow> int \<Rightarrow> int \<Rightarrow> string option) \<Rightarrow>
   ((nat \<Rightarrow> AnyhowError) \<Rightarrow> column list \<Rightarrow> AnyhowError + 'f json) \<Rightarrow> string \<Rightarrow> 'f json list checked" where
  "lookup_spans lib env make_sql read trace_id =
     try_bind (Some (validate_trace_id trace_id)) (\<lambda>_.
     try_bind (lookup_window lib) (\<lambda>(from, to).
     try_bind (map_option Inr (make_sql (span_time env) (span_prefix env) trace_id from to)) (\<lambda>sql.
     Some (read_spans env read sql))))"

definition tempo_trace :: "'f Library \<Rightarrow> TraceEnv \<Rightarrow> string \<Rightarrow> 'f json checked" where
  "tempo_trace lib env trace_id =
     try_bind (lookup_spans lib env trace_json_sql span_row trace_id) (\<lambda>spans.
     Some (Inr (JObject [(''batches'', JArray [JObject
       [(''instrumentationLibrarySpans'', JArray [JObject
          [(''spans'', JArray (map (tempo_span lib) spans))]]),
        (''resource'', JObject [])]])])))"

definition tempo_trace_proto ::
  "'f Library \<Rightarrow> (TraceData \<Rightarrow> string + 'b) \<Rightarrow> TraceEnv \<Rightarrow> string \<Rightarrow> 'b checked" where
  "tempo_trace_proto lib encode env trace_id =
     try_bind (lookup_spans lib env trace_proto_sql proto_row trace_id) (\<lambda>spans.
     Some (map_err (\<lambda>e. ApiError_new 500 ''internal_error'' (''encode Tempo trace response: '' @ e))
       (encode (trace_data lib spans))))"

definition trace_summary :: "'f Library \<Rightarrow> 'f json \<Rightarrow> 'f json" where
  "trace_summary lib row =
     (let start = (case Option.bind (Option.bind (get_str ''start_time'' row) (parse_any_time_to_utc lib))
                          timestamp_nanos_opt of
                     Some nanos \<Rightarrow> show_int nanos | None \<Rightarrow> []);
          matched = (''matched'', json_int (unwrap_or (get_i64 ''matched_spans'' row) 0));
          opt_str = (\<lambda>v. case v of Some s \<Rightarrow> JString s | None \<Rightarrow> JNull);
          duration_ns = unwrap_or (get_i64 ''duration'' row) 0 in
      JObject
        [(''durationMs'', json_int (duration_ns sdiv 1000000)),
         (''rootServiceName'', opt_str (get_str ''service_name'' row)),
         (''rootTraceName'', opt_str (get_str ''span_name'' row)),
         (''spanSet'', JObject [matched, (''spans'', JArray [])]),
         (''spanSets'', JArray [JObject [matched, (''spans'', JArray [])]]),
         (''startTimeUnixNano'', JString start),
         (''traceID'', JString (str_or_empty ''trace_id'' row))])"

definition tempo_search :: "'f Library \<Rightarrow> TraceEnv \<Rightarrow> params \<Rightarrow> 'f json checked" where
  "tempo_search lib env ps =
     try_bind (optional_range lib ps TEMPO_RANGE_SECS) (\<lambda>(from, to).
     try_bind (Some (parse_usize (map_of ps ''limit'') 20 1000)) (\<lambda>limit.
     try_bind (Some (plan_tempo_search ps \<lparr>bounds_from = from, bounds_to = to\<rparr> limit)) (\<lambda>plan.
     Some (map_ok (\<lambda>rows.
       JObject [(''metrics'', JObject [(''completedJobs'', json_int 1), (''inspectedTraces'', json_int (int (length rows)))]),
                (''traces'', JArray (map (trace_summary lib) rows))])
       (trace_rows (trace_query_env env) plan)))))"

definition tempo_tags :: "'f json" where
  "tempo_tags = JObject [(''tagNames'', json_strings tempo_tag_names)]"

definition UNTAGGED :: "string list" where
  "UNTAGGED = [[], ''duration'', ''min-duration'', ''max-duration'', ''duration_ms'']"

definition tempo_tag_values_answer ::
  "'f Library \<Rightarrow> 'f MetaEnv \<Rightarrow> 64 word \<Rightarrow> string \<Rightarrow> params \<Rightarrow> 'f json DiscoveryCache \<Rightarrow>
   'f json checked \<times> 'f json DiscoveryCache" where
  "tempo_tag_values_answer lib env gen tag ps c =
     (if tag \<in> set UNTAGGED then (Some (Inr (JObject [(''tagValues'', JArray [])])), c)
      else case optional_range lib ps TEMPO_RANGE_SECS of
        Some (Inr (from, to)) \<Rightarrow>
          (case tempo_tag_values env gen tag from to c of
             (r, c') \<Rightarrow> (Some (map_ok (\<lambda>vs. JObject [(''tagValues'', json_strings vs)]) r), c'))
      | Some (Inl e) \<Rightarrow> (Some (Inl e), c)
      | None \<Rightarrow> (None, c))"

section \<open>The lookup statements\<close>

lemma span_labels_registered:
  "span_label ''http_method'' \<noteq> None" "span_label ''http_status_code'' \<noteq> None"
  "span_label ''deployment_environment'' \<noteq> None" "span_label ''http_route'' \<noteq> None"
  "span_label ''exception_type'' \<noteq> None"
  by code_simp+

lemma trace_sql_total:
  "\<exists>sql. trace_json_sql fmt prefix trace_id from to = Some sql"
  "\<exists>sql. trace_proto_sql fmt prefix trace_id from to = Some sql"
  using span_labels_registered
  by (auto simp: trace_json_sql_def trace_json_head_def trace_proto_sql_def trace_proto_head_def)

lemma lookup_spans_None:
  assumes "\<And>fmt prefix from to. \<exists>sql. make_sql fmt prefix trace_id from to = Some sql"
  shows "lookup_spans lib env make_sql read trace_id = None \<longleftrightarrow>
    is_ok (validate_trace_id trace_id) \<and> lookup_window lib = None"
  using assms by (auto simp: lookup_spans_def result_simps is_ok_iff split: prod.splits) (metis option.distinct(1))

lemma trace_lookup_tail_same_code:
  assumes "closed_sql prefix"
  shows "same_code (trace_lookup_tail fmt prefix v from to) (trace_lookup_tail fmt' prefix w from' to')"
  unfolding trace_lookup_tail_def
  by (intro same_code_append same_code_quote same_code_time_predicate same_code_refl assms closed_sql_free) simp_all

lemma trace_heads_closed:
  "case trace_json_head of Some h \<Rightarrow> closed_sql h | None \<Rightarrow> False"
  "case trace_proto_head of Some h \<Rightarrow> closed_sql h | None \<Rightarrow> False"
  by code_simp+

text \<open>
  The identifier and the window of a trace lookup cannot change its statement: both
  statements, for JSON and for protobuf, are built for every identifier, and outside string
  literals they are the same text for any two identifiers and windows.
\<close>

theorem trace_lookup_value_independent:
  assumes "closed_sql prefix"
  shows "(case (trace_json_sql fmt prefix v from to, trace_json_sql fmt' prefix w from' to') of
      (Some a, Some b) \<Rightarrow> same_code a b | _ \<Rightarrow> False) \<and>
    (case (trace_proto_sql fmt prefix v from to, trace_proto_sql fmt' prefix w from' to') of
      (Some a, Some b) \<Rightarrow> same_code a b | _ \<Rightarrow> False)"
proof -
  obtain h where h: "trace_json_head = Some h" "closed_sql h"
    using trace_heads_closed(1) by (auto split: option.splits)
  obtain h' where h': "trace_proto_head = Some h'" "closed_sql h'"
    using trace_heads_closed(2) by (auto split: option.splits)
  show ?thesis
    unfolding trace_json_sql_def trace_proto_sql_def h(1) h'(1) option.map prod.case option.case
    by (intro conjI same_code_append trace_lookup_tail_same_code same_code_refl h(2) h'(2) assms)
qed

theorem trace_lookup_value_independent_witness:
  "case (trace_json_sql show_int ''lake.'' ''ab'' 0 1, trace_json_sql show_int ''lake.'' [SQ, CHR '';''] 0 2) of
     (Some a, Some b) \<Rightarrow> same_code a b | _ \<Rightarrow> False"
  by (rule trace_lookup_value_independent [THEN conjunct1]) (simp add: closed_sql_def)

section \<open>Lookups\<close>

text \<open>
  A trace lookup always answers: as JSON or as protobuf, it fails to return only for a
  valid identifier when the clock is within seven days of the ends of the range of times.
\<close>

theorem trace_lookup_answers:
  "(tempo_trace lib env trace_id = None) =
     (is_ok (validate_trace_id trace_id) \<and> lookup_window lib = None) \<and>
   (tempo_trace_proto lib encode env trace_id = None) =
     (is_ok (validate_trace_id trace_id) \<and> lookup_window lib = None)"
proof -
  have "lookup_spans lib env trace_json_sql span_row trace_id = None \<longleftrightarrow>
      is_ok (validate_trace_id trace_id) \<and> lookup_window lib = None"
    "lookup_spans lib env trace_proto_sql proto_row trace_id = None \<longleftrightarrow>
      is_ok (validate_trace_id trace_id) \<and> lookup_window lib = None"
    using trace_sql_total by (blast intro!: lookup_spans_None)+
  then show ?thesis by (auto simp: tempo_trace_def tempo_trace_proto_def result_simps)
qed

lemma trace_rows_bounded:
  assumes "trace_rows q plan = Inr rows" "plan_tempo_search ps bounds limit = Inr plan"
    "parse_usize v 20 1000 = Inr limit"
  shows "length rows \<le> 1000"
proof -
  have "limit \<le> 1000"
    using assms(3) by (auto simp: parse_usize_def parse_limit_def Let_def split: if_splits)
  moreover have "trace_limit plan = limit"
    using assms(2) by (auto simp: plan_tempo_search_def result_simps)
  ultimately show ?thesis
    using assms(1)
    by (auto simp: trace_rows_def execute_trace_search_def result_simps wrap_rows_def split: if_splits)
qed

text \<open>
  A search answers with at most a thousand traces, and counts the ones it answers with.
\<close>

theorem tempo_search_bounded:
  "case tempo_search lib env ps of
     Some (Inr (JObject [(_, JObject [_, (_, n)]), (_, JArray traces)])) \<Rightarrow>
       n = JNat (length traces) \<and> length traces \<le> 1000
   | Some (Inr _) \<Rightarrow> False
   | _ \<Rightarrow> True"
  by (auto simp: tempo_search_def json_int_def result_simps try_bind_def trace_rows_bounded
      split: option.splits sum.splits prod.splits)

section \<open>Times of a span\<close>

lemma word_in_range: "0 \<le> i \<Longrightarrow> i < 2 ^ 64 \<Longrightarrow> uint (word_of_int i :: 64 word) = i"
  by (simp add: uint_word_of_int)

text \<open>
  The two forms of a span agree on its times when its duration is not negative, and
  only then: for a start and an end within the range of nanoseconds, the JSON span ends at
  the start plus the duration, and the protobuf span at the start plus the duration or zero,
  whichever is larger.
\<close>

theorem span_times:
  assumes "span_start_nanos lib row = start" "get_i64 ''duration'' row = Some d"
    "0 \<le> start" "start + d < 2 ^ 63" "start < 2 ^ 63" "- (2 ^ 63) \<le> start + d"
  shows "json_get ''endTimeUnixNano'' (tempo_span lib row) = Some (JString (show_int (start + d))) \<and>
    uint (start_time_unix_nano (tempo_proto_span lib row)) = start \<and>
    uint (end_time_unix_nano (tempo_proto_span lib row)) = start + max d 0"
proof -
  have "wrap_i64 (start + d) = start + d"
    using assms by (simp add: wrap_i64_def)
  moreover have "uint (word_of_int start + word_of_int (max d 0) :: 64 word) = start + max d 0"
    using assms word_in_range [of "start + max d 0"] by (simp flip: of_int_add)
  ultimately show ?thesis
    using assms word_in_range [of start] by (simp add: tempo_span_def tempo_proto_span_def unwrap_or_def Let_def)
qed

definition sample_span :: "int \<Rightarrow> unit json" where
  "sample_span d = JObject [(''duration'', json_int d), (''timestamp'', JString ''today'')]"

theorem span_times_witness:
  "json_get ''endTimeUnixNano'' (tempo_span sample_library (sample_span 5)) =
     Some (JString (show_int (1700000000 * 1000000000 + 5))) \<and>
   json_get ''endTimeUnixNano'' (tempo_span sample_library (sample_span (- 5))) =
     Some (JString (show_int (1700000000 * 1000000000 - 5))) \<and>
   uint (end_time_unix_nano (tempo_proto_span sample_library (sample_span (- 5)))) = 1700000000 * 1000000000"
proof -
  have s: "span_start_nanos sample_library (sample_span 5) = 1700000000 * 1000000000"
    "span_start_nanos sample_library (sample_span (- 5)) = 1700000000 * 1000000000"
    by code_simp+
  have d: "get_i64 ''duration'' (sample_span 5) = Some 5" "get_i64 ''duration'' (sample_span (- 5)) = Some (- 5)"
    by (simp_all add: get_i64_def sample_span_def json_int_def)
  show ?thesis
    using span_times [OF s(1) d(1)] span_times [OF s(2) d(2)] by simp
qed

end
