(* ===== verification/Tls_Identity.thy ===== *)
theory Tls_Identity
  imports Http_Parser
begin

text \<open>
  The TLS identity of the public listener (the first half of \<^verbatim>\<open>src/src/tls.rs\<close>): PEM
  blocks, the private key of a file, and the certificates and key the server is built with.
  Base64, the file system and the certificate library are parameters; an error is its
  outermost message.
\<close>

section \<open>PEM\<close>

text \<open>\<open>str::from_utf8\<close>: whether bytes are text.\<close>

function is_utf8 :: "string \<Rightarrow> bool" where
  "is_utf8 s =
     (if s = [] then True
      else case utf8_step s of (ok, n) \<Rightarrow> ok \<and> is_utf8 (drop n s))"
  by pat_completeness auto
termination
  by (relation "measure length") (auto intro!: diff_less dest: utf8_step_pos [OF _ sym])

declare is_utf8.simps [simp del]

definition pem_begin :: "string \<Rightarrow> string" where
  "pem_begin label = ''-----BEGIN '' @ label @ ''-----''"

definition pem_end :: "string \<Rightarrow> string" where
  "pem_end label = ''-----END '' @ label @ ''-----''"

text \<open>The blocks of one label, in the order of the text; white space in a body is dropped.\<close>

function label_blocks :: "(string \<Rightarrow> string option) \<Rightarrow> string \<Rightarrow> string \<Rightarrow> string + string list" where
  "label_blocks decode label rest =
     (case split_once (pem_begin label) rest of
        None \<Rightarrow> Inr []
      | Some (_, after_begin) \<Rightarrow>
          (case split_once (pem_end label) after_begin of
             None \<Rightarrow> Inl (''PEM block '' @ label @ '' is missing its END marker'')
           | Some (body, rest') \<Rightarrow>
               (case decode (concat (split_whitespace body)) of
                  None \<Rightarrow> Inl (''decode PEM block '' @ label)
                | Some decoded \<Rightarrow> map_ok ((#) decoded) (label_blocks decode label rest'))))"
  by pat_completeness auto
termination
  by (relation "measure (\<lambda>(decode, label, rest). length rest)")
    (auto simp: pem_begin_def dest!: split_once_SomeD)

declare label_blocks.simps [simp del]

definition pem_blocks :: "(string \<Rightarrow> string option) \<Rightarrow> string \<Rightarrow> string list \<Rightarrow> string + string list" where
  "pem_blocks decode input labels =
     (if is_utf8 input then map_ok concat (collect_results (map (\<lambda>l. label_blocks decode l input) labels))
      else Inl ''PEM file must be UTF-8 text'')"

section \<open>Keys and identities\<close>

datatype PrivateKeyDer = Pkcs8 string | Pkcs1 string | Sec1 string

definition first_private_key :: "(string \<Rightarrow> string option) \<Rightarrow> string \<Rightarrow> string + PrivateKeyDer" where
  "first_private_key decode key_bytes =
     and_then (pem_blocks decode key_bytes [''PRIVATE KEY'']) (\<lambda>a.
     case a of b # _ \<Rightarrow> Inr (Pkcs8 b) | [] \<Rightarrow>
     and_then (pem_blocks decode key_bytes [''RSA PRIVATE KEY'']) (\<lambda>a.
     case a of b # _ \<Rightarrow> Inr (Pkcs1 b) | [] \<Rightarrow>
     and_then (pem_blocks decode key_bytes [''EC PRIVATE KEY'']) (\<lambda>a.
     case a of b # _ \<Rightarrow> Inr (Sec1 b) | [] \<Rightarrow>
     Inl ''TLS key must contain a PEM PRIVATE KEY, RSA PRIVATE KEY, or EC PRIVATE KEY block'')))"

datatype TlsIdentity = IdentityFile string string | EphemeralSelfSigned "string list"

text \<open>\<open>with_context\<close>: the message that replaces an error's.\<close>

definition with_context :: "string \<Rightarrow> 'e + 'a \<Rightarrow> string + 'a" where
  "with_context msg r = (case r of Inl _ \<Rightarrow> Inl msg | Inr a \<Rightarrow> Inr a)"

record 'c TlsLibrary =
  base64_decode :: "string \<Rightarrow> string option"
  read_file :: "string \<Rightarrow> string option"
  generate_self_signed :: "string list \<Rightarrow> (string \<times> string) option"
  safe_default_versions :: "string + unit"
  single_cert :: "string list \<Rightarrow> PrivateKeyDer \<Rightarrow> string + 'c"
  set_alpn :: "string list \<Rightarrow> 'c \<Rightarrow> 'c"

definition build_server_config :: "'c TlsLibrary \<Rightarrow> string list \<Rightarrow> PrivateKeyDer \<Rightarrow> string + 'c" where
  "build_server_config lib certs key =
     and_then (with_context ''configure TLS protocol versions'' (safe_default_versions lib)) (\<lambda>_.
     map_ok (set_alpn lib [''http/1.1''])
       (with_context ''build TLS server config'' (single_cert lib certs key)))"

definition file_config :: "'c TlsLibrary \<Rightarrow> string \<Rightarrow> string \<Rightarrow> string + 'c" where
  "file_config lib cert_file key_file =
     and_then (ok_or (read_file lib cert_file) (''read TLS cert '' @ cert_file)) (\<lambda>cert_bytes.
     and_then (ok_or (read_file lib key_file) (''read TLS key '' @ key_file)) (\<lambda>key_bytes.
     and_then (with_context (''parse TLS cert '' @ cert_file)
       (pem_blocks (base64_decode lib) cert_bytes [''CERTIFICATE''])) (\<lambda>certs.
     if certs = [] then Inl (cert_file @ '' must contain at least one PEM CERTIFICATE block'')
     else
       and_then (with_context (''parse TLS key '' @ key_file)
         (first_private_key (base64_decode lib) key_bytes)) (\<lambda>key.
       build_server_config lib certs key))))"

definition self_signed_config :: "'c TlsLibrary \<Rightarrow> string list \<Rightarrow> string + 'c" where
  "self_signed_config lib subject_alt_names =
     and_then (ok_or
         (generate_self_signed lib (if subject_alt_names = [] then [''localhost''] else subject_alt_names))
         ''generate ephemeral self-signed TLS certificate'')
       (\<lambda>(cert_der, key_der). build_server_config lib [cert_der] (Pkcs8 key_der))"

fun server_config :: "'c TlsLibrary \<Rightarrow> TlsIdentity \<Rightarrow> string + 'c" where
  "server_config lib (IdentityFile cert_file key_file) = file_config lib cert_file key_file"
| "server_config lib (EphemeralSelfSigned names) = self_signed_config lib names"

section \<open>Printing and reading PEM\<close>

text \<open>One block as tools print it, and when a library's base64 text of it can be read back.\<close>

definition pem_text :: "(string \<Rightarrow> string) \<Rightarrow> string \<Rightarrow> string \<Rightarrow> string" where
  "pem_text encode label der = pem_begin label @ [LF] @ encode der @ [LF] @ pem_end label @ [LF]"

definition readable :: "(string \<Rightarrow> string) \<Rightarrow> (string \<Rightarrow> string option) \<Rightarrow> string \<Rightarrow> bool" where
  "readable encode decode der =
     (decode (encode der) = Some der \<and> encode der \<noteq> [] \<and>
      list_all (\<lambda>c. plain_char c \<and> c \<noteq> CHR ''-'') (encode der))"

lemma split_once_skip:
  assumes "d \<notin> set a"
  shows "split_once (d # p) (a @ b) = map_option (\<lambda>(x, y). (a @ x, y)) (split_once (d # p) b)"
  using assms by (induction a; cases "split_once (d # p) b") (auto split: option.splits)

lemma split_once_after:
  "d \<notin> set a \<Longrightarrow> split_once (d # p) (a @ (d # p) @ b) = Some (a, b)"
  by (subst split_once_skip) simp_all

lemma pem_markers:
  "pem_end label = CHR ''-'' # tl (pem_end label)" "pem_begin label = CHR ''-'' # tl (pem_begin label)"
  by (simp_all add: pem_end_def pem_begin_def)

lemma pem_end_after:
  "CHR ''-'' \<notin> set a \<Longrightarrow> split_once (pem_end label) (a @ pem_end label @ b) = Some (a, b)"
  using split_once_after [of _ _ "tl (pem_end label)"] pem_markers(1) [of label] by metis

lemma pem_begin_after:
  "CHR ''-'' \<notin> set a \<Longrightarrow> split_once (pem_begin label) (a @ pem_begin label @ b) = Some (a, b)"
  using split_once_after [of _ _ "tl (pem_begin label)"] pem_markers(2) [of label] by metis

lemma split_whitespace_cong: "trim_start s = trim_start t \<Longrightarrow> split_whitespace s = split_whitespace t"
  by (simp add: split_whitespace.simps [of s] split_whitespace.simps [of t])

lemma readable_body:
  assumes "readable encode decode der"
  shows "concat (split_whitespace ([LF] @ encode der @ [LF])) = encode der" "CHR ''-'' \<notin> set ([LF] @ encode der @ [LF])"
proof -
  have plain: "list_all plain_char (encode der)" "encode der \<noteq> []"
    using assms by (simp_all add: readable_def list_all_iff)
  have lf: "at_whitespace [LF]" "trim_start [LF] = []"
    by code_simp+
  have start: "trim_start ([LF] @ encode der @ [LF]) = encode der @ [LF]"
  proof -
    obtain c cs where "encode der = c # cs" "plain_char c"
      using plain by (cases "encode der") simp_all
    then have "trim_start (encode der @ [LF]) = encode der @ [LF]" by (simp add: trim_start_plain)
    moreover have "trim_start ([LF] @ t) = trim_start t" for t
      unfolding trim_start_def by (subst trim_with.simps) (simp add: ws_chars_def)
    ultimately show ?thesis by simp
  qed
  have "split_whitespace ([LF] @ encode der @ [LF]) = split_whitespace (encode der @ [LF])"
    using start trim_start_trim_start [of "[LF] @ encode der @ [LF]"] by (intro split_whitespace_cong) simp
  also have "\<dots> = encode der # split_whitespace [LF]"
    using plain lf by (intro split_whitespace_word) simp_all
  finally show "concat (split_whitespace ([LF] @ encode der @ [LF])) = encode der"
    by (simp add: split_whitespace.simps [of "[LF]"] lf)
  show "CHR ''-'' \<notin> set ([LF] @ encode der @ [LF])"
    using assms by (auto simp: readable_def list_all_iff)
qed

lemma label_blocks_text:
  assumes "readable encode decode der" "CHR ''-'' \<notin> set a"
  shows "label_blocks decode label (a @ pem_text encode label der @ rest) =
    map_ok ((#) der) (label_blocks decode label ([LF] @ rest))"
proof -
  have b: "split_once (pem_begin label) (a @ pem_text encode label der @ rest) =
      Some (a, ([LF] @ encode der @ [LF]) @ pem_end label @ [LF] @ rest)"
    using pem_begin_after [OF assms(2)] by (simp add: pem_text_def)
  show ?thesis
    unfolding label_blocks.simps [of decode label "a @ pem_text encode label der @ rest"] b option.case prod.case
      pem_end_after [OF readable_body(2) [OF assms(1)]] readable_body(1) [OF assms(1)]
    using assms(1) by (simp add: readable_def)
qed

lemma label_blocks_none:
  "CHR ''-'' \<notin> set a \<Longrightarrow> label_blocks decode label a = Inr []"
  using split_once_None_iff [of "pem_begin label" a]
  by (subst label_blocks.simps) (auto simp: pem_begin_def)

lemma label_blocks_bundle:
  assumes "list_all (readable encode decode) ders" "CHR ''-'' \<notin> set a"
  shows "label_blocks decode label (a @ concat (map (pem_text encode label) ders)) = Inr ders"
  using assms
proof (induction ders arbitrary: a)
  case Nil
  then show ?case by (simp add: label_blocks_none)
next
  case (Cons d ds)
  then show ?case
    using label_blocks_text [of encode decode d a label] Cons.IH [of "[LF]"] by simp
qed

lemma is_utf8_ascii: "list_all (\<lambda>c. byte c < (128 :: nat)) s \<Longrightarrow> is_utf8 s"
proof (induction s)
  case Nil
  then show ?case by (simp add: is_utf8.simps)
next
  case (Cons c s)
  then show ?case by (subst is_utf8.simps) (simp add: utf8_width_def in_range_def)
qed

lemma pem_text_ascii:
  assumes "readable encode decode der" "list_all (\<lambda>c. byte c < (128 :: nat)) label"
  shows "list_all (\<lambda>c. byte c < (128 :: nat)) (pem_text encode label der)"
  using assms by (auto simp: readable_def pem_text_def pem_begin_def pem_end_def list_all_iff plain_char_def)

text \<open>
  C31. A bundle of PEM blocks is read back as it was printed, in order and nothing lost,
  whatever bytes the blocks hold, for any base64 text without white space or dashes that
  the decoder inverts.
\<close>

theorem pem_bundle_roundtrip:
  assumes "list_all (readable encode decode) ders" "list_all (\<lambda>c. byte c < (128 :: nat)) label"
  shows "pem_blocks decode (concat (map (pem_text encode label) ders)) [label] = Inr ders"
proof -
  have "list_all (\<lambda>c. byte c < (128 :: nat)) (concat (map (pem_text encode label) ders))"
    using assms(1) pem_text_ascii [OF _ assms(2), of encode decode] by (auto simp: list_all_iff)
  then show ?thesis
    using label_blocks_bundle [OF assms(1), of "[]" label]
    by (simp add: pem_blocks_def is_utf8_ascii)
qed

text \<open>A stand-in for base64: a digit for each bit.\<close>

definition sample_encode :: "string \<Rightarrow> string" where
  "sample_encode s =
     map (\<lambda>b. if b then CHR ''1'' else CHR ''0'')
       (concat (map (\<lambda>c. [digit0 c, digit1 c, digit2 c, digit3 c, digit4 c, digit5 c, digit6 c, digit7 c]) s))"

fun sample_decode :: "string \<Rightarrow> string option" where
  "sample_decode (b0 # b1 # b2 # b3 # b4 # b5 # b6 # b7 # s) =
     map_option ((#) (Char (b0 = CHR ''1'') (b1 = CHR ''1'') (b2 = CHR ''1'') (b3 = CHR ''1'')
                          (b4 = CHR ''1'') (b5 = CHR ''1'') (b6 = CHR ''1'') (b7 = CHR ''1'')))
       (sample_decode s)"
| "sample_decode s = (if s = [] then Some [] else None)"

lemma sample_readable: "s \<noteq> [] \<Longrightarrow> readable sample_encode sample_decode s"
proof -
  assume "s \<noteq> []"
  moreover have "sample_decode (sample_encode s) = Some s"
  proof (induction s)
    case (Cons c s)
    then show ?case by (cases c) (simp add: sample_encode_def)
  qed (simp add: sample_encode_def)
  moreover have "sample_encode s \<noteq> []" if "s \<noteq> []"
    using that by (cases s) (simp_all add: sample_encode_def)
  moreover have "list_all (\<lambda>c. plain_char c \<and> c \<noteq> CHR ''-'') (sample_encode s)"
    by (auto simp: sample_encode_def list_all_iff plain_char_def)
  ultimately show ?thesis by (simp add: readable_def)
qed

theorem pem_bundle_roundtrip_witness:
  "pem_blocks sample_decode
     (concat (map (pem_text sample_encode ''CERTIFICATE'') [[CHR 0x30, CHR 0xFF], ''-----BEGIN'']))
     [''CERTIFICATE''] = Inr [[CHR 0x30, CHR 0xFF], ''-----BEGIN'']"
  by (rule pem_bundle_roundtrip) (simp_all add: sample_readable)

lemma other_label_absent:
  assumes "CHR ''-'' \<notin> set body"
  shows "split_once (pem_begin ''PRIVATE KEY'') (pem_begin ''RSA PRIVATE KEY'' @ [LF] @ body @ [LF] @ pem_end ''RSA PRIVATE KEY'' @ [LF]) = None"
    "split_once (pem_begin ''PRIVATE KEY'') (pem_begin ''EC PRIVATE KEY'' @ [LF] @ body @ [LF] @ pem_end ''EC PRIVATE KEY'' @ [LF]) = None"
    "split_once (pem_begin ''RSA PRIVATE KEY'') (pem_begin ''EC PRIVATE KEY'' @ [LF] @ body @ [LF] @ pem_end ''EC PRIVATE KEY'' @ [LF]) = None"
  using assms by (simp_all add: pem_begin_def pem_end_def split_once_skip)

text \<open>
  The kind of a private key follows its label: each of the three labels is read as its
  own kind of key, with the bytes that were printed.
\<close>

theorem private_key_kind:
  assumes "readable encode decode der"
  shows "first_private_key decode (pem_text encode ''PRIVATE KEY'' der) = Inr (Pkcs8 der) \<and>
    first_private_key decode (pem_text encode ''RSA PRIVATE KEY'' der) = Inr (Pkcs1 der) \<and>
    first_private_key decode (pem_text encode ''EC PRIVATE KEY'' der) = Inr (Sec1 der)"
proof -
  have own: "label_blocks decode label (pem_text encode label der) = Inr [der]" for label
    using label_blocks_bundle [of encode decode "[der]" "[]" label] assms by simp
  have dash: "CHR ''-'' \<notin> set (encode der)"
    using assms by (auto simp: readable_def list_all_iff)
  have other:
    "label_blocks decode ''PRIVATE KEY'' (pem_text encode ''RSA PRIVATE KEY'' der) = Inr []"
    "label_blocks decode ''PRIVATE KEY'' (pem_text encode ''EC PRIVATE KEY'' der) = Inr []"
    "label_blocks decode ''RSA PRIVATE KEY'' (pem_text encode ''EC PRIVATE KEY'' der) = Inr []"
    unfolding pem_text_def by (subst label_blocks.simps, simp only: other_label_absent [OF dash] option.case)+
  have "is_utf8 (pem_text encode label der)" if "list_all (\<lambda>c. byte c < (128 :: nat)) label" for label
    by (intro is_utf8_ascii pem_text_ascii [OF assms that])
  then have "is_utf8 (pem_text encode ''PRIVATE KEY'' der)" "is_utf8 (pem_text encode ''RSA PRIVATE KEY'' der)"
    "is_utf8 (pem_text encode ''EC PRIVATE KEY'' der)"
    by simp_all
  then show ?thesis by (simp add: first_private_key_def pem_blocks_def own other)
qed

theorem private_key_kind_witness:
  "first_private_key sample_decode (pem_text sample_encode ''PRIVATE KEY'' ''abc'') = Inr (Pkcs8 ''abc'') \<and>
   first_private_key sample_decode (pem_text sample_encode ''RSA PRIVATE KEY'' ''abc'') = Inr (Pkcs1 ''abc'') \<and>
   first_private_key sample_decode (pem_text sample_encode ''EC PRIVATE KEY'' ''abc'') = Inr (Sec1 ''abc'')"
  by (rule private_key_kind) (simp add: sample_readable)

end
