(* ===== verification/Tls_Proxy.thy ===== *)
theory Tls_Proxy
  imports Prelude
begin

text \<open>
  The TLS proxy (the second half of \<^verbatim>\<open>src/src/tls.rs\<close>): one thread carries decrypted
  bytes from the client to the plaintext backend and back over non-blocking sockets. What
  the sockets answer in one pass of the loop is a \<open>Round\<close>; the sleep of a pass without
  progress has no effect on the state.
\<close>

section \<open>Reading and writing\<close>

datatype ErrorKind =
  WouldBlock | Interrupted | BrokenPipe | ConnectionReset | ConnectionAborted | UnexpectedEof | OtherKind

type_synonym 'a io = "ErrorKind + 'a"

definition peer_closed :: "ErrorKind \<Rightarrow> bool" where
  "peer_closed e = (e \<in> {BrokenPipe, ConnectionReset, ConnectionAborted, UnexpectedEof})"

definition transient :: "ErrorKind \<Rightarrow> bool" where
  "transient e = (e = WouldBlock \<or> e = Interrupted)"

datatype 'b ReadState = Data "'b list" | Eof | ReadBlocked | ReadErr ErrorKind

definition read_into :: "'b list io \<Rightarrow> 'b ReadState" where
  "read_into r =
     (case r of
        Inr bs \<Rightarrow> if bs = [] then Eof else Data bs
      | Inl e \<Rightarrow> if transient e then ReadBlocked else ReadErr e)"

datatype WriteState = Wrote nat | WriteBlocked | WriteErr ErrorKind

definition write_some :: "nat io \<Rightarrow> WriteState" where
  "write_some r =
     (case r of
        Inr n \<Rightarrow> Wrote n
      | Inl e \<Rightarrow> if transient e then WriteBlocked else WriteErr e)"

text \<open>\<open>flush_spin\<close> over the answers of the flushes it tries; \<open>None\<close> when it spins on.\<close>

fun flush_spin :: "unit io list \<Rightarrow> unit io option" where
  "flush_spin [] = None"
| "flush_spin (Inr u # rs) = Some (Inr u)"
| "flush_spin (Inl e # rs) = (if transient e then flush_spin rs else Some (Inl e))"

section \<open>Pending bytes\<close>

record 'b Pending =
  buf :: "'b list"
  start :: nat

definition no_pending :: "'b Pending" where
  "no_pending = \<lparr>buf = [], start = 0\<rparr>"

definition is_empty :: "'b Pending \<Rightarrow> bool" where
  "is_empty p = (length (buf p) \<le> start p)"

definition set_pending :: "'b list \<Rightarrow> 'b Pending \<Rightarrow> 'b Pending" where
  "set_pending data p = \<lparr>buf = data, start = 0\<rparr>"

definition unwritten :: "'b Pending \<Rightarrow> 'b list" where
  "unwritten p = drop (start p) (buf p)"

definition advance :: "nat \<Rightarrow> 'b Pending \<Rightarrow> 'b Pending" where
  "advance n p =
     (let p' = p\<lparr>start := start p + n\<rparr> in
      if is_empty p' then \<lparr>buf = [], start = 0\<rparr> else p')"

lemma is_empty_iff: "is_empty p \<longleftrightarrow> unwritten p = []"
  by (simp add: is_empty_def unwritten_def)

lemma unwritten_simps [simp]:
  "unwritten no_pending = []" "unwritten (set_pending data p) = data"
  "unwritten (advance n p) = drop n (unwritten p)"
  by (auto simp: unwritten_def no_pending_def set_pending_def advance_def is_empty_def Let_def add.commute)

section \<open>The proxy\<close>

record 'b Proxy =
  c2b :: "'b Pending"
  b2c :: "'b Pending"
  client_eof :: bool
  backend_eof :: bool
  backend_wr_closed :: bool
  client_wr_closed :: bool

definition idle_proxy :: "'b Proxy" where
  "idle_proxy = \<lparr>c2b = no_pending, b2c = no_pending, client_eof = False, backend_eof = False,
     backend_wr_closed = False, client_wr_closed = False\<rparr>"

record 'b Round =
  client_read :: "'b list io"
  backend_write :: "nat io"
  backend_read :: "'b list io"
  client_write :: "nat io"
  client_flush :: "unit io list"
  notify_flush :: "unit io list"

text \<open>What a pass does to the sockets, by direction, and how the connection can end.\<close>

datatype Way = ToBackend | ToClient

datatype 'b transfer = Got Way "'b list" | Put Way "'b list" | Shut Way

datatype ending = Finished | Failed ErrorKind | Spinning

type_synonym 'b proxy_step = "'b Proxy \<Rightarrow> 'b Proxy \<times> 'b transfer list \<times> ending option"

definition then_do :: "'b proxy_step \<Rightarrow> 'b proxy_step \<Rightarrow> 'b proxy_step" where
  "then_do f g s =
     (case f s of (s', evs, st) \<Rightarrow>
        case st of
          Some e \<Rightarrow> (s', evs, Some e)
        | None \<Rightarrow> (case g s' of (s'', evs', st') \<Rightarrow> (s'', evs @ evs', st')))"

definition read_client :: "'b Round \<Rightarrow> 'b proxy_step" where
  "read_client r s =
     (if is_empty (c2b s) \<and> \<not> client_eof s then
        (case read_into (client_read r) of
           Data bs \<Rightarrow> (s\<lparr>c2b := set_pending bs (c2b s)\<rparr>, [Got ToBackend bs], None)
         | Eof \<Rightarrow> (s\<lparr>client_eof := True\<rparr>, [], None)
         | ReadBlocked \<Rightarrow> (s, [], None)
         | ReadErr e \<Rightarrow>
             if peer_closed e then (s\<lparr>client_eof := True\<rparr>, [], None) else (s, [], Some (Failed e)))
      else (s, [], None))"

definition write_backend :: "'b Round \<Rightarrow> 'b proxy_step" where
  "write_backend r s =
     (if \<not> is_empty (c2b s) then
        (case write_some (backend_write r) of
           Wrote n \<Rightarrow> (s\<lparr>c2b := advance n (c2b s)\<rparr>, [Put ToBackend (take n (unwritten (c2b s)))], None)
         | WriteBlocked \<Rightarrow> (s, [], None)
         | WriteErr e \<Rightarrow>
             if peer_closed e then (s\<lparr>backend_eof := True\<rparr>, [], None) else (s, [], Some (Failed e)))
      else (s, [], None))"

definition shutdown_backend :: "'b proxy_step" where
  "shutdown_backend s =
     (if client_eof s \<and> is_empty (c2b s) \<and> \<not> backend_wr_closed s
      then (s\<lparr>backend_wr_closed := True\<rparr>, [Shut ToBackend], None) else (s, [], None))"

definition read_backend :: "'b Round \<Rightarrow> 'b proxy_step" where
  "read_backend r s =
     (if is_empty (b2c s) \<and> \<not> backend_eof s then
        (case read_into (backend_read r) of
           Data bs \<Rightarrow> (s\<lparr>b2c := set_pending bs (b2c s)\<rparr>, [Got ToClient bs], None)
         | Eof \<Rightarrow> (s\<lparr>backend_eof := True\<rparr>, [], None)
         | ReadBlocked \<Rightarrow> (s, [], None)
         | ReadErr e \<Rightarrow>
             if peer_closed e then (s\<lparr>backend_eof := True\<rparr>, [], None) else (s, [], Some (Failed e)))
      else (s, [], None))"

definition flushed :: "'b Round \<Rightarrow> ending option" where
  "flushed r =
     (case flush_spin (client_flush r) of
        None \<Rightarrow> Some Spinning | Some (Inl e) \<Rightarrow> Some (Failed e) | Some (Inr _) \<Rightarrow> None)"

definition write_client :: "'b Round \<Rightarrow> 'b proxy_step" where
  "write_client r s =
     (if \<not> is_empty (b2c s) then
        (case write_some (client_write r) of
           Wrote n \<Rightarrow>
             (s\<lparr>b2c := advance n (b2c s)\<rparr>, [Put ToClient (take n (unwritten (b2c s)))], flushed r)
         | WriteBlocked \<Rightarrow> (s, [], flushed r)
         | WriteErr e \<Rightarrow>
             if peer_closed e then (s\<lparr>client_eof := True\<rparr>, [], None) else (s, [], Some (Failed e)))
      else (s, [], None))"

definition notify_client :: "'b Round \<Rightarrow> 'b proxy_step" where
  "notify_client r s =
     (if backend_eof s \<and> is_empty (b2c s) \<and> \<not> client_wr_closed s then
        (case flush_spin (notify_flush r) of
           None \<Rightarrow> (s, [Shut ToClient], Some Spinning)
         | Some _ \<Rightarrow> (s\<lparr>client_wr_closed := True\<rparr>, [Shut ToClient], None))
      else (s, [], None))"

definition check_finished :: "'b proxy_step" where
  "check_finished s =
     (s, [], if client_eof s \<and> backend_eof s \<and> is_empty (c2b s) \<and> is_empty (b2c s) then Some Finished else None)"

definition proxy_pass :: "'b Round \<Rightarrow> 'b proxy_step" where
  "proxy_pass r =
     then_do (read_client r) (then_do (write_backend r) (then_do shutdown_backend
       (then_do (read_backend r) (then_do (write_client r) (then_do (notify_client r) check_finished)))))"

text \<open>The loop over the rounds there are; no ending when they run out.\<close>

fun proxy_loop :: "'b Round list \<Rightarrow> 'b proxy_step" where
  "proxy_loop [] s = (s, [], None)"
| "proxy_loop (r # rs) s = then_do (proxy_pass r) (proxy_loop rs) s"

definition proxy_connection :: "'b Round list \<Rightarrow> 'b Proxy \<times> 'b transfer list \<times> ending option" where
  "proxy_connection rounds = proxy_loop rounds idle_proxy"

section \<open>A pipe, the contract of one direction\<close>

text \<open>
  One direction of the connection as a pipe: it takes bytes in only when it holds none, puts
  out a prefix of what it holds, and is shut once, when it is empty; nothing follows.
\<close>

record 'b pipe =
  held :: "'b list"
  shut :: bool

fun pipe_step :: "Way \<Rightarrow> 'b transfer \<Rightarrow> 'b pipe \<Rightarrow> 'b pipe option" where
  "pipe_step d (Got w bs) p =
     (if w \<noteq> d then Some p else if held p = [] \<and> \<not> shut p then Some (p\<lparr>held := bs\<rparr>) else None)"
| "pipe_step d (Put w bs) p =
     (if w \<noteq> d then Some p
      else if take (length bs) (held p) = bs \<and> \<not> shut p then Some (p\<lparr>held := drop (length bs) (held p)\<rparr>)
      else None)"
| "pipe_step d (Shut w) p =
     (if w \<noteq> d then Some p else if held p = [] \<and> \<not> shut p then Some (p\<lparr>shut := True\<rparr>) else None)"

fun pipe_run :: "Way \<Rightarrow> 'b transfer list \<Rightarrow> 'b pipe \<Rightarrow> 'b pipe option" where
  "pipe_run d [] p = Some p"
| "pipe_run d (e # es) p = Option.bind (pipe_step d e p) (pipe_run d es)"

definition bytes_got :: "Way \<Rightarrow> 'b transfer list \<Rightarrow> 'b list" where
  "bytes_got d evs = concat (map (\<lambda>e. case e of Got w bs \<Rightarrow> if w = d then bs else [] | _ \<Rightarrow> []) evs)"

definition bytes_put :: "Way \<Rightarrow> 'b transfer list \<Rightarrow> 'b list" where
  "bytes_put d evs = concat (map (\<lambda>e. case e of Put w bs \<Rightarrow> if w = d then bs else [] | _ \<Rightarrow> []) evs)"

lemma bytes_put_append: "bytes_put d (a @ b) = bytes_put d a @ bytes_put d b"
  by (simp add: bytes_put_def)

lemma pipe_run_append: "pipe_run d (a @ b) p = Option.bind (pipe_run d a p) (pipe_run d b)"
proof (induction a arbitrary: p)
  case (Cons e es)
  then show ?case by (cases "pipe_step d e p") simp_all
qed simp

lemma pipe_run_bytes:
  "pipe_run d evs p = Some q \<Longrightarrow> held p @ bytes_got d evs = bytes_put d evs @ held q"
proof (induction evs arbitrary: p)
  case (Cons e es)
  then obtain r where r: "pipe_step d e p = Some r" "pipe_run d es r = Some q"
    by (auto simp: bind_eq_Some_conv)
  from Cons.IH [OF r(2)] r(1) show ?case
    by (cases e) (auto simp: bytes_got_def bytes_put_def split: if_splits,
      metis append_assoc append_take_drop_id)
qed (simp add: bytes_got_def bytes_put_def)

lemma pipe_run_shut:
  "pipe_run d evs p = Some q \<Longrightarrow> shut p \<Longrightarrow> bytes_got d evs = [] \<and> bytes_put d evs = [] \<and> Shut d \<notin> set evs"
proof (induction evs arbitrary: p)
  case (Cons e es)
  then obtain r where r: "pipe_step d e p = Some r" "pipe_run d es r = Some q"
    by (auto simp: bind_eq_Some_conv)
  with Cons.prems(2) have "shut r" by (cases e) (auto split: if_splits)
  from Cons.IH [OF r(2) this] r(1) Cons.prems(2) show ?case
    by (cases e) (auto simp: bytes_got_def bytes_put_def split: if_splits)
qed (simp add: bytes_got_def bytes_put_def)

section \<open>The proxy refines two pipes\<close>

fun pending_of :: "Way \<Rightarrow> 'b Proxy \<Rightarrow> 'b Pending" where
  "pending_of ToBackend s = c2b s"
| "pending_of ToClient s = b2c s"

fun closed_of :: "Way \<Rightarrow> 'b Proxy \<Rightarrow> bool" where
  "closed_of ToBackend s = backend_wr_closed s"
| "closed_of ToClient s = client_wr_closed s"

fun source_ended :: "Way \<Rightarrow> 'b Proxy \<Rightarrow> bool" where
  "source_ended ToBackend s = client_eof s"
| "source_ended ToClient s = backend_eof s"

definition pipe_of :: "Way \<Rightarrow> 'b Proxy \<Rightarrow> 'b pipe" where
  "pipe_of d s = \<lparr>held = unwritten (pending_of d s), shut = closed_of d s\<rparr>"

definition proxy_inv :: "Way \<Rightarrow> 'b Proxy \<Rightarrow> bool" where
  "proxy_inv d s \<longleftrightarrow> (closed_of d s \<longrightarrow> source_ended d s \<and> is_empty (pending_of d s))"

definition simulates :: "Way \<Rightarrow> 'b proxy_step \<Rightarrow> bool" where
  "simulates d f \<longleftrightarrow> (\<forall>s s' evs st. proxy_inv d s \<longrightarrow> f s = (s', evs, st) \<longrightarrow>
     proxy_inv d s' \<and> (\<exists>p. pipe_run d evs (pipe_of d s) = Some p \<and> held p = unwritten (pending_of d s') \<and>
       (st = None \<longrightarrow> p = pipe_of d s')))"

lemma simulates_then:
  assumes "simulates d f" "simulates d g"
  shows "simulates d (then_do f g)"
  unfolding simulates_def
proof (intro allI impI)
  fix s s' evs st
  assume inv: "proxy_inv d s" and run: "then_do f g s = (s', evs, st)"
  obtain t evs1 st1 where f: "f s = (t, evs1, st1)" by (cases "f s") auto
  from assms(1) inv f obtain p where p: "proxy_inv d t" "pipe_run d evs1 (pipe_of d s) = Some p"
    "held p = unwritten (pending_of d t)" "st1 = None \<longrightarrow> p = pipe_of d t"
    unfolding simulates_def by blast
  show "proxy_inv d s' \<and> (\<exists>p. pipe_run d evs (pipe_of d s) = Some p \<and> held p = unwritten (pending_of d s') \<and>
       (st = None \<longrightarrow> p = pipe_of d s'))"
  proof (cases st1)
    case (Some e)
    with run f p show ?thesis by (auto simp: then_do_def)
  next
    case None
    obtain u evs2 st2 where g: "g t = (u, evs2, st2)" by (cases "g t") auto
    from assms(2) p(1) g obtain q where "proxy_inv d u" "pipe_run d evs2 (pipe_of d t) = Some q"
      "held q = unwritten (pending_of d u)" "st2 = None \<longrightarrow> q = pipe_of d u"
      unfolding simulates_def by blast
    with run f g None p show ?thesis by (auto simp: then_do_def pipe_run_append)
  qed
qed

lemma pipe_put:
  "\<not> shut p \<Longrightarrow> pipe_step d (Put d (take n (held p))) p = Some (p\<lparr>held := drop n (held p)\<rparr>)"
  by (cases "n \<le> length (held p)") simp_all

lemma simulatesI:
  assumes "\<And>s. proxy_inv d s \<Longrightarrow>
    case f s of (s', evs, st) \<Rightarrow> proxy_inv d s' \<and>
      (case pipe_run d evs (pipe_of d s) of None \<Rightarrow> False
       | Some p \<Rightarrow> p = pipe_of d s' \<or> st \<noteq> None \<and> held p = unwritten (pending_of d s'))"
  shows "simulates d f"
  unfolding simulates_def
proof (intro allI impI)
  fix s s' evs st
  assume inv: "proxy_inv d s" and f: "f s = (s', evs, st)"
  from assms [OF inv]
  show "proxy_inv d s' \<and> (\<exists>p. pipe_run d evs (pipe_of d s) = Some p \<and> held p = unwritten (pending_of d s') \<and>
       (st = None \<longrightarrow> p = pipe_of d s'))"
    by (auto simp: f pipe_of_def split: option.splits)
qed

lemmas sim_simps = proxy_inv_def pipe_of_def is_empty_iff

lemma read_client_simulates: "simulates d (read_client r)"
  by (rule simulatesI, cases d)
    (auto simp: read_client_def sim_simps split: ReadState.splits)

lemma read_backend_simulates: "simulates d (read_backend r)"
  by (rule simulatesI, cases d)
    (auto simp: read_backend_def sim_simps split: ReadState.splits)

lemma shutdown_backend_simulates: "simulates d shutdown_backend"
  by (rule simulatesI, cases d) (auto simp: shutdown_backend_def sim_simps)

lemma check_finished_simulates: "simulates d check_finished"
  by (rule simulatesI) (simp add: check_finished_def)

lemma notify_client_simulates: "simulates d (notify_client r)"
  by (rule simulatesI, cases d) (auto simp: notify_client_def sim_simps split: option.splits)

lemma put_pending:
  assumes "proxy_inv d s" "\<not> is_empty (pending_of d s)"
  shows "pipe_run d [Put d (take n (unwritten (pending_of d s)))] (pipe_of d s) =
    Some \<lparr>held = drop n (unwritten (pending_of d s)), shut = closed_of d s\<rparr>"
  using assms pipe_put [of "pipe_of d s" d n] by (auto simp: proxy_inv_def pipe_of_def)

lemma write_backend_simulates: "simulates d (write_backend r)"
proof (rule simulatesI, cases d)
  fix s :: "'a Proxy"
  assume inv: "proxy_inv d s" and d: "d = ToBackend"
  show "case write_backend r s of (s', evs, st) \<Rightarrow> proxy_inv d s' \<and>
      (case pipe_run d evs (pipe_of d s) of None \<Rightarrow> False
       | Some p \<Rightarrow> p = pipe_of d s' \<or> st \<noteq> None \<and> held p = unwritten (pending_of d s'))"
    using inv put_pending [OF inv] unfolding d
    by (cases "is_empty (c2b s)"; cases "write_some (backend_write r)")
      (auto simp: write_backend_def sim_simps simp del: pipe_run.simps(2))
next
  fix s :: "'a Proxy"
  assume "proxy_inv d s" and "d = ToClient"
  then show "case write_backend r s of (s', evs, st) \<Rightarrow> proxy_inv d s' \<and>
      (case pipe_run d evs (pipe_of d s) of None \<Rightarrow> False
       | Some p \<Rightarrow> p = pipe_of d s' \<or> st \<noteq> None \<and> held p = unwritten (pending_of d s'))"
    by (auto simp: write_backend_def sim_simps split: WriteState.splits)
qed

lemma write_client_simulates: "simulates d (write_client r)"
proof (rule simulatesI, cases d)
  fix s :: "'a Proxy"
  assume inv: "proxy_inv d s" and d: "d = ToClient"
  show "case write_client r s of (s', evs, st) \<Rightarrow> proxy_inv d s' \<and>
      (case pipe_run d evs (pipe_of d s) of None \<Rightarrow> False
       | Some p \<Rightarrow> p = pipe_of d s' \<or> st \<noteq> None \<and> held p = unwritten (pending_of d s'))"
    using inv put_pending [OF inv] unfolding d
    by (cases "is_empty (b2c s)"; cases "write_some (client_write r)")
      (auto simp: write_client_def sim_simps simp del: pipe_run.simps(2))
next
  fix s :: "'a Proxy"
  assume "proxy_inv d s" and "d = ToBackend"
  then show "case write_client r s of (s', evs, st) \<Rightarrow> proxy_inv d s' \<and>
      (case pipe_run d evs (pipe_of d s) of None \<Rightarrow> False
       | Some p \<Rightarrow> p = pipe_of d s' \<or> st \<noteq> None \<and> held p = unwritten (pending_of d s'))"
    by (auto simp: write_client_def sim_simps split: WriteState.splits)
qed

lemmas steps_simulate = read_client_simulates write_backend_simulates shutdown_backend_simulates
  read_backend_simulates write_client_simulates notify_client_simulates check_finished_simulates

lemma loop_simulates: "simulates d (proxy_loop rounds)"
proof (induction rounds)
  case Nil
  then show ?case by (auto simp: simulates_def pipe_of_def)
next
  case (Cons r rs)
  have "proxy_loop (r # rs) = then_do (proxy_pass r) (proxy_loop rs)" by (rule ext) simp
  then show ?case
    unfolding proxy_pass_def by (simp only:) (intro simulates_then steps_simulate Cons.IH)
qed

text \<open>The loop finishes only with nothing pending.\<close>

definition drained_at_end :: "'b proxy_step \<Rightarrow> bool" where
  "drained_at_end f \<longleftrightarrow> (\<forall>s. case f s of (s', evs, st) \<Rightarrow>
     st = Some Finished \<longrightarrow> is_empty (c2b s') \<and> is_empty (b2c s'))"

lemma drained_then: "drained_at_end f \<Longrightarrow> drained_at_end g \<Longrightarrow> drained_at_end (then_do f g)"
  unfolding drained_at_end_def then_do_def by (auto split: prod.splits option.splits) blast+

lemma steps_drained:
  "drained_at_end (read_client r)" "drained_at_end (write_backend r)" "drained_at_end shutdown_backend"
  "drained_at_end (read_backend r)" "drained_at_end (write_client r)" "drained_at_end (notify_client r)"
  "drained_at_end check_finished"
  unfolding drained_at_end_def
        apply (auto simp: read_client_def split: ReadState.splits) [1]
       apply (auto simp: write_backend_def split: WriteState.splits) [1]
      apply (simp add: shutdown_backend_def)
     apply (auto simp: read_backend_def split: ReadState.splits) [1]
    apply (auto simp: write_client_def flushed_def split: WriteState.splits option.splits sum.splits) [1]
   apply (auto simp: notify_client_def split: option.splits) [1]
  apply (simp add: check_finished_def)
  done

lemma loop_drained: "drained_at_end (proxy_loop rounds)"
proof (induction rounds)
  case Nil
  then show ?case by (simp add: drained_at_end_def)
next
  case (Cons r rs)
  have "proxy_loop (r # rs) = then_do (proxy_pass r) (proxy_loop rs)" by (rule ext) simp
  then show ?case
    unfolding proxy_pass_def by (simp only:) (intro drained_then steps_drained Cons.IH)
qed

lemma proxy_run_pipes:
  assumes run: "proxy_connection rounds = (s, evs, st)"
  obtains p where "pipe_run d evs \<lparr>held = [], shut = False\<rparr> = Some p" "held p = unwritten (pending_of d s)"
    "bytes_got d evs = bytes_put d evs @ unwritten (pending_of d s)"
    "st = Some Finished \<Longrightarrow> bytes_put d evs = bytes_got d evs"
proof -
  have "proxy_inv d (idle_proxy :: 'a Proxy)" and pipe: "pipe_of d (idle_proxy :: 'a Proxy) = \<lparr>held = [], shut = False\<rparr>"
    by (cases d; simp add: proxy_inv_def idle_proxy_def pipe_of_def)+
  with loop_simulates [of d rounds] run obtain p where
    p: "pipe_run d evs \<lparr>held = [], shut = False\<rparr> = Some p" "held p = unwritten (pending_of d s)"
    unfolding simulates_def proxy_connection_def by metis
  have "is_empty (c2b s) \<and> is_empty (b2c s)" if "st = Some Finished"
    using loop_drained [of rounds] run that unfolding drained_at_end_def proxy_connection_def
    by (metis (mono_tags, lifting) case_prod_conv)
  then have "unwritten (pending_of d s) = []" if "st = Some Finished"
    using that by (cases d) (simp_all add: is_empty_iff)
  with pipe_run_bytes [OF p(1)] p that show ?thesis by simp
qed

text \<open>
  C29. The proxy is two pipes: whatever the sockets answer, in either direction every byte
  written was read, in order, and the bytes read but not written are the pending ones; a
  direction is shut only when all it read was written, and nothing is read or written after;
  and when the connection ends in order every byte read was written.
\<close>

theorem proxy_is_two_pipes:
  "case proxy_connection rounds of (s, evs, st) \<Rightarrow>
     (case pipe_run d evs \<lparr>held = [], shut = False\<rparr> of
        None \<Rightarrow> False
      | Some p \<Rightarrow> held p = unwritten (pending_of d s) \<and>
          bytes_got d evs = bytes_put d evs @ unwritten (pending_of d s)) \<and>
     (if st = Some Finished then bytes_put d evs = bytes_got d evs else True)"
proof -
  obtain s evs st where r: "proxy_connection rounds = (s, evs, st)" by (cases "proxy_connection rounds") auto
  obtain p where "pipe_run d evs \<lparr>held = [], shut = False\<rparr> = Some p" "held p = unwritten (pending_of d s)"
    "bytes_got d evs = bytes_put d evs @ unwritten (pending_of d s)"
    "st = Some Finished \<Longrightarrow> bytes_put d evs = bytes_got d evs"
    using proxy_run_pipes [OF r, of d] by blast
  then show ?thesis by (simp add: r)
qed

text \<open>
  After a direction is shut nothing is read from its source or written to its sink, and
  everything read before was written.
\<close>

theorem proxy_shuts_last:
  assumes "proxy_connection rounds = (s, a @ Shut d # b, st)"
  shows "bytes_put d a = bytes_got d a \<and> bytes_got d b = [] \<and> bytes_put d b = [] \<and> Shut d \<notin> set b"
proof -
  have "proxy_inv d (idle_proxy :: 'a Proxy)" and pipe: "pipe_of d (idle_proxy :: 'a Proxy) = \<lparr>held = [], shut = False\<rparr>"
    by (cases d; simp add: proxy_inv_def idle_proxy_def pipe_of_def)+
  with loop_simulates [of d rounds] assms obtain p where
    p: "pipe_run d (a @ Shut d # b) \<lparr>held = [], shut = False\<rparr> = Some p"
    unfolding simulates_def proxy_connection_def by metis
  then obtain q where q: "pipe_run d a \<lparr>held = [], shut = False\<rparr> = Some q" "held q = []"
      "pipe_run d b (q\<lparr>shut := True\<rparr>) = Some p"
    by (auto simp: pipe_run_append bind_eq_Some_conv split: if_splits)
  from pipe_run_bytes [OF q(1)] pipe_run_shut [OF q(3)] q(2) show ?thesis by simp
qed

definition sample_round :: "string \<Rightarrow> string \<Rightarrow> char Round" where
  "sample_round request answer =
     \<lparr>client_read = Inr request, backend_write = Inr 8, backend_read = Inr answer, client_write = Inr 8,
      client_flush = [Inl WouldBlock, Inr ()], notify_flush = [Inr ()]\<rparr>"

lemmas run_defs = proxy_connection_def idle_proxy_def proxy_pass_def then_do_def read_client_def write_backend_def
  shutdown_backend_def read_backend_def write_client_def notify_client_def check_finished_def flushed_def
  sample_round_def read_into_def write_some_def is_empty_def no_pending_def set_pending_def advance_def
  unwritten_def transient_def peer_closed_def

theorem proxy_shuts_last_witness:
  "\<exists>s st a b. proxy_connection [sample_round ''GET'' ''OK'', sample_round '''' ''''] =
     (s, a @ Shut ToBackend # b, st) \<and> bytes_put ToBackend a = ''GET'' \<and>
     bytes_got ToBackend b = [] \<and> st = Some Finished"
proof -
  let ?a = "[Got ToBackend ''GET'', Put ToBackend ''GET'', Got ToClient ''OK'', Put ToClient ''OK'']"
  obtain s where run: "proxy_connection [sample_round ''GET'' ''OK'', sample_round '''' ''''] =
      (s, ?a @ Shut ToBackend # [Shut ToClient], Some Finished)"
    by (simp add: run_defs)
  from proxy_shuts_last [OF run] have "bytes_got ToBackend [Shut ToClient :: char transfer] = []" by blast
  with run show ?thesis
    by (intro exI [of _ s] exI [of _ "Some Finished"] exI [of _ ?a] exI [of _ "[Shut ToClient]"])
      (simp add: bytes_put_def)
qed

section \<open>Endings\<close>

text \<open>A socket's answers that keep the loop going: nothing fatal, and flushes that return.\<close>

definition harmless :: "'a io \<Rightarrow> bool" where
  "harmless r = (case r of Inr _ \<Rightarrow> True | Inl e \<Rightarrow> transient e \<or> peer_closed e)"

definition backend_gone :: "'b Round \<Rightarrow> bool" where
  "backend_gone r =
     ((case backend_write r of Inl e \<Rightarrow> peer_closed e | Inr _ \<Rightarrow> False) \<and>
      harmless (client_read r) \<and> harmless (backend_read r) \<and> harmless (client_write r) \<and>
      flush_spin (client_flush r) = Some (Inr ()) \<and> flush_spin (notify_flush r) \<noteq> None)"

definition keeps_pending :: "'b proxy_step \<Rightarrow> bool" where
  "keeps_pending f \<longleftrightarrow> (\<forall>s. \<not> is_empty (c2b s) \<longrightarrow>
     (case f s of (s', evs, st) \<Rightarrow> \<not> is_empty (c2b s') \<and> st = None))"

lemma keeps_then: "keeps_pending f \<Longrightarrow> keeps_pending g \<Longrightarrow> keeps_pending (then_do f g)"
  unfolding keeps_pending_def then_do_def by (fastforce split: prod.splits option.splits)

lemma peer_not_transient: "peer_closed e \<Longrightarrow> \<not> transient e"
  by (auto simp: peer_closed_def transient_def)

lemma plain_steps_keep:
  "keeps_pending (read_client r)" "keeps_pending shutdown_backend" "keeps_pending check_finished"
  by (auto simp: keeps_pending_def read_client_def shutdown_backend_def check_finished_def)

lemma gone_write_backend: "backend_gone r \<Longrightarrow> keeps_pending (write_backend r)"
  by (auto simp: keeps_pending_def write_backend_def write_some_def backend_gone_def peer_not_transient
      split: sum.splits)

lemma gone_read_backend: "backend_gone r \<Longrightarrow> keeps_pending (read_backend r)"
  by (auto simp: keeps_pending_def read_backend_def read_into_def backend_gone_def harmless_def split: sum.splits)

lemma gone_write_client: "backend_gone r \<Longrightarrow> keeps_pending (write_client r)"
  by (auto simp: keeps_pending_def write_client_def write_some_def flushed_def backend_gone_def harmless_def
      split: sum.splits)

lemma gone_notify_client: "backend_gone r \<Longrightarrow> keeps_pending (notify_client r)"
  by (auto simp: keeps_pending_def notify_client_def backend_gone_def)

lemmas gone_steps_keep = plain_steps_keep gone_write_backend gone_read_backend gone_write_client gone_notify_client

lemma gone_rest_keeps:
  assumes "backend_gone r"
  shows "keeps_pending (then_do (write_backend r) (then_do shutdown_backend
       (then_do (read_backend r) (then_do (write_client r) (then_do (notify_client r) check_finished)))))"
  by (intro keeps_then gone_steps_keep assms)

lemma gone_loop_keeps: "list_all backend_gone rounds \<Longrightarrow> keeps_pending (proxy_loop rounds)"
proof (induction rounds)
  case Nil
  then show ?case by (simp add: keeps_pending_def)
next
  case (Cons r rs)
  have "proxy_loop (r # rs) = then_do (proxy_pass r) (proxy_loop rs)" by (rule ext) simp
  with Cons show ?case
    unfolding proxy_pass_def by (simp only:) (intro keeps_then gone_steps_keep; simp)
qed

text \<open>
  A backend that goes away with bytes pending leaks the connection: once a request has
  been read and every write to the backend answers that the peer is gone, the loop never
  ends, however long it runs, not even when the client has gone as well.
\<close>

theorem gone_backend_never_ends:
  assumes "client_read r = Inr bs" "bs \<noteq> []" "list_all backend_gone (r # rs)"
  shows "snd (snd (proxy_connection (r # rs))) = None"
proof -
  let ?s = "idle_proxy\<lparr>c2b := set_pending bs (c2b idle_proxy)\<rparr>"
  have first: "read_client r idle_proxy = (?s, [Got ToBackend bs], None)"
    using assms by (simp add: read_client_def idle_proxy_def read_into_def is_empty_iff)
  have data: "\<not> is_empty (c2b ?s)"
    using assms by (simp add: is_empty_iff)
  obtain s1 evs1 where p: "proxy_pass r idle_proxy = (s1, evs1, None)" "\<not> is_empty (c2b s1)"
    using gone_rest_keeps [of r] assms(3) data first
    unfolding keeps_pending_def proxy_pass_def by (fastforce simp: then_do_def split: prod.splits)
  have "case proxy_loop rs s1 of (s', evs, st) \<Rightarrow> \<not> is_empty (c2b s') \<and> st = None"
    using gone_loop_keeps [of rs] assms(3) p(2) by (simp add: keeps_pending_def)
  with p(1) show ?thesis
    by (auto simp: proxy_connection_def then_do_def split: prod.splits)
qed

definition gone_round :: "string \<Rightarrow> char Round" where
  "gone_round request =
     \<lparr>client_read = Inr request, backend_write = Inl BrokenPipe, backend_read = Inr [], client_write = Inr 8,
      client_flush = [Inr ()], notify_flush = [Inr ()]\<rparr>"

theorem gone_backend_never_ends_witness:
  "snd (snd (proxy_connection (gone_round ''POST'' # replicate 1000 (gone_round '''')))) = None"
proof (rule gone_backend_never_ends)
  show "client_read (gone_round ''POST'') = Inr ''POST''" by (simp add: gone_round_def)
  show "list_all backend_gone (gone_round ''POST'' # replicate 1000 (gone_round ''''))"
    by (auto simp: list_all_iff gone_round_def backend_gone_def harmless_def peer_closed_def)
qed simp

text \<open>A round in which both peers take at least a byte.\<close>

definition willing :: "'b Round \<Rightarrow> bool" where
  "willing r =
     ((case backend_write r of Inr n \<Rightarrow> 0 < n | Inl _ \<Rightarrow> False) \<and>
      (case client_write r of Inr n \<Rightarrow> 0 < n | Inl _ \<Rightarrow> False) \<and>
      flush_spin (client_flush r) = Some (Inr ()) \<and> flush_spin (notify_flush r) \<noteq> None)"

definition left_over :: "'b Proxy \<Rightarrow> nat" where
  "left_over s = max (length (unwritten (c2b s))) (length (unwritten (b2c s)))"

lemma willing_pass:
  assumes "willing r" "client_eof s" "backend_eof s"
  shows "case proxy_pass r s of (s', evs, st) \<Rightarrow>
    client_eof s' \<and> backend_eof s' \<and> left_over s' \<le> left_over s - 1 \<and>
    st = (if left_over s' = 0 then Some Finished else None) \<and>
    (\<forall>d. unwritten (pending_of d s) = bytes_put d evs @ unwritten (pending_of d s'))"
proof -
  obtain n m where w: "backend_write r = Inr n" "0 < n" "client_write r = Inr m" "0 < m"
      "flushed r = None" "\<exists>x. flush_spin (notify_flush r) = Some x"
    using assms(1) by (auto simp: willing_def flushed_def split: sum.splits)
  have rc: "read_client r s = (s, [], None)"
    using assms by (simp add: read_client_def)
  define s1 where "s1 = (if is_empty (c2b s) then s else s\<lparr>c2b := advance n (c2b s)\<rparr>)"
  define e1 where "e1 = (if is_empty (c2b s) then [] else [Put ToBackend (take n (unwritten (c2b s)))])"
  have wb: "write_backend r s = (s1, e1, None)"
    using w by (simp add: write_backend_def write_some_def s1_def e1_def)
  define s2 where "s2 = fst (shutdown_backend s1)"
  obtain e2 where sb: "shutdown_backend s1 = (s2, e2, None)" and e2: "bytes_put d e2 = []" for d
    by (cases "client_eof s1 \<and> is_empty (c2b s1) \<and> \<not> backend_wr_closed s1")
      (simp_all add: shutdown_backend_def s2_def bytes_put_def)
  have s2: "c2b s2 = c2b s1" "b2c s2 = b2c s" "client_eof s2" "backend_eof s2"
    using assms by (auto simp: s2_def s1_def shutdown_backend_def)
  have rb: "read_backend r s2 = (s2, [], None)"
    using s2 by (simp add: read_backend_def)
  define s3 where "s3 = (if is_empty (b2c s2) then s2 else s2\<lparr>b2c := advance m (b2c s2)\<rparr>)"
  define e3 where "e3 = (if is_empty (b2c s2) then [] else [Put ToClient (take m (unwritten (b2c s2)))])"
  have wc: "write_client r s2 = (s3, e3, None)"
    using w by (simp add: write_client_def write_some_def s3_def e3_def)
  define s4 where "s4 = fst (notify_client r s3)"
  obtain e4 where nc: "notify_client r s3 = (s4, e4, None)" and e4: "bytes_put d e4 = []" for d
    using w(6) by (cases "backend_eof s3 \<and> is_empty (b2c s3) \<and> \<not> client_wr_closed s3")
      (auto simp: notify_client_def s4_def bytes_put_def)
  have s4: "c2b s4 = c2b s1" "b2c s4 = b2c s3" "client_eof s4" "backend_eof s4"
    using s2 w(6) by (auto simp: s4_def s3_def notify_client_def)
  have less: "length (unwritten (c2b s4)) \<le> length (unwritten (c2b s)) - 1"
    "length (unwritten (b2c s4)) \<le> length (unwritten (b2c s)) - 1"
    using s4 s2 w(2,4) by (auto simp: s1_def s3_def is_empty_iff)
  have pass: "proxy_pass r s = (s4, [] @ e1 @ e2 @ [] @ e3 @ e4 @ [],
      if is_empty (c2b s4) \<and> is_empty (b2c s4) then Some Finished else None)"
    using s4 by (simp add: proxy_pass_def then_do_def rc wb sb rb wc nc check_finished_def)
  have puts: "bytes_put d e1 = (case d of ToBackend \<Rightarrow> take n (unwritten (c2b s)) | ToClient \<Rightarrow> [])"
    "bytes_put d e3 = (case d of ToBackend \<Rightarrow> [] | ToClient \<Rightarrow> take m (unwritten (b2c s)))" for d
    using s2 by (auto simp: e1_def e3_def bytes_put_def is_empty_iff split: Way.split)
  have "unwritten (pending_of d s) = bytes_put d ([] @ e1 @ e2 @ [] @ e3 @ e4 @ []) @ unwritten (pending_of d s4)" for d
    using s4 s2 e2 [of d] e4 [of d] puts
    by (cases d) (auto simp: bytes_put_append s1_def s3_def is_empty_iff)
  with pass show ?thesis
    using s4 less by (auto simp: left_over_def is_empty_iff)
qed

text \<open>
  C30. When both sides have ended, then, while the peers keep taking bytes, the connection
  ends in order with every byte written, within as many passes as there are bytes pending in
  the fuller direction, and one: each direction's peer has been given exactly what was
  pending for it. (A peer that takes no more bytes can keep the connection for ever, above.)
\<close>

theorem proxy_drains:
  assumes "client_eof s" "backend_eof s" "list_all willing rounds" "left_over s < length rounds"
  shows "case proxy_loop rounds s of (s', evs, st) \<Rightarrow>
    st = Some Finished \<and> (\<forall>d. bytes_put d evs = unwritten (pending_of d s))"
  using assms
proof (induction rounds arbitrary: s)
  case (Cons r rs)
  obtain s' evs st where p: "proxy_pass r s = (s', evs, st)" by (cases "proxy_pass r s") auto
  from willing_pass [of r s] Cons.prems p
  have step: "client_eof s'" "backend_eof s'" "left_over s' \<le> left_over s - 1"
    "st = (if left_over s' = 0 then Some Finished else None)"
    "unwritten (pending_of d s) = bytes_put d evs @ unwritten (pending_of d s')" for d
    by simp_all
  show ?case
  proof (cases "left_over s' = 0")
    case True
    then have "unwritten (pending_of d s') = []" for d
      by (cases d) (simp_all add: left_over_def)
    with True p step show ?thesis by (simp add: then_do_def)
  next
    case False
    then have "case proxy_loop rs s' of (t, evs', st') \<Rightarrow>
        st' = Some Finished \<and> (\<forall>d. bytes_put d evs' = unwritten (pending_of d s'))"
      using Cons.prems step by (intro Cons.IH) auto
    with p step False show ?thesis by (auto simp: then_do_def bytes_put_append split: prod.splits)
  qed
qed simp

theorem proxy_drains_witness:
  "\<exists>s evs. proxy_loop (replicate 4 (sample_round [] []))
     (idle_proxy\<lparr>c2b := \<lparr>buf = ''GET'', start = 0\<rparr>, client_eof := True, backend_eof := True\<rparr>) = (s, evs, Some Finished) \<and>
   bytes_put ToBackend evs = ''GET''"
proof -
  let ?s = "idle_proxy\<lparr>c2b := \<lparr>buf = ''GET'', start = 0\<rparr>, client_eof := True, backend_eof := True\<rparr>"
  have "case proxy_loop (replicate 4 (sample_round [] [])) ?s of (s', evs, st) \<Rightarrow>
      st = Some Finished \<and> (\<forall>d. bytes_put d evs = unwritten (pending_of d ?s))"
    by (rule proxy_drains)
      (simp_all add: idle_proxy_def sample_round_def willing_def transient_def left_over_def unwritten_def
        no_pending_def list_all_iff)
  moreover have "unwritten (pending_of ToBackend ?s) = ''GET''" by (simp add: unwritten_def)
  ultimately show ?thesis
    by (cases "proxy_loop (replicate 4 (sample_round [] [])) ?s") auto
qed

end
