(* ===== verification/Terminator.thy ===== *)
theory Terminator
  imports Tls_Proxy Tls_Identity Server
begin

text \<open>
  The TLS terminator (\<^verbatim>\<open>run_tls_terminator\<close> of \<^verbatim>\<open>src/src/tls.rs\<close>): the thread that
  accepts public connections and the threads that carry them, one proxy each, interleaved
  in any order; and what a client behind it sees of the plaintext server.
\<close>

section \<open>States and steps\<close>

text \<open>Opening: the identity's configuration, the listener, its mode; the configuration.\<close>

definition terminator_opens ::
  "'c TlsLibrary \<Rightarrow> TlsIdentity \<Rightarrow> string \<Rightarrow> 'e + unit \<Rightarrow> string + unit \<Rightarrow> string + 'c" where
  "terminator_opens lib identity public_addr bound nonblocking =
     and_then (server_config lib identity) (\<lambda>config.
     and_then (with_context (''bind TLS listener '' @ public_addr) bound) (\<lambda>_.
     map_ok (\<lambda>_. config) nonblocking))"

text \<open>
  A connection's thread: with the backend still to be connected, not connected to it, in the
  loop, with the proxy's state and what it did, or out of it with an ending.
\<close>

datatype 'b tls_conn =
  Connecting
| NotConnected string
| Pumping "'b Proxy" "'b transfer list"
| Over "'b Proxy" "'b transfer list" ending

datatype tls_acceptor = TlsChecking | TlsAccepting | TlsStopped | TlsFailed ErrorKind

record 'b terminator =
  tls_acceptor :: tls_acceptor
  tls_conns :: "'b tls_conn list"
  tls_shutdown :: bool

definition terminator_started :: "'b terminator" where
  "terminator_started = \<lparr>tls_acceptor = TlsChecking, tls_conns = [], tls_shutdown = False\<rparr>"

text \<open>What the accepting thread does: the loop of the source, one call at a time.\<close>

inductive tls_accept_step :: "'b terminator \<Rightarrow> 'b terminator \<Rightarrow> bool" where
  tls_goes_on:
    "tls_acceptor s = TlsChecking \<Longrightarrow> \<not> tls_shutdown s \<Longrightarrow> tls_accept_step s (s\<lparr>tls_acceptor := TlsAccepting\<rparr>)"
| tls_stops:
    "tls_acceptor s = TlsChecking \<Longrightarrow> tls_shutdown s \<Longrightarrow> tls_accept_step s (s\<lparr>tls_acceptor := TlsStopped\<rparr>)"
| tls_accepts:
    "tls_acceptor s = TlsAccepting \<Longrightarrow>
     tls_accept_step s (s\<lparr>tls_acceptor := TlsChecking, tls_conns := tls_conns s @ [Connecting]\<rparr>)"
| tls_retries:
    "tls_acceptor s = TlsAccepting \<Longrightarrow> transient e \<Longrightarrow> tls_accept_step s (s\<lparr>tls_acceptor := TlsChecking\<rparr>)"
| tls_fails:
    "tls_acceptor s = TlsAccepting \<Longrightarrow> \<not> transient e \<Longrightarrow> tls_accept_step s (s\<lparr>tls_acceptor := TlsFailed e\<rparr>)"

text \<open>What the thread of one connection does.\<close>

definition pass_conn :: "'b Round \<Rightarrow> 'b Proxy \<Rightarrow> 'b transfer list \<Rightarrow> 'b tls_conn" where
  "pass_conn r p log =
     (case proxy_pass r p of
        (p', evs, None) \<Rightarrow> Pumping p' (log @ evs)
      | (p', evs, Some e) \<Rightarrow> Over p' (log @ evs) e)"

inductive conn_step :: "'b tls_conn \<Rightarrow> 'b tls_conn \<Rightarrow> bool" where
  backend_connects: "conn_step Connecting (Pumping idle_proxy [])"
| backend_refuses: "conn_step Connecting (NotConnected e)"
| passes: "conn_step (Pumping p log) (pass_conn r p log)"

inductive terminator_step :: "'b terminator \<Rightarrow> 'b terminator \<Rightarrow> bool" where
  acceptor_moves: "tls_accept_step s s' \<Longrightarrow> terminator_step s s'"
| conn_moves:
    "i < length (tls_conns s) \<Longrightarrow> conn_step (tls_conns s ! i) c \<Longrightarrow>
     terminator_step s (s\<lparr>tls_conns := (tls_conns s)[i := c]\<rparr>)"
| tls_shutdown_requested: "terminator_step s (s\<lparr>tls_shutdown := True\<rparr>)"

inductive_cases tls_accept_stepE: "tls_accept_step s s'"
inductive_cases conn_stepE: "conn_step c c'"
inductive_cases terminator_stepE: "terminator_step s s'"

inductive_simps conn_step_simps [simp]:
  "conn_step Connecting c" "conn_step (NotConnected e) c" "conn_step (Over p log e) c"

definition reachable_terminator :: "'b terminator \<Rightarrow> bool" where
  "reachable_terminator s = terminator_step\<^sup>*\<^sup>* terminator_started s"

lemma reachable_step: "reachable_terminator s \<Longrightarrow> terminator_step s s' \<Longrightarrow> reachable_terminator s'"
  unfolding reachable_terminator_def by (rule rtranclp.rtrancl_into_rtrancl)

lemma reachable_started: "reachable_terminator terminator_started"
  by (simp add: reachable_terminator_def)

section \<open>Connections do not meet\<close>

text \<open>Every connection is a run of the proxy of its own, whatever the others do.\<close>

fun own_run :: "'b tls_conn \<Rightarrow> bool" where
  "own_run (Pumping p log) = (\<exists>rounds. proxy_connection rounds = (p, log, None))"
| "own_run (Over p log e) = (\<exists>rounds. proxy_connection rounds = (p, log, Some e))"
| "own_run c = True"

lemma then_do_assoc: "then_do (then_do f g) h = then_do f (then_do g h)"
  by (rule ext) (simp add: then_do_def split: prod.split option.split)

lemma proxy_loop_snoc: "proxy_loop (rs @ [r]) = then_do (proxy_loop rs) (proxy_pass r)"
proof (induction rs)
  case Nil
  show ?case by (rule ext) (simp add: then_do_def split: prod.split option.split)
next
  case (Cons q qs)
  have "proxy_loop ((q # qs) @ [r]) = then_do (proxy_pass q) (proxy_loop (qs @ [r]))"
    "proxy_loop (q # qs) = then_do (proxy_pass q) (proxy_loop qs)"
    by (rule ext, simp)+
  with Cons show ?case by (simp add: then_do_assoc)
qed

lemma own_run_step:
  assumes "conn_step c c'" "own_run c"
  shows "own_run c'"
  using assms
proof (induction rule: conn_step.induct)
  case backend_connects
  then show ?case by (auto intro: exI [of _ "[]"] simp: proxy_connection_def)
next
  case (passes p log r)
  then obtain rounds where run: "proxy_loop rounds idle_proxy = (p, log, None)"
    by (auto simp: proxy_connection_def)
  obtain p' evs st where pass: "proxy_pass r p = (p', evs, st)" by (cases "proxy_pass r p") auto
  have "proxy_connection (rounds @ [r]) = (p', log @ evs, st)"
    by (simp add: proxy_connection_def proxy_loop_snoc then_do_def run pass)
  then show ?case by (cases st) (auto simp: pass_conn_def pass)
qed simp

lemma own_runs_step:
  assumes "terminator_step s s'" "list_all own_run (tls_conns s)"
  shows "list_all own_run (tls_conns s')"
  using assms
proof (induction rule: terminator_step.induct)
  case (acceptor_moves s s')
  then show ?case by (auto elim: tls_accept_stepE)
next
  case (conn_moves i s c)
  then have "own_run c" by (auto intro: own_run_step simp: list_all_length)
  with conn_moves show ?case by (simp add: list_all_length nth_list_update)
qed simp

lemma reachable_own_runs:
  assumes "reachable_terminator s"
  shows "list_all own_run (tls_conns s)"
  using assms unfolding reachable_terminator_def
  by (induction rule: rtranclp_induct) (auto simp: terminator_started_def intro: own_runs_step)
section \<open>The server behind TLS\<close>

text \<open>What a connection carried, whether it is over or not.\<close>

fun conn_log :: "'b tls_conn \<Rightarrow> 'b transfer list" where
  "conn_log (Pumping p log) = log"
| "conn_log (Over p log e) = log"
| "conn_log c = []"

text \<open>At any moment either peer of any connection was sent a prefix of what the other sent.\<close>

lemma carried_prefix:
  assumes "reachable_terminator s" "i < length (tls_conns s)"
  shows "\<exists>rest. bytes_got d (conn_log (tls_conns s ! i)) = bytes_put d (conn_log (tls_conns s ! i)) @ rest"
proof -
  have own: "own_run (tls_conns s ! i)"
    using reachable_own_runs [OF assms(1)] assms(2) by (simp add: list_all_length)
  have "\<exists>rest. bytes_got d log = bytes_put d log @ rest"
    if "proxy_connection rounds = (p, log, st)" for rounds p log st
    using proxy_run_pipes [OF that, of d] by blast
  with own show ?thesis
    by (cases "tls_conns s ! i") (auto simp: bytes_got_def bytes_put_def)
qed

lemma carried_whole:
  assumes "reachable_terminator s" "i < length (tls_conns s)" "tls_conns s ! i = Over p log Finished"
  shows "bytes_put d log = bytes_got d log"
proof -
  have "own_run (Over p log Finished)"
    using reachable_own_runs [OF assms(1)] assms(2,3) by (auto simp: list_all_length)
  then obtain rounds where "proxy_connection rounds = (p, log, Some Finished)" by auto
  then show ?thesis by (rule proxy_run_pipes [of _ _ _ _ d]) simp
qed

text \<open>C9. TLS changes nothing: when requests within the parser's limits were sent on one
  of many public connections, the plaintext server read what the terminator wrote to it,
  and the connection ended in order, its client has the answers to its requests, each
  routed once and in order, whatever the other connections carried meanwhile.\<close>

theorem tls_requests_answered:
  assumes "reachable_terminator s" "i < length (tls_conns s)" "tls_conns s ! i = Over p log Finished"
    "list_all (sendable con) qs" "bytes_got ToBackend log = concat (map render_request qs)"
    "all_bytes bufs" "buffered bufs = bytes_put ToBackend log"
    "bytes_got ToClient log = concat (fst (handle_stream con 0 bufs st))"
  shows "bytes_put ToClient log = concat (fst (answer_requests con 0 qs st))"
proof -
  have "buffered bufs = concat (map render_request qs)"
    using carried_whole [OF assms(1-3), of ToBackend] assms(5,7) by simp
  from handle_sent_requests [OF assms(4,6) this] show ?thesis
    using carried_whole [OF assms(1-3), of ToClient] assms(8) by simp
qed

text \<open>A connection of one request and its answer.\<close>

definition exchange_round :: "string \<Rightarrow> string \<Rightarrow> char Round" where
  "exchange_round request answer =
     \<lparr>client_read = Inr request, backend_write = Inr (length request), backend_read = Inr answer,
      client_write = Inr (length answer), client_flush = [Inr ()], notify_flush = [Inr ()]\<rparr>"

lemma exchange_ends:
  assumes "request \<noteq> []"
  shows "\<exists>p log. proxy_connection [exchange_round request answer, exchange_round [] []] = (p, log, Some Finished) \<and>
    snd (snd (proxy_connection [exchange_round request answer])) = None \<and>
    bytes_got ToBackend log = request \<and> bytes_got ToClient log = answer"
  using assms
  by (cases "answer = []")
    (simp_all add: run_defs exchange_round_def bytes_got_def)

text \<open>Every run of the proxy is that of a connection the terminator can come to.\<close>

lemma connection_accepted:
  assumes "reachable_terminator s" "tls_acceptor s = TlsChecking" "\<not> tls_shutdown s"
  shows "reachable_terminator (s\<lparr>tls_conns := tls_conns s @ [Pumping idle_proxy []]\<rparr>)"
proof -
  let ?a = "s\<lparr>tls_acceptor := TlsAccepting\<rparr>" let ?b = "s\<lparr>tls_conns := tls_conns s @ [Connecting]\<rparr>"
  have "terminator_step s ?a" using assms by (intro acceptor_moves tls_goes_on)
  moreover have "terminator_step ?a ?b"
    using acceptor_moves [OF tls_accepts [of ?a]] assms(2) by (cases s) simp
  moreover have "terminator_step ?b (?b\<lparr>tls_conns := (tls_conns ?b)[length (tls_conns s) := Pumping idle_proxy []]\<rparr>)"
    by (rule conn_moves) (simp_all add: backend_connects)
  ultimately show ?thesis using assms(1) reachable_step by (auto simp: list_update_append)
qed

lemma pass_reached:
  assumes "reachable_terminator (s\<lparr>tls_conns := cs @ [Pumping p log]\<rparr>)"
  shows "reachable_terminator (s\<lparr>tls_conns := cs @ [pass_conn r p log]\<rparr>)"
  using reachable_step [OF assms conn_moves [of "length cs" _ "pass_conn r p log"]]
  by (simp add: list_update_append passes)

lemma run_reached:
  assumes "reachable_terminator s" "tls_acceptor s = TlsChecking" "\<not> tls_shutdown s"
    "proxy_connection rounds = (p, log, None)"
  shows "reachable_terminator (s\<lparr>tls_conns := tls_conns s @ [Pumping p log]\<rparr>)"
  using assms(4)
proof (induction rounds arbitrary: p log rule: rev_induct)
  case Nil
  with connection_accepted [OF assms(1-3)] show ?case by (simp add: proxy_connection_def)
next
  case (snoc r rs)
  obtain q lg st where run: "proxy_connection rs = (q, lg, st)" by (cases "proxy_connection rs") auto
  obtain q' evs st' where pass: "proxy_pass r q = (q', evs, st')" by (cases "proxy_pass r q") auto
  from snoc.prems run pass have "st = None" "p = q'" "log = lg @ evs" "st' = None"
    by (auto simp: proxy_connection_def proxy_loop_snoc then_do_def split: option.splits)
  with pass_reached [OF snoc.IH [of q lg], of r] run pass show ?case by (simp add: pass_conn_def)
qed

lemma ending_reached:
  assumes "reachable_terminator s" "tls_acceptor s = TlsChecking" "\<not> tls_shutdown s"
    "proxy_connection (rounds @ [r]) = (p, log, Some e)" "snd (snd (proxy_connection rounds)) = None"
  shows "reachable_terminator (s\<lparr>tls_conns := tls_conns s @ [Over p log e]\<rparr>)"
proof -
  obtain q lg where run: "proxy_connection rounds = (q, lg, None)"
    using assms(5) by (cases "proxy_connection rounds") auto
  obtain q' evs st where "proxy_pass r q = (q', evs, st)" by (cases "proxy_pass r q") auto
  with assms(4) run have "pass_conn r q lg = Over p log e"
    by (auto simp: proxy_connection_def proxy_loop_snoc then_do_def pass_conn_def)
  with pass_reached [OF run_reached [OF assms(1-3) run], of r] show ?thesis by simp
qed

theorem tls_requests_answered_witness:
  "\<exists>s p log. reachable_terminator s \<and> tls_conns s ! 0 = Over p log Finished \<and>
     bytes_put ToClient log = concat (fst (answer_requests sample_connection 0 sample_requests []))"
proof -
  let ?request = "concat (map render_request sample_requests)"
  let ?answer = "concat (fst (handle_stream sample_connection 0 [Bytes ?request] []))"
  have request: "?request \<noteq> []" by (simp add: sample_requests_def render_request_def)
  from exchange_ends [OF this, of ?answer] obtain p log where
    run: "proxy_connection ([exchange_round ?request ?answer] @ [exchange_round [] []]) = (p, log, Some Finished)"
    and first: "snd (snd (proxy_connection [exchange_round ?request ?answer])) = None"
    and got: "bytes_got ToBackend log = ?request" "bytes_got ToClient log = ?answer" by auto
  let ?s = "terminator_started\<lparr>tls_conns := [Over p log Finished]\<rparr>"
  have reach: "reachable_terminator ?s"
    using ending_reached [OF reachable_started _ _ run first] by (simp add: terminator_started_def)
  have "bytes_put ToBackend log = ?request"
    using carried_whole [OF reach, of 0] got by simp
  then have "bytes_put ToClient log = concat (fst (answer_requests sample_connection 0 sample_requests []))"
    using tls_requests_answered [OF reach _ _ sample_requests_sendable got(1), of 0 p "[Bytes ?request]" "[]"] got(2)
    by (simp add: all_bytes_def)
  with reach show ?thesis by (intro exI [of _ ?s] exI [of _ p] exI [of _ log]) simp
qed

section \<open>Clients that say nothing\<close>

text \<open>A round in which the client has nothing to say and takes what it is sent, whatever the
  backend does short of a failure: answer, close or go away.\<close>

definition silent :: "'b Round \<Rightarrow> bool" where
  "silent r =
     (client_read r = Inl WouldBlock \<and> harmless (backend_write r) \<and> harmless (backend_read r) \<and>
      (case client_write r of Inr n \<Rightarrow> True | Inl e \<Rightarrow> transient e) \<and>
      flush_spin (client_flush r) = Some (Inr ()) \<and> flush_spin (notify_flush r) \<noteq> None)"

definition keeps_open :: "'b proxy_step \<Rightarrow> bool" where
  "keeps_open f \<longleftrightarrow> (\<forall>p. \<not> client_eof p \<longrightarrow> (case f p of (p', evs, st) \<Rightarrow> \<not> client_eof p' \<and> st = None))"

lemma keeps_open_then: "keeps_open f \<Longrightarrow> keeps_open g \<Longrightarrow> keeps_open (then_do f g)"
  unfolding keeps_open_def then_do_def by (fastforce split: prod.splits option.splits)

lemma plain_steps_open: "keeps_open shutdown_backend" "keeps_open check_finished"
  by (auto simp: keeps_open_def shutdown_backend_def check_finished_def)

lemma silent_steps_open:
  assumes "silent r"
  shows "keeps_open (read_client r)" "keeps_open (write_backend r)" "keeps_open (read_backend r)"
    "keeps_open (write_client r)" "keeps_open (notify_client r)"
  using assms
  by (auto simp: keeps_open_def silent_def harmless_def read_client_def write_backend_def read_backend_def
      write_client_def notify_client_def read_into_def write_some_def flushed_def transient_def
      split: sum.splits if_splits)

lemma silent_loop_open: "list_all silent rounds \<Longrightarrow> keeps_open (proxy_loop rounds)"
proof (induction rounds)
  case Nil
  then show ?case by (simp add: keeps_open_def)
next
  case (Cons r rs)
  have "proxy_loop (r # rs) = then_do (proxy_pass r) (proxy_loop rs)" by (rule ext) simp
  with Cons show ?case
    unfolding proxy_pass_def by (simp only:) (intro keeps_open_then plain_steps_open silent_steps_open; simp)
qed

text \<open>
  The thread of a client that stays silent never ends, not even when the server has closed
  its side, as it does once a socket's read timeout is over: the loop waits for the client.
\<close>

lemma silent_client_never_ends:
  assumes "list_all silent rounds"
  shows "snd (snd (proxy_connection rounds)) = None"
  using silent_loop_open [OF assms, unfolded keeps_open_def, THEN spec, of idle_proxy]
  by (auto simp: proxy_connection_def idle_proxy_def split: prod.splits)

text \<open>
  Nothing bounds those connections: the limit of the server behind does not hold for the
  terminator. \<open>crowd\<close> is the terminator with one for each of the given clients.
\<close>

definition crowd :: "'b Round list list \<Rightarrow> 'b terminator" where
  "crowd clients =
     terminator_started\<lparr>tls_conns := map (\<lambda>rounds. case proxy_connection rounds of (p, log, _) \<Rightarrow> Pumping p log) clients\<rparr>"

lemma crowd_reachable:
  "list_all (list_all silent) clients \<Longrightarrow> reachable_terminator (crowd clients)"
proof (induction clients rule: rev_induct)
  case Nil
  then show ?case by (simp add: crowd_def terminator_started_def reachable_terminator_def)
next
  case (snoc rounds clients)
  obtain p log where "proxy_connection rounds = (p, log, None)"
    using silent_client_never_ends [of rounds] snoc.prems by (cases "proxy_connection rounds") auto
  with run_reached [of "crowd clients" rounds p log] snoc show ?case
    by (simp add: crowd_def terminator_started_def)
qed

text \<open>An error of the listener, such as having no file left to open, ends accepting for good.\<close>

lemma failed_step:
  "terminator_step s s' \<Longrightarrow> tls_acceptor s = TlsFailed e \<Longrightarrow>
   tls_acceptor s' = TlsFailed e \<and> length (tls_conns s') = length (tls_conns s)"
  by (auto elim!: terminator_stepE tls_accept_stepE)

lemma failed_for_good:
  assumes "tls_acceptor s = TlsFailed e" "terminator_step\<^sup>*\<^sup>* s s'"
  shows "tls_acceptor s' = TlsFailed e \<and> length (tls_conns s') = length (tls_conns s)"
  using assms(2)
  by (induction rule: rtranclp_induct) (use assms(1) failed_step in fastforce)+

text \<open>
  So silent clients alone can bring the terminator to where it never accepts again: any
  number of them is let in, none of their connections ends by itself, and the first error
  of the listener is the last thing it does.
\<close>

lemma silent_clients_close_the_door:
  assumes "list_all (list_all silent) clients" "\<not> transient e"
  shows "\<exists>s. reachable_terminator s \<and> tls_conns s = tls_conns (crowd clients) \<and>
    length (tls_conns s) = length clients \<and>
    (\<nexists>s'. terminator_step\<^sup>*\<^sup>* s s' \<and> length (tls_conns s') \<noteq> length clients)"
proof -
  let ?c = "crowd clients" let ?a = "?c\<lparr>tls_acceptor := TlsAccepting\<rparr>"
  let ?s = "?c\<lparr>tls_acceptor := TlsFailed e\<rparr>"
  have "terminator_step ?c ?a"
    by (intro acceptor_moves tls_goes_on) (simp_all add: crowd_def terminator_started_def)
  moreover have "terminator_step ?a ?s"
    using acceptor_moves [OF tls_fails [of ?a e]] assms(2) by simp
  ultimately have "reachable_terminator ?s"
    using crowd_reachable [OF assms(1)] reachable_step by blast
  moreover have "length (tls_conns ?s) = length clients" by (simp add: crowd_def)
  ultimately show ?thesis using failed_for_good [of ?s e] by (intro exI [of _ ?s]) auto
qed

section \<open>Shutdown\<close>

fun tls_steps_left :: "'b terminator \<Rightarrow> nat" where
  "tls_steps_left s = (case tls_acceptor s of TlsAccepting \<Rightarrow> 2 | TlsChecking \<Rightarrow> 1 | _ \<Rightarrow> 0)"

text \<open>
  Told to shut down, the accepting thread takes at most two more steps, can take one until
  it is at its end, and leaves the connections that there are as they are.
\<close>

lemma terminator_stops:
  assumes "tls_accept_step s s'" "tls_shutdown s"
  shows "tls_steps_left s' < tls_steps_left s \<and> tls_shutdown s' \<and>
    tls_conns s' = tls_conns s @ (if length (tls_conns s') = length (tls_conns s) then [] else [Connecting])"
  using assms by (auto elim!: tls_accept_stepE)

lemma terminator_can_stop:
  assumes "tls_shutdown s" "tls_acceptor s = TlsChecking \<or> tls_acceptor s = TlsAccepting"
  shows "\<exists>s'. tls_accept_step s s'"
  using assms tls_stops tls_accepts by blast

end
