(* ===== verification/DuckLake.thy ===== *)
theory DuckLake
  imports Config Query_Engine
begin

text \<open>
  How the DuckLake catalog is attached (\<^verbatim>\<open>src/src/storage/ducklake.rs\<close>): the plan of
  statements and extensions a configuration asks for, and the statements run on a
  connection. The connection is the function that answers a statement after the statements
  run so far; paths are UTF-8, with \<open>/\<close> as separator.
\<close>

section \<open>Paths\<close>

text \<open>\<open>Path::parent\<close>: components from the back; empty ones and \<^verbatim>\<open>.\<close> are skipped.\<close>

definition before_body :: "string \<Rightarrow> nat" where
  "before_body p =
     (if starts_with p ''/'' \<or> p = ''.'' \<or> starts_with p ''./'' then 1 else 0)"

definition last_part :: "string \<Rightarrow> string" where
  "last_part s = rev (takeWhile (\<lambda>c. c \<noteq> CHR ''/'') (rev s))"

text \<open>The body without its last component and that component's separator.\<close>

definition without_last :: "string \<Rightarrow> string" where
  "without_last s = take (length s - Suc (length (last_part s))) s"

function skip_back :: "string \<Rightarrow> string" where
  "skip_back body =
     (if body \<noteq> [] \<and> (last_part body = [] \<or> last_part body = ''.'') then skip_back (without_last body)
      else body)"
  by pat_completeness auto
termination
  by (relation "measure length") (auto simp: without_last_def)

declare skip_back.simps [simp del]

definition path_parent :: "string \<Rightarrow> string option" where
  "path_parent p =
     (let n = before_body p; body = skip_back (drop n p) in
      if body \<noteq> [] then Some (take n p @ skip_back (without_last body))
      else if n = 1 \<and> take 1 p = ''.'' then Some []
      else None)"

section \<open>Object stores\<close>

definition DUCKLAKE_CATALOG_NAME :: string where
  "DUCKLAKE_CATALOG_NAME = ''canardlake''"

definition DUCKLAKE_TARGET_PREFIX :: string where
  "DUCKLAKE_TARGET_PREFIX = ''canardlake.''"

definition sql_string :: "string \<Rightarrow> string" where
  "sql_string v = str_replace [SQ] [SQ, SQ] v"

definition sql_path :: "string \<Rightarrow> string" where
  "sql_path p = str_replace [SQ] [SQ, SQ] p"

datatype ObjectStore = S3 | Gcs

definition object_store_kind :: "string \<Rightarrow> ObjectStore option" where
  "object_store_kind data_path =
     (let lower = to_ascii_lowercase (trim_start data_path) in
      if starts_with lower ''s3://'' \<or> starts_with lower ''s3a://'' then Some S3
      else if starts_with lower ''gcs://'' \<or> starts_with lower ''gs://'' then Some Gcs
      else None)"

fun object_store_secret_sql :: "ObjectStore \<Rightarrow> string option \<Rightarrow> string" where
  "object_store_secret_sql S3 region =
     ''CREATE OR REPLACE SECRET canardstack_object_store (TYPE s3, PROVIDER credential_chain'' @
     (case Option.bind region trimmed_non_empty of
        Some r \<Rightarrow> '', REGION '' @ [SQ] @ sql_string r @ [SQ]
      | None \<Rightarrow> []) @ '');''"
| "object_store_secret_sql Gcs region =
     ''CREATE OR REPLACE SECRET canardstack_object_store (TYPE gcs, PROVIDER credential_chain);''"

text \<open>The first variable that is set decides, even when it is blank.\<close>

definition object_store_region :: "environment \<Rightarrow> string option" where
  "object_store_region env =
     Option.bind
       (find_map (\<lambda>name. case env name of Present v \<Rightarrow> Some v | _ \<Rightarrow> None)
         [''CANARDSTACK_OBJECT_STORE_REGION'', ''AWS_REGION'', ''AWS_DEFAULT_REGION''])
       trimmed_non_empty"

section \<open>The attach plan\<close>

record DuckLakeAttachPlan =
  plan_sql :: string
  plan_mode :: string
  needs_ducklake :: bool
  needs_motherduck :: bool
  needs_quack :: bool
  needs_postgres :: bool
  object_store :: "ObjectStore option"

definition attach_statement :: "string \<Rightarrow> string \<Rightarrow> string" where
  "attach_statement target options =
     ''ATTACH '' @ [SQ] @ target @ [SQ] @ '' AS '' @ DUCKLAKE_CATALOG_NAME @ options @
     ''; USE '' @ DUCKLAKE_CATALOG_NAME @ '';''"

definition data_path_option :: "string \<Rightarrow> string" where
  "data_path_option path = ''DATA_PATH '' @ [SQ] @ sql_string path @ [SQ]"

definition quack_secret_sql :: "string \<Rightarrow> string \<Rightarrow> bool \<Rightarrow> string" where
  "quack_secret_sql scope_uri token insecure =
     (if insecure then
        ''CREATE OR REPLACE SECRET canardstack_quack_tls (TYPE HTTP, SCOPE '' @ [SQ] @ ''https://'' @
        sql_string (case strip_prefix ''quack:'' scope_uri of Some h \<Rightarrow> h | None \<Rightarrow> scope_uri) @ [SQ] @
        '', VERIFY_SSL 0); ''
      else []) @
     ''CREATE OR REPLACE SECRET canardstack_ducklake_quack (TYPE quack, SCOPE '' @ [SQ] @ sql_string scope_uri @ [SQ] @
     '', TOKEN '' @ [SQ] @ sql_string token @ [SQ] @ ''); ''"

definition uri_attach_plan ::
  "string \<Rightarrow> string option \<Rightarrow> string option \<Rightarrow> bool \<Rightarrow> string + DuckLakeAttachPlan" where
  "uri_attach_plan raw_uri data_path quack_token quack_insecure_tls =
     (let uri = trim raw_uri in
      if uri = [] then Inl ''CANARDSTACK_DUCKLAKE_ATTACH_URI must not be empty''
      else if starts_with (to_ascii_uppercase uri) ''ATTACH '' then
        Inl ''CANARDSTACK_DUCKLAKE_ATTACH_URI must be the URI only, not an ATTACH statement''
      else
        let is_motherduck = starts_with uri ''md:'';
            is_ducklake = starts_with uri ''ducklake:'';
            is_quack = starts_with uri ''ducklake:quack:'' in
        if \<not> is_motherduck \<and> \<not> is_ducklake then
          Inl ''CANARDSTACK_DUCKLAKE_ATTACH_URI must be an md: or ducklake: URI''
        else
          and_then
            (if is_quack then
               map_ok (\<lambda>token. quack_secret_sql
                   (case strip_prefix ''ducklake:'' uri of Some s \<Rightarrow> s | None \<Rightarrow> uri) token quack_insecure_tls)
                 (ok_or (Option.bind quack_token trimmed_non_empty)
                   ''CANARDSTACK_DUCKLAKE_QUACK_TOKEN must be set when CANARDSTACK_DUCKLAKE_ATTACH_URI uses ducklake:quack:'')
             else Inr [])
            (\<lambda>secret.
             if is_motherduck \<and> data_path \<noteq> None then
               Inl ''CANARDSTACK_DUCKLAKE_DATA_PATH cannot be set with a MotherDuck md: attach URI''
             else
               let options = (case data_path of
                     Some path \<Rightarrow> '' ('' @ data_path_option path @ '')'' | None \<Rightarrow> []) in
               Inr \<lparr>plan_sql = secret @ attach_statement (str_replace [SQ] [SQ, SQ] uri) options,
                    plan_mode = (if is_motherduck then ''ducklake_motherduck_remote'' else ''ducklake_custom_uri''),
                    needs_ducklake = is_ducklake, needs_motherduck = is_motherduck, needs_quack = is_quack,
                    needs_postgres = False, object_store = Option.bind data_path object_store_kind\<rparr>))"

definition build_ducklake_attach_plan ::
  "string option \<Rightarrow> string option \<Rightarrow> string option \<Rightarrow> string option \<Rightarrow> string option \<Rightarrow> bool \<Rightarrow>
   string \<Rightarrow> string \<Rightarrow> string + DuckLakeAttachPlan" where
  "build_ducklake_attach_plan postgres attach_uri catalog_path raw_data_path quack_token quack_insecure_tls
     db_path storage_dir =
     (if postgres \<noteq> None \<and> attach_uri \<noteq> None then
        Inl ''set only one of CANARDSTACK_POSTGRES_DSN or CANARDSTACK_DUCKLAKE_ATTACH_URI''
      else if catalog_path \<noteq> None \<and> (postgres \<noteq> None \<or> attach_uri \<noteq> None) then
        Inl ''CANARDSTACK_DUCKLAKE_CATALOG_PATH can only be set with the local DuckDB-backed DuckLake catalog''
      else
        let data_path = Option.bind raw_data_path trimmed_non_empty in
        case attach_uri of
          Some uri \<Rightarrow> uri_attach_plan uri data_path quack_token quack_insecure_tls
        | None \<Rightarrow>
            let resolved = (case data_path of Some p \<Rightarrow> p | None \<Rightarrow> storage_dir);
                options = '' ('' @ data_path_option resolved @ '')'' in
            (case postgres of
               Some dsn \<Rightarrow>
                 Inr \<lparr>plan_sql = attach_statement (''ducklake:postgres:'' @ str_replace [SQ] [SQ, SQ] dsn) options,
                      plan_mode = ''ducklake_postgres_catalog'', needs_ducklake = True, needs_motherduck = False,
                      needs_quack = False, needs_postgres = True, object_store = object_store_kind resolved\<rparr>
             | None \<Rightarrow>
                 let metadata = (case catalog_path of Some p \<Rightarrow> p
                       | None \<Rightarrow> path_join (case path_parent db_path of Some d \<Rightarrow> d | None \<Rightarrow> ''.'')
                                  ''canardstack.ducklake'') in
                 Inr \<lparr>plan_sql = attach_statement (''ducklake:'' @ sql_path metadata) options,
                      plan_mode = ''ducklake_duckdb_catalog'', needs_ducklake = True, needs_motherduck = False,
                      needs_quack = False, needs_postgres = False, object_store = object_store_kind resolved\<rparr>))"

definition ducklake_attach_plan :: "Config \<Rightarrow> string + DuckLakeAttachPlan" where
  "ducklake_attach_plan config =
     (let c = operator config in
      build_ducklake_attach_plan (postgres_dsn c) (ducklake_attach_uri c) (ducklake_catalog_path c)
        (ducklake_data_path c) (ducklake_quack_token c) (ducklake_quack_insecure_tls c)
        (duckdb_path c) (local_storage_dir c))"

section \<open>Attaching\<close>

text \<open>
  A connection that answers each statement after those run before, which it records; a
  failing \<^verbatim>\<open>LOAD\<close> is followed by an \<^verbatim>\<open>INSTALL\<close> and another.
\<close>

type_synonym db_answers = "string list \<Rightarrow> string \<Rightarrow> string option"

definition execute :: "db_answers \<Rightarrow> string \<Rightarrow> string list \<Rightarrow> (string + unit) \<times> string list" where
  "execute db stmt hist =
     (case db hist stmt of None \<Rightarrow> (Inr (), hist @ [stmt]) | Some e \<Rightarrow> (Inl e, hist @ [stmt]))"

definition run_then ::
  "(string list \<Rightarrow> (string + unit) \<times> string list) \<Rightarrow> (string list \<Rightarrow> (string + unit) \<times> string list) \<Rightarrow>
   string list \<Rightarrow> (string + unit) \<times> string list" where
  "run_then f g hist = (case f hist of (Inl e, hist') \<Rightarrow> (Inl e, hist') | (Inr _, hist') \<Rightarrow> g hist')"

definition load_statement :: "string \<Rightarrow> string" where
  "load_statement ext = ''LOAD '' @ ext @ '';''"

definition install_statement :: "string \<Rightarrow> string" where
  "install_statement ext = ''INSTALL '' @ ext @ ''; LOAD '' @ ext @ '';''"

definition load_or_install :: "db_answers \<Rightarrow> string \<Rightarrow> string list \<Rightarrow> (string + unit) \<times> string list" where
  "load_or_install db ext hist =
     (case execute db (load_statement ext) hist of
        (Inr _, hist') \<Rightarrow> (Inr (), hist')
      | (Inl _, hist') \<Rightarrow> execute db (install_statement ext) hist')"

definition run_if :: "bool \<Rightarrow> (string list \<Rightarrow> (string + unit) \<times> string list) \<Rightarrow>
   string list \<Rightarrow> (string + unit) \<times> string list" where
  "run_if c f hist = (if c then f hist else (Inr (), hist))"

definition configure_object_store_credentials ::
  "db_answers \<Rightarrow> environment \<Rightarrow> ObjectStore \<Rightarrow> string list \<Rightarrow> (string + unit) \<times> string list" where
  "configure_object_store_credentials db env kind =
     run_then (load_or_install db ''httpfs'')
       (run_then (run_if (kind = S3) (load_or_install db ''aws''))
         (execute db (object_store_secret_sql kind (object_store_region env))))"

text \<open>Creating the extension directory is the file system's; \<open>make_dir\<close> is its error, if any.\<close>

definition configure_extension_directory ::
  "db_answers \<Rightarrow> (string \<Rightarrow> string option) \<Rightarrow> string option \<Rightarrow> string list \<Rightarrow> (string + unit) \<times> string list" where
  "configure_extension_directory db make_dir dir hist =
     (case dir of
        None \<Rightarrow> (Inr (), hist)
      | Some path \<Rightarrow>
          (case make_dir path of
             Some e \<Rightarrow> (Inl e, hist)
           | None \<Rightarrow> execute db (''SET extension_directory = '' @ [SQ] @ sql_path path @ [SQ] @ '';'') hist))"

definition attach_ducklake_connection ::
  "db_answers \<Rightarrow> (string \<Rightarrow> string option) \<Rightarrow> environment \<Rightarrow> Config \<Rightarrow> string list \<Rightarrow> (string + unit) \<times> string list" where
  "attach_ducklake_connection db make_dir env config =
     run_then (configure_extension_directory db make_dir (duckdb_extension_dir (operator config)))
       (\<lambda>hist. case ducklake_attach_plan config of
          Inl e \<Rightarrow> (Inl e, hist)
        | Inr plan \<Rightarrow>
            run_then (run_if (needs_motherduck plan) (load_or_install db ''md''))
              (run_then (run_if (needs_ducklake plan) (load_or_install db ''ducklake''))
                (run_then (run_if (needs_quack plan) (load_or_install db ''quack''))
                  (run_then (run_if (needs_postgres plan) (execute db (install_statement ''postgres'')))
                    (run_then (case object_store plan of
                         Some kind \<Rightarrow> configure_object_store_credentials db env kind
                       | None \<Rightarrow> (\<lambda>hist. (Inr (), hist)))
                      (execute db (plan_sql plan)))))) hist)"

definition configure_base_connection :: "db_answers \<Rightarrow> string list \<Rightarrow> (string + unit) \<times> string list" where
  "configure_base_connection db =
     execute db (''SET preserve_insertion_order=false;'' @ [LF] @ ''PRAGMA threads=1;'')"

definition configure_write_connection :: "db_answers \<Rightarrow> string \<Rightarrow> string list \<Rightarrow> (string + unit) \<times> string list" where
  "configure_write_connection db limit_text =
     execute db (''SET memory_limit = '' @ [SQ] @ escape_value limit_text @ [SQ] @ '';'')"

definition quote_ident :: "string \<Rightarrow> string" where
  "quote_ident v = [DQ] @ str_replace [DQ] [DQ, DQ] v @ [DQ]"

definition ducklake_metadata_prefix :: "string \<Rightarrow> string" where
  "ducklake_metadata_prefix catalog_name = quote_ident (''__ducklake_metadata_'' @ catalog_name) @ ''.''"

section \<open>Quoting in the plan\<close>

lemma escape_value_append: "escape_value (a @ b) = escape_value a @ escape_value b"
  by (induction a) auto

lemma escape_value_free: "SQ \<notin> set p \<Longrightarrow> escape_value p = p"
  by (induction p) auto

text \<open>Replacing a character is what \<open>escape_value\<close> does character by character.\<close>

lemma str_replace_char: "str_replace [c] r s = concat (map (\<lambda>x. if x = c then r else [x]) s)"
proof (induction "length s" arbitrary: s rule: less_induct)
  case less
  show ?case
  proof (cases "split_once [c] s")
    case None
    then have "c \<notin> set s" by (simp add: split_once_char_None_iff)
    then have "concat (map (\<lambda>x. if x = c then r else [x]) s) = s" by (induction s) auto
    with None show ?thesis by (simp add: str_replace_def split_str.simps [of _ s] join_Cons)
  next
    case (Some ab)
    obtain a b where ab: "ab = (a, b)" by fastforce
    with Some have s: "s = a @ c # b" "c \<notin> set a" by (auto dest: split_once_char_SomeD)
    have a: "concat (map (\<lambda>x. if x = c then r else [x]) a) = a" using s(2) by (induction a) auto
    have "join r (split_str [c] b) = concat (map (\<lambda>x. if x = c then r else [x]) b)"
      using less [of b] s(1) by (simp add: str_replace_def)
    with Some ab a s(1) show ?thesis
      by (simp add: str_replace_def split_str.simps [of "[c]" "a @ c # b"] join_Cons)
  qed
qed

lemma sql_string_eq: "str_replace [SQ] [SQ, SQ] v = escape_value v"
  by (simp add: str_replace_char escape_value_def)

lemma literal_eq: "SQ \<notin> set p \<Longrightarrow> [SQ] @ p @ escape_value v @ [SQ] = quote (p @ v)"
  by (simp add: quote_def escape_value_append escape_value_free)

lemma same_code_literal:
  "SQ \<notin> set p \<Longrightarrow> same_code ([SQ] @ p @ escape_value v @ [SQ]) ([SQ] @ p @ escape_value w @ [SQ])"
  unfolding literal_eq by (rule same_code_quote)

lemma attach_statement_same_code:
  assumes "SQ \<notin> set p" "same_code o1 o2"
  shows "same_code (attach_statement (p @ escape_value v) o1) (attach_statement (p @ escape_value w) o2)"
proof -
  have "same_code (''ATTACH '' @ ([SQ] @ p @ escape_value v @ [SQ]) @ ('' AS '' @ DUCKLAKE_CATALOG_NAME) @ o1 @
      (''; USE '' @ DUCKLAKE_CATALOG_NAME @ '';''))
    (''ATTACH '' @ ([SQ] @ p @ escape_value w @ [SQ]) @ ('' AS '' @ DUCKLAKE_CATALOG_NAME) @ o2 @
      (''; USE '' @ DUCKLAKE_CATALOG_NAME @ '';''))"
    by (intro same_code_append same_code_literal same_code_refl closed_sql_free assms)
      (simp_all add: DUCKLAKE_CATALOG_NAME_def)
  then show ?thesis by (simp add: attach_statement_def)
qed

lemma data_path_option_same_code:
  "same_code ('' ('' @ data_path_option v @ '')'') ('' ('' @ data_path_option w @ '')'')"
proof -
  have "same_code ('' (DATA_PATH '' @ ([SQ] @ [] @ escape_value v @ [SQ]) @ '')'')
      ('' (DATA_PATH '' @ ([SQ] @ [] @ escape_value w @ [SQ]) @ '')'')"
    by (intro same_code_append same_code_literal same_code_refl closed_sql_free) simp_all
  then show ?thesis by (simp add: data_path_option_def sql_string_def sql_string_eq)
qed

lemma quack_secret_same_code:
  "same_code (quack_secret_sql s1 t1 insecure) (quack_secret_sql s2 t2 insecure)"
proof -
  have q: "same_code ([SQ] @ escape_value v @ [SQ]) ([SQ] @ escape_value w @ [SQ])" for v w
    using same_code_literal [of "[]" v w] by simp
  have h: "same_code ([SQ] @ ''https://'' @ escape_value v @ [SQ]) ([SQ] @ ''https://'' @ escape_value w @ [SQ])" for v w
    by (rule same_code_literal) simp
  have tls: "same_code
      (''CREATE OR REPLACE SECRET canardstack_quack_tls (TYPE HTTP, SCOPE '' @
        ([SQ] @ ''https://'' @ escape_value v @ [SQ]) @ '', VERIFY_SSL 0); '')
      (''CREATE OR REPLACE SECRET canardstack_quack_tls (TYPE HTTP, SCOPE '' @
        ([SQ] @ ''https://'' @ escape_value w @ [SQ]) @ '', VERIFY_SSL 0); '')" for v w
    by (intro same_code_append h same_code_refl closed_sql_free) simp_all
  have secret: "same_code
      (''CREATE OR REPLACE SECRET canardstack_ducklake_quack (TYPE quack, SCOPE '' @ ([SQ] @ escape_value s1 @ [SQ]) @
        '', TOKEN '' @ ([SQ] @ escape_value t1 @ [SQ]) @ ''); '')
      (''CREATE OR REPLACE SECRET canardstack_ducklake_quack (TYPE quack, SCOPE '' @ ([SQ] @ escape_value s2 @ [SQ]) @
        '', TOKEN '' @ ([SQ] @ escape_value t2 @ [SQ]) @ ''); '')"
    by (intro same_code_append q same_code_refl closed_sql_free) simp_all
  show ?thesis
    using same_code_append [OF tls secret] secret
    by (cases insecure) (simp_all add: quack_secret_sql_def sql_string_def sql_string_eq)
qed

text \<open>What of a configuration may show in the code of its attach statements.\<close>

definition data_path_given :: "string option \<Rightarrow> bool" where
  "data_path_given raw = (Option.bind raw trimmed_non_empty \<noteq> None)"

lemma uri_attach_plan_same_code:
  assumes "uri_attach_plan u1 d1 t1 insecure = Inr p1" "uri_attach_plan u2 d2 t2 insecure = Inr p2"
    and "needs_quack p1 = needs_quack p2" "(d1 \<noteq> None) = (d2 \<noteq> None)"
  shows "same_code (plan_sql p1) (plan_sql p2)"
proof -
  have split: "\<exists>secret opts. plan_sql p = secret @ attach_statement (escape_value (trim u)) opts \<and>
      opts = (case d of Some path \<Rightarrow> '' ('' @ data_path_option path @ '')'' | None \<Rightarrow> []) \<and>
      (if needs_quack p then \<exists>s tok. secret = quack_secret_sql s tok insecure else secret = [])"
    if "uri_attach_plan u d t insecure = Inr p" for u d t p
    using that by (auto simp: uri_attach_plan_def Let_def result_simps sql_string_eq split: if_splits) blast+
  obtain s1 o1 where 1: "plan_sql p1 = s1 @ attach_statement (escape_value (trim u1)) o1"
      "o1 = (case d1 of Some path \<Rightarrow> '' ('' @ data_path_option path @ '')'' | None \<Rightarrow> [])"
      "if needs_quack p1 then \<exists>s tok. s1 = quack_secret_sql s tok insecure else s1 = []"
    using split [OF assms(1)] by blast
  obtain s2 o2 where 2: "plan_sql p2 = s2 @ attach_statement (escape_value (trim u2)) o2"
      "o2 = (case d2 of Some path \<Rightarrow> '' ('' @ data_path_option path @ '')'' | None \<Rightarrow> [])"
      "if needs_quack p2 then \<exists>s tok. s2 = quack_secret_sql s tok insecure else s2 = []"
    using split [OF assms(2)] by blast
  have nil: "same_code [] []" by (simp add: same_code_def)
  have "same_code s1 s2"
    using 1(3) 2(3) assms(3) nil by (auto simp: quack_secret_same_code split: if_splits)
  moreover have "same_code o1 o2"
    using 1(2) 2(2) assms(4) nil by (cases d1; cases d2) (simp_all only: option.case data_path_option_same_code, simp_all)
  ultimately show ?thesis
    unfolding 1(1) 2(1)
    using attach_statement_same_code [of "[]" o1 o2 "trim u1" "trim u2"]
    by (auto intro: same_code_append)
qed

definition catalog_plan :: "string \<Rightarrow> DuckLakeAttachPlan \<Rightarrow> bool" where
  "catalog_plan target p \<longleftrightarrow> (\<exists>v path.
     plan_sql p = attach_statement (target @ escape_value v) ('' ('' @ data_path_option path @ '')''))"

lemma catalog_plan_same_code:
  assumes "catalog_plan target p" "catalog_plan target q" "SQ \<notin> set target"
  shows "same_code (plan_sql p) (plan_sql q)"
  using assms attach_statement_same_code [OF assms(3) data_path_option_same_code]
  unfolding catalog_plan_def by (elim exE) (simp only:)

lemma uri_plan_mode:
  "uri_attach_plan u d t i = Inr p \<Longrightarrow>
   plan_mode p = ''ducklake_motherduck_remote'' \<or> plan_mode p = ''ducklake_custom_uri''"
  by (auto simp: uri_attach_plan_def Let_def result_simps split: if_splits)

lemma plan_cases:
  assumes "build_ducklake_attach_plan dsn uri cat data token insecure db dir = Inr p"
  obtains (remote) u where "uri_attach_plan u (Option.bind data trimmed_non_empty) token insecure = Inr p"
    "plan_mode p = ''ducklake_motherduck_remote'' \<or> plan_mode p = ''ducklake_custom_uri''"
  | (pg) "catalog_plan ''ducklake:postgres:'' p" "plan_mode p = ''ducklake_postgres_catalog''"
  | (local) "catalog_plan ''ducklake:'' p" "plan_mode p = ''ducklake_duckdb_catalog''"
proof (cases uri)
  case (Some u)
  then have "uri_attach_plan u (Option.bind data trimmed_non_empty) token insecure = Inr p"
    using assms by (simp add: build_ducklake_attach_plan_def Let_def split: if_splits)
  then show ?thesis using uri_plan_mode that(1) by blast
next
  case None
  let ?path = "case Option.bind data trimmed_non_empty of Some p \<Rightarrow> p | None \<Rightarrow> dir"
  show ?thesis
  proof (cases dsn)
    case (Some v)
    with assms \<open>uri = None\<close> have "plan_sql p = attach_statement (''ducklake:postgres:'' @ escape_value v)
        ('' ('' @ data_path_option ?path @ '')'')" "plan_mode p = ''ducklake_postgres_catalog''"
      by (auto simp: build_ducklake_attach_plan_def Let_def sql_string_eq split: if_splits)
    then show ?thesis using that(2) unfolding catalog_plan_def by blast
  next
    case None
    with assms \<open>uri = None\<close> obtain v where "plan_sql p = attach_statement (''ducklake:'' @ escape_value v)
        ('' ('' @ data_path_option ?path @ '')'')" "plan_mode p = ''ducklake_duckdb_catalog''"
      by (auto simp: build_ducklake_attach_plan_def Let_def sql_path_def sql_string_eq)
    then show ?thesis using that(3) unfolding catalog_plan_def by blast
  qed
qed

text \<open>
  C32. No value of a configuration can change what its attach statements do: two accepted
  configurations with the same kind of catalog, and that agree on having a data path and on
  skipping certificate checks, give the same statements outside string literals, whatever
  their addresses, tokens, passwords and paths.
\<close>

theorem attach_sql_value_independent:
  assumes "build_ducklake_attach_plan dsn1 uri1 cat1 data1 token1 insecure db1 dir1 = Inr p1"
    and "build_ducklake_attach_plan dsn2 uri2 cat2 data2 token2 insecure db2 dir2 = Inr p2"
    and "plan_mode p1 = plan_mode p2" "needs_quack p1 = needs_quack p2"
    and "data_path_given data1 = data_path_given data2"
  shows "same_code (plan_sql p1) (plan_sql p2)"
proof (rule plan_cases [OF assms(1)])
  fix u1
  assume a: "uri_attach_plan u1 (Option.bind data1 trimmed_non_empty) token1 insecure = Inr p1"
    and m: "plan_mode p1 = ''ducklake_motherduck_remote'' \<or> plan_mode p1 = ''ducklake_custom_uri''"
  show ?thesis
  proof (rule plan_cases [OF assms(2)])
    fix u2
    assume "uri_attach_plan u2 (Option.bind data2 trimmed_non_empty) token2 insecure = Inr p2"
    from uri_attach_plan_same_code [OF a this assms(4)] assms(5) show ?thesis
      by (simp add: data_path_given_def)
  qed (use m assms(3) in auto)
next
  assume a: "catalog_plan ''ducklake:postgres:'' p1" "plan_mode p1 = ''ducklake_postgres_catalog''"
  show ?thesis
    by (rule plan_cases [OF assms(2)]) (use a assms(3) catalog_plan_same_code [OF a(1)] in auto)
next
  assume a: "catalog_plan ''ducklake:'' p1" "plan_mode p1 = ''ducklake_duckdb_catalog''"
  show ?thesis
    by (rule plan_cases [OF assms(2)]) (use a assms(3) catalog_plan_same_code [OF a(1)] in auto)
qed

theorem attach_sql_value_independent_witness:
  "\<exists>p1 p2. build_ducklake_attach_plan None (Some ''ducklake:quack:a'') None None (Some ''t'') True [] [] = Inr p1 \<and>
     build_ducklake_attach_plan None (Some ('' ducklake:quack:'' @ [SQ] @ ''; DROP'')) None None (Some [SQ]) True [] [] = Inr p2 \<and>
     same_code (plan_sql p1) (plan_sql p2)"
proof -
  have "case build_ducklake_attach_plan None (Some ''ducklake:quack:a'') None None (Some ''t'') True [] [] of
      Inr p1 \<Rightarrow> plan_mode p1 = ''ducklake_custom_uri'' \<and> needs_quack p1 | _ \<Rightarrow> False"
    by code_simp
  moreover have "case build_ducklake_attach_plan None (Some ('' ducklake:quack:'' @ [SQ] @ ''; DROP'')) None None
      (Some [SQ]) True [] [] of Inr p2 \<Rightarrow> plan_mode p2 = ''ducklake_custom_uri'' \<and> needs_quack p2 | _ \<Rightarrow> False"
    by code_simp
  ultimately obtain p1 p2 where
    p: "build_ducklake_attach_plan None (Some ''ducklake:quack:a'') None None (Some ''t'') True [] [] = Inr p1"
      "build_ducklake_attach_plan None (Some ('' ducklake:quack:'' @ [SQ] @ ''; DROP'')) None None (Some [SQ]) True [] [] = Inr p2"
    and s: "plan_mode p1 = plan_mode p2" "needs_quack p1 = needs_quack p2"
    by (auto split: sum.splits)
  from attach_sql_value_independent [OF p s] p show ?thesis by blast
qed

section \<open>The order of attaching\<close>

definition loaded :: "string \<Rightarrow> string list \<Rightarrow> bool" where
  "loaded ext stmts = (load_statement ext \<in> set stmts \<or> install_statement ext \<in> set stmts)"

text \<open>What a run adds to the statements, when it succeeds.\<close>

definition yields :: "(string list \<Rightarrow> (string + unit) \<times> string list) \<Rightarrow> (string list \<Rightarrow> bool) \<Rightarrow> bool" where
  "yields f P \<longleftrightarrow> (\<forall>hist hist'. f hist = (Inr (), hist') \<longrightarrow> (\<exists>m. hist' = hist @ m \<and> P m))"

lemma yields_then:
  assumes "yields f P" "yields g Q" "\<And>a b. P a \<Longrightarrow> Q b \<Longrightarrow> R (a @ b)"
  shows "yields (run_then f g) R"
  unfolding yields_def
proof (intro allI impI)
  fix hist hist'
  assume "run_then f g hist = (Inr (), hist')"
  then obtain mid where "f hist = (Inr (), mid)" "g mid = (Inr (), hist')"
    by (auto simp: run_then_def split: prod.splits sum.splits)
  with assms(1,2) obtain a b where "mid = hist @ a" "P a" "hist' = mid @ b" "Q b"
    unfolding yields_def by metis
  with assms(3) show "\<exists>m. hist' = hist @ m \<and> R m" by auto
qed

lemma yields_execute: "yields (execute db stmt) (\<lambda>m. m = [stmt])"
  by (auto simp: yields_def execute_def split: option.splits)

lemma yields_load: "yields (load_or_install db ext) (loaded ext)"
  by (auto simp: yields_def load_or_install_def execute_def loaded_def split: option.splits prod.splits sum.splits)

lemma yields_if: "yields f P \<Longrightarrow> yields (run_if c f) (\<lambda>m. c \<longrightarrow> P m)"
  by (auto simp: yields_def run_if_def)

lemma yields_weaken: "yields f P \<Longrightarrow> (\<And>m. P m \<Longrightarrow> Q m) \<Longrightarrow> yields f Q"
  unfolding yields_def by blast

lemma loaded_append [simp]: "loaded ext (a @ b) \<longleftrightarrow> loaded ext a \<or> loaded ext b"
  by (auto simp: loaded_def)

lemma yields_credentials:
  "yields (configure_object_store_credentials db env kind)
    (\<lambda>m. loaded ''httpfs'' m \<and> (kind = S3 \<longrightarrow> loaded ''aws'' m))"
proof -
  have "yields (run_then (run_if (kind = S3) (load_or_install db ''aws''))
      (execute db (object_store_secret_sql kind (object_store_region env)))) (\<lambda>m. kind = S3 \<longrightarrow> loaded ''aws'' m)"
    by (rule yields_then [OF yields_if [OF yields_load] yields_execute]) auto
  then show ?thesis
    unfolding configure_object_store_credentials_def by (rule yields_then [OF yields_load]) auto
qed

definition extensions_loaded :: "DuckLakeAttachPlan \<Rightarrow> string list \<Rightarrow> bool" where
  "extensions_loaded plan m \<longleftrightarrow>
     list_all (\<lambda>(need, ext). need \<longrightarrow> loaded ext m)
       [(needs_motherduck plan, ''md''), (needs_ducklake plan, ''ducklake''), (needs_quack plan, ''quack''),
        (needs_postgres plan, ''postgres''), (object_store plan \<noteq> None, ''httpfs''),
        (object_store plan = Some S3, ''aws'')]"

lemma yields_store:
  "yields (case object_store plan of Some kind \<Rightarrow> configure_object_store_credentials db env kind
                       | None \<Rightarrow> (\<lambda>ran. (Inr (), ran)))
    (\<lambda>m. (object_store plan \<noteq> None \<longrightarrow> loaded ''httpfs'' m) \<and> (object_store plan = Some S3 \<longrightarrow> loaded ''aws'' m))"
  using yields_credentials [of db env] by (auto simp: yields_def split: option.splits)

lemma yields_plan:
  "yields (run_then (run_if (needs_motherduck plan) (load_or_install db ''md''))
              (run_then (run_if (needs_ducklake plan) (load_or_install db ''ducklake''))
                (run_then (run_if (needs_quack plan) (load_or_install db ''quack''))
                  (run_then (run_if (needs_postgres plan) (execute db (install_statement ''postgres'')))
                    (run_then (case object_store plan of
                         Some kind \<Rightarrow> configure_object_store_credentials db env kind
                       | None \<Rightarrow> (\<lambda>hist. (Inr (), hist)))
                      (execute db (plan_sql plan)))))))
    (\<lambda>m. \<exists>pre. m = pre @ [plan_sql plan] \<and> extensions_loaded plan pre)"
proof -
  let ?tail = "\<lambda>P m. \<exists>pre. m = pre @ [plan_sql plan] \<and> P pre"
  let ?store = "\<lambda>m. (object_store plan \<noteq> None \<longrightarrow> loaded ''httpfs'' m) \<and> (object_store plan = Some S3 \<longrightarrow> loaded ''aws'' m)"
  have ext: "yields (run_if c (load_or_install db ext)) (\<lambda>m. c \<longrightarrow> loaded ext m)" for c ext
    by (rule yields_if [OF yields_load])
  have pg: "yields (run_if (needs_postgres plan) (execute db (install_statement ''postgres'')))
      (\<lambda>m. needs_postgres plan \<longrightarrow> loaded ''postgres'' m)"
    by (rule yields_if) (auto simp: yields_def execute_def loaded_def split: option.splits)
  have step: "yields (run_then f g) (?tail (\<lambda>m. P m \<and> Q m))"
    if "yields f P" "yields g (?tail Q)" "\<And>a b. P a \<Longrightarrow> P (a @ b)" "\<And>a b. Q b \<Longrightarrow> Q (a @ b)" for f g P Q
    by (rule yields_then [OF that(1,2)]) (use that(3,4) in fastforce)
  have last: "yields (execute db (plan_sql plan)) (?tail (\<lambda>m. True))"
    using yields_execute [of db "plan_sql plan"] by (auto simp: yields_def)
  note all = step [OF ext [of "needs_motherduck plan" "''md''"] step [OF ext [of "needs_ducklake plan" "''ducklake''"]
    step [OF ext [of "needs_quack plan" "''quack''"] step [OF pg step [OF yields_store last]]]]]
  show ?thesis
    unfolding extensions_loaded_def by (rule yields_weaken [OF all]) auto
qed

lemma attach_order:
  assumes "attach_ducklake_connection db make_dir env config hist = (Inr (), hist')"
  shows "\<exists>plan pre. ducklake_attach_plan config = Inr plan \<and>
    hist' = hist @ pre @ [plan_sql plan] \<and> extensions_loaded plan pre"
proof -
  obtain mid where dir: "configure_extension_directory db make_dir (duckdb_extension_dir (operator config)) hist = (Inr (), mid)"
    using assms by (auto simp: attach_ducklake_connection_def run_then_def split: prod.splits sum.splits)
  then obtain d where d: "mid = hist @ d"
    by (auto simp: configure_extension_directory_def execute_def split: option.splits)
  obtain plan where plan: "ducklake_attach_plan config = Inr plan"
    using assms dir by (cases "ducklake_attach_plan config") (auto simp: attach_ducklake_connection_def run_then_def)
  obtain pre where "hist' = mid @ pre @ [plan_sql plan]" "extensions_loaded plan pre"
    using assms dir plan yields_plan [of plan db env]
    unfolding attach_ducklake_connection_def yields_def run_then_def [of "configure_extension_directory _ _ _"]
    by auto
  moreover from this have "extensions_loaded plan (d @ pre)"
    by (auto simp: extensions_loaded_def)
  ultimately show ?thesis using plan d by (intro exI [of _ plan] exI [of _ "d @ pre"]) simp
qed

text \<open>
  The catalog is attached only after the extensions it needs: when attaching succeeds,
  the plan's own statements are the last ones run, and every extension the plan names, and
  those its object store needs, was loaded before.
\<close>

theorem attach_after_extensions:
  assumes "attach_ducklake_connection db make_dir env config hist = (Inr (), hist')"
  shows "\<exists>plan pre. ducklake_attach_plan config = Inr plan \<and>
    hist' = hist @ pre @ [plan_sql plan] \<and> extensions_loaded plan pre"
  by (rule attach_order [OF assms])

text \<open>A connection that lacks one extension until it is installed, and a configuration with a bucket.\<close>

definition sample_db :: db_answers where
  "sample_db hist stmt = (if stmt = load_statement ''aws'' then Some ''not installed'' else None)"

definition sample_operator :: OperatorConfig where
  "sample_operator = \<lparr>bind = [], tls = \<lparr>tls_enabled = False, tls_mode = TlsFile, cert_file = None, key_file = None, backend_bind = []\<rparr>, api_key = [], admin_api_key = [], duckdb_path = ''/data/d.db'', local_storage_dir = ''/s'',
    duckdb_extension_dir = None, postgres_dsn = None, ducklake_attach_uri = None,
    ducklake_catalog_path = None, ducklake_data_path = Some ''s3://b'', ducklake_quack_token = None,
    ducklake_quack_insecure_tls = False, max_body_bytes = 0, duckdb_write_memory_limit = [],
    query_interactive = \<lparr>concurrency = 2, timeout_secs = 1, memory_limit = []\<rparr>, query_admission_wait = 0, cheap_query_admission_capacity = 1, max_concurrent_connections = 1,
    socket_read_timeout = 1, socket_write_timeout = 1\<rparr>"

theorem attach_after_extensions_witness:
  "case attach_ducklake_connection sample_db (\<lambda>_. None) (\<lambda>_. NotPresent) \<lparr>operator = sample_operator\<rparr> [] of
     (r, hist) \<Rightarrow> r = Inr () \<and> length hist = 6 \<and>
       (\<exists>plan pre. hist = pre @ [plan_sql plan] \<and> extensions_loaded plan pre)"
proof -
  have "case attach_ducklake_connection sample_db (\<lambda>_. None) (\<lambda>_. NotPresent) \<lparr>operator = sample_operator\<rparr> [] of
     (r, hist) \<Rightarrow> r = Inr () \<and> length hist = 6"
    by code_simp
  then obtain hist where h: "attach_ducklake_connection sample_db (\<lambda>_. None) (\<lambda>_. NotPresent) \<lparr>operator = sample_operator\<rparr> [] =
      (Inr (), hist)" "length hist = 6"
    by (auto split: prod.splits)
  from attach_after_extensions [OF h(1)] h show ?thesis by auto
qed

end
