(* ===== verification/Schema.thy ===== *)
theory Schema
  imports Api_Error Semantic_Labels Text "HOL-Library.Word"
begin

unbundle bit_operations_syntax

text \<open>
  The storage schema (\<^verbatim>\<open>src/src/storage/schema.rs\<close>): the tables and their columns,
  the statements that create and partition them, and the check of the catalog's schema
  version at start-up. The catalog is the statements run on it and the rows of
  \<^verbatim>\<open>canardstack_meta\<close>; any statement may fail, and a failed transaction leaves no trace.
\<close>

section \<open>Tables\<close>

definition LOGS_COLUMNS :: "(string \<times> string) list" where
  "LOGS_COLUMNS =
    [(''time_unix_nano'', ''TIMESTAMP_NS''),
     (''observed_time_unix_nano'', ''TIMESTAMP_NS''),
     (''trace_id'', ''VARCHAR''),
     (''span_id'', ''VARCHAR''),
     (''service_name'', ''VARCHAR''),
     (''service_namespace'', ''VARCHAR''),
     (''service_instance_id'', ''VARCHAR''),
     (''severity_number'', ''INTEGER''),
     (''severity_text'', ''VARCHAR''),
     (''event_name'', ''VARCHAR''),
     (''body'', ''VARCHAR''),
     (''resource_attributes'', ''VARCHAR''),
     (''scope_name'', ''VARCHAR''),
     (''scope_version'', ''VARCHAR''),
     (''scope_attributes'', ''VARCHAR''),
     (''log_attributes'', ''VARCHAR''),
     (''dropped_attributes_count'', ''UINTEGER''),
     (''flags'', ''UINTEGER'')]"

definition SPANS_COLUMNS :: "(string \<times> string) list" where
  "SPANS_COLUMNS =
    [(''start_time_unix_nano'', ''TIMESTAMP_NS''),
     (''duration_time_unix_nano'', ''BIGINT''),
     (''trace_id'', ''VARCHAR''),
     (''span_id'', ''VARCHAR''),
     (''parent_span_id'', ''VARCHAR''),
     (''trace_state'', ''VARCHAR''),
     (''service_name'', ''VARCHAR''),
     (''service_namespace'', ''VARCHAR''),
     (''service_instance_id'', ''VARCHAR''),
     (''name'', ''VARCHAR''),
     (''kind'', ''INTEGER''),
     (''status_code'', ''INTEGER''),
     (''status_status_message'', ''VARCHAR''),
     (''resource_attributes'', ''VARCHAR''),
     (''scope_name'', ''VARCHAR''),
     (''scope_version'', ''VARCHAR''),
     (''scope_attributes'', ''VARCHAR''),
     (''span_attributes'', ''VARCHAR''),
     (''events_json'', ''VARCHAR''),
     (''links_json'', ''VARCHAR''),
     (''dropped_attributes_count'', ''UINTEGER''),
     (''dropped_events_count'', ''UINTEGER''),
     (''dropped_links_count'', ''UINTEGER''),
     (''flags'', ''UINTEGER'')]"

definition METRIC_GAUGE_COLUMNS :: "(string \<times> string) list" where
  "METRIC_GAUGE_COLUMNS =
    [(''time_unix_nano'', ''TIMESTAMP_NS''),
     (''start_time_unix_nano'', ''TIMESTAMP_NS''),
     (''name'', ''VARCHAR''),
     (''description'', ''VARCHAR''),
     (''unit'', ''VARCHAR''),
     (''int_value'', ''BIGINT''),
     (''double_value'', ''DOUBLE''),
     (''service_name'', ''VARCHAR''),
     (''service_namespace'', ''VARCHAR''),
     (''service_instance_id'', ''VARCHAR''),
     (''resource_attributes'', ''VARCHAR''),
     (''scope_name'', ''VARCHAR''),
     (''scope_version'', ''VARCHAR''),
     (''scope_attributes'', ''VARCHAR''),
     (''metric_attributes'', ''VARCHAR''),
     (''flags'', ''UINTEGER''),
     (''exemplars_json'', ''VARCHAR'')]"

definition METRIC_SUM_COLUMNS :: "(string \<times> string) list" where
  "METRIC_SUM_COLUMNS =
    [(''time_unix_nano'', ''TIMESTAMP_NS''),
     (''start_time_unix_nano'', ''TIMESTAMP_NS''),
     (''name'', ''VARCHAR''),
     (''description'', ''VARCHAR''),
     (''unit'', ''VARCHAR''),
     (''int_value'', ''BIGINT''),
     (''double_value'', ''DOUBLE''),
     (''service_name'', ''VARCHAR''),
     (''service_namespace'', ''VARCHAR''),
     (''service_instance_id'', ''VARCHAR''),
     (''resource_attributes'', ''VARCHAR''),
     (''scope_name'', ''VARCHAR''),
     (''scope_version'', ''VARCHAR''),
     (''scope_attributes'', ''VARCHAR''),
     (''metric_attributes'', ''VARCHAR''),
     (''flags'', ''UINTEGER''),
     (''exemplars_json'', ''VARCHAR''),
     (''aggregation_temporality'', ''INTEGER''),
     (''is_monotonic'', ''BOOLEAN'')]"

definition METADATA_SUMMARY_COLUMNS :: "(string \<times> string) list" where
  "METADATA_SUMMARY_COLUMNS =
    [(''signal'', ''VARCHAR''),
     (''event_date'', ''DATE''),
     (''kind'', ''VARCHAR''),
     (''name'', ''VARCHAR''),
     (''value'', ''VARCHAR''),
     (''metric_type'', ''VARCHAR''),
     (''metric_unit'', ''VARCHAR''),
     (''metric_description'', ''VARCHAR''),
     (''service_name'', ''VARCHAR''),
     (''deployment_environment'', ''VARCHAR''),
     (''severity_text'', ''VARCHAR''),
     (''row_count'', ''BIGINT''),
     (''first_seen'', ''TIMESTAMP''),
     (''last_seen'', ''TIMESTAMP'')]"

fun table_columns :: "StorageSignal \<Rightarrow> (string \<times> string) list" where
  "table_columns LogsSignal = LOGS_COLUMNS"
| "table_columns SpansSignal = SPANS_COLUMNS"
| "table_columns MetricGauge = METRIC_GAUGE_COLUMNS"
| "table_columns MetricSum = METRIC_SUM_COLUMNS"

fun table_timestamp_column :: "StorageSignal \<Rightarrow> string" where
  "table_timestamp_column LogsSignal = ''time_unix_nano''"
| "table_timestamp_column SpansSignal = ''start_time_unix_nano''"
| "table_timestamp_column MetricGauge = ''time_unix_nano''"
| "table_timestamp_column MetricSum = ''time_unix_nano''"

definition create_table_sql :: "string \<Rightarrow> string \<Rightarrow> (string \<times> string) list \<Rightarrow> string" where
  "create_table_sql prefix nm cols =
     ''CREATE TABLE IF NOT EXISTS '' @ prefix @ nm @ '' ('' @ [LF] @
     join ('','' @ [LF]) (map (\<lambda>(col, ty). ''  '' @ col @ '' '' @ ty) cols) @ [LF] @ '');''"

definition SCHEMA_TABLES :: "StorageSignal list" where
  "SCHEMA_TABLES = [LogsSignal, SpansSignal, MetricGauge, MetricSum]"

definition create_tables_ddl :: "string \<Rightarrow> string" where
  "create_tables_ddl prefix =
     concat (map (\<lambda>table. create_table_sql prefix (signal_as_str table) (table_columns table) @ [LF]) SCHEMA_TABLES) @
     create_table_sql prefix ''metadata_summary'' METADATA_SUMMARY_COLUMNS @ [LF]"

definition partition_sql :: "string \<Rightarrow> StorageSignal \<Rightarrow> string" where
  "partition_sql prefix table =
     (let ts = table_timestamp_column table in
      ''ALTER TABLE '' @ prefix @ signal_as_str table @ '' SET PARTITIONED BY (year('' @ ts @
      ''), month('' @ ts @ ''), day('' @ ts @ ''));'')"

section \<open>The catalog\<close>

record Catalog =
  ddl :: "string list"
  meta :: "(string \<times> string option) list option"
  ticks :: nat

datatype BootError =
  DbFailure string
| NullValue
| VersionNotANumber string
| VersionTooOld nat
| VersionTooNew nat

text \<open>The error of the n-th statement, if it fails.\<close>

type_synonym faults = "nat \<Rightarrow> string option"

type_synonym 'a boot = "Catalog \<Rightarrow> (BootError + 'a) \<times> Catalog"

definition boot_bind :: "'a boot \<Rightarrow> ('a \<Rightarrow> 'b boot) \<Rightarrow> 'b boot" where
  "boot_bind f g cat = (case f cat of (Inl e, cat') \<Rightarrow> (Inl e, cat') | (Inr a, cat') \<Rightarrow> g a cat')"

definition boot_ok :: "'a \<Rightarrow> 'a boot" where
  "boot_ok a cat = (Inr a, cat)"

definition boot_fail :: "BootError \<Rightarrow> 'a boot" where
  "boot_fail e cat = (Inl e, cat)"

text \<open>A statement: it fails and changes nothing, or it is run; \<open>context\<close> names its failure.\<close>

definition statement_on :: "faults \<Rightarrow> (string \<Rightarrow> string) \<Rightarrow> 'a boot \<Rightarrow> 'a boot" where
  "statement_on faults context f cat =
     (case faults (ticks cat) of
        Some e \<Rightarrow> (Inl (DbFailure (context e)), cat\<lparr>ticks := Suc (ticks cat)\<rparr>)
      | None \<Rightarrow> f (cat\<lparr>ticks := Suc (ticks cat)\<rparr>))"

definition execute_ddl :: "faults \<Rightarrow> (string \<Rightarrow> string) \<Rightarrow> string \<Rightarrow> unit boot" where
  "execute_ddl faults context stmt =
     statement_on faults context (\<lambda>cat. (Inr (), cat\<lparr>ddl := ddl cat @ [stmt]\<rparr>))"

fun configure_telemetry_partitioning_on :: "faults \<Rightarrow> string \<Rightarrow> StorageSignal list \<Rightarrow> unit boot" where
  "configure_telemetry_partitioning_on faults prefix [] = boot_ok ()"
| "configure_telemetry_partitioning_on faults prefix (table # tables) =
     boot_bind
       (execute_ddl faults
         (\<lambda>_. ''configure DuckLake timestamp partitioning for '' @ signal_as_str table)
         (partition_sql prefix table))
       (\<lambda>_. configure_telemetry_partitioning_on faults prefix tables)"

definition create_tables_on :: "faults \<Rightarrow> string \<Rightarrow> unit boot" where
  "create_tables_on faults prefix =
     boot_bind (execute_ddl faults (\<lambda>e. e) (create_tables_ddl prefix))
       (\<lambda>_. configure_telemetry_partitioning_on faults prefix SCHEMA_TABLES)"

section \<open>The schema version\<close>

definition SCHEMA_VERSION :: nat where
  "SCHEMA_VERSION = 3"

definition MIN_COMPATIBLE_SCHEMA_VERSION :: nat where
  "MIN_COMPATIBLE_SCHEMA_VERSION = 3"

definition CARGO_PKG_VERSION :: string where
  "CARGO_PKG_VERSION = ''0.1.0''"

definition create_meta_table :: "faults \<Rightarrow> unit boot" where
  "create_meta_table faults =
     statement_on faults (\<lambda>_. ''create canardstack_meta table'')
       (\<lambda>cat. (Inr (), cat\<lparr>meta := Some (case meta cat of Some rows \<Rightarrow> rows | None \<Rightarrow> [])\<rparr>))"

definition read_meta_value :: "faults \<Rightarrow> string \<Rightarrow> string option boot" where
  "read_meta_value faults key =
     statement_on faults (\<lambda>e. e)
       (\<lambda>cat. (case meta cat of
            None \<Rightarrow> Inl (DbFailure ''canardstack_meta does not exist'')
          | Some rows \<Rightarrow>
              (case map_of rows key of
                 None \<Rightarrow> Inr None
               | Some None \<Rightarrow> Inl NullValue
               | Some (Some v) \<Rightarrow> Inr (Some v)), cat))"

definition put_meta :: "string \<Rightarrow> string \<Rightarrow> Catalog \<Rightarrow> Catalog" where
  "put_meta key v cat =
     cat\<lparr>meta := map_option (\<lambda>rows. filter (\<lambda>r. fst r \<noteq> key) rows @ [(key, Some v)]) (meta cat)\<rparr>"

definition set_meta_if_changed :: "faults \<Rightarrow> string \<Rightarrow> string \<Rightarrow> unit boot" where
  "set_meta_if_changed faults key v =
     boot_bind (read_meta_value faults key) (\<lambda>old.
     if old = Some v then boot_ok ()
     else statement_on faults (\<lambda>_. ''write canardstack_meta.'' @ key) (\<lambda>cat. (Inr (), put_meta key v cat)))"

text \<open>The fingerprint of the transform's schema, which is a parameter.\<close>

definition fnv1a :: "64 word \<Rightarrow> string \<Rightarrow> 64 word" where
  "fnv1a seed bytes = foldl (\<lambda>hash b. (hash XOR of_char b) * 0x100000001b3) seed bytes"

definition lower_hex_digit :: "nat \<Rightarrow> char" where
  "lower_hex_digit n = ''0123456789abcdef'' ! n"

definition hex16 :: "64 word \<Rightarrow> string" where
  "hex16 w = map (\<lambda>i. lower_hex_digit (unat (drop_bit (4 * i) w AND 15))) (rev [0..<16])"

type_synonym schema_def = "string \<times> (string \<times> string \<times> bool) list"

definition otlp2records_schema_fingerprint :: "schema_def list \<Rightarrow> string" where
  "otlp2records_schema_fingerprint defs =
     ''fnv1a64:'' @ hex16 (foldl (\<lambda>hash (nm, fields).
        foldl (\<lambda>h (field, ty, required).
            fnv1a (fnv1a (fnv1a h field) ty) [if required then CHR 0x01 else CHR 0x00])
          (fnv1a hash nm) fields)
      0xcbf29ce484222325 defs)"

definition check_version :: "string \<Rightarrow> unit boot" where
  "check_version raw =
     (case parse_unsigned U32_MAX (trim raw) of
        None \<Rightarrow> boot_fail (VersionNotANumber raw)
      | Some catalog_version \<Rightarrow>
          if catalog_version < MIN_COMPATIBLE_SCHEMA_VERSION then boot_fail (VersionTooOld catalog_version)
          else if SCHEMA_VERSION < catalog_version then boot_fail (VersionTooNew catalog_version)
          else boot_ok ())"

definition settle_version :: "faults \<Rightarrow> unit boot" where
  "settle_version faults =
     boot_bind (read_meta_value faults ''schema_version'') (\<lambda>stored.
       case stored of
         None \<Rightarrow> set_meta_if_changed faults ''schema_version'' (show_nat SCHEMA_VERSION)
       | Some raw \<Rightarrow> check_version raw)"

definition record_provenance :: "faults \<Rightarrow> schema_def list \<Rightarrow> unit boot" where
  "record_provenance faults defs =
     boot_bind (set_meta_if_changed faults ''canardstack_version'' CARGO_PKG_VERSION) (\<lambda>_.
     set_meta_if_changed faults ''otlp2records_schema_fingerprint'' (otlp2records_schema_fingerprint defs))"

definition enforce_schema_version_on :: "faults \<Rightarrow> schema_def list \<Rightarrow> unit boot" where
  "enforce_schema_version_on faults defs =
     boot_bind (create_meta_table faults) (\<lambda>_.
     boot_bind (settle_version faults) (\<lambda>_.
     record_provenance faults defs))"

text \<open>What opening the storage does with the schema, once the catalog is attached.\<close>

definition open_schema :: "faults \<Rightarrow> string \<Rightarrow> schema_def list \<Rightarrow> unit boot" where
  "open_schema faults prefix defs =
     boot_bind (create_tables_on faults prefix) (\<lambda>_. enforce_schema_version_on faults defs)"

section \<open>Labels and tables agree\<close>

text \<open>The words of an expression that are not called as functions.\<close>

text \<open>Letters, digits and the underscore, by the bits of the character.\<close>

fun word_char :: "char \<Rightarrow> bool" where
  "word_char (Char b0 b1 b2 b3 b4 b5 b6 b7) =
     (\<not> b7 \<and>
      (if b6 then
         (b0 \<or> b1 \<or> b2 \<or> b3 \<or> b4) \<and> \<not> (b4 \<and> b3 \<and> (b2 \<or> b1 \<and> b0)) \<or>
         \<not> b5 \<and> b4 \<and> b3 \<and> b2 \<and> b1 \<and> b0
       else b5 \<and> b4 \<and> \<not> (b3 \<and> (b2 \<or> b1))))"

fun words_of :: "string \<Rightarrow> string \<Rightarrow> string list" where
  "words_of w [] = (if w = [] then [] else [w])"
| "words_of w (c # cs) =
     (if word_char c then words_of (w @ [c]) cs
      else if w = [] \<or> c = CHR ''('' then words_of [] cs
      else w # words_of [] cs)"

definition scope_tables :: "LabelScope \<Rightarrow> StorageSignal list" where
  "scope_tables s = (case s of Logs \<Rightarrow> [LogsSignal] | Spans \<Rightarrow> [SpansSignal] | Metrics \<Rightarrow> [MetricGauge, MetricSum])"

definition SQL_WORDS :: "string list" where
  "SQL_WORDS = [''AS'', ''INTEGER'', ''NULL'']"

definition reads_columns_of :: "string \<Rightarrow> StorageSignal \<Rightarrow> bool" where
  "reads_columns_of expr table =
     list_all (\<lambda>w. w \<in> set SQL_WORDS \<or> w \<in> set (map fst (table_columns table)))
       (words_of [] (sql_code False expr))"

lemma sources_read_columns:
  "list_all (\<lambda>d. list_all (\<lambda>src.
     list_all (reads_columns_of (label_source_expr (source src))) (scope_tables (scope src))) (sources d)) LABELS"
  by code_simp

lemma word_char_edges:
  "list_all word_char ''azAZ09_'' \<and> list_all (\<lambda>c. \<not> word_char c) ''@[`{/:-.(), $''"
  by code_simp

lemma timestamps_are_columns:
  "table_timestamp_column s \<in> set (map fst (table_columns s))"
  by (cases s) (simp_all add: LOGS_COLUMNS_def SPANS_COLUMNS_def METRIC_GAUGE_COLUMNS_def METRIC_SUM_COLUMNS_def)

text \<open>
  Every label can be read from every table of its signal: the expression a label
  resolves to names, outside its string literals, only columns the schema creates in each
  table that queries of that signal read, gauges and sums alike.
\<close>

theorem labels_read_schema_columns:
  assumes "label_expr s nm = Some e" "table \<in> set (scope_tables s)"
  shows "reads_columns_of e table"
proof -
  from assms(1) obtain d src where d: "label_def s nm = Some d"
      and src: "List.find (\<lambda>src. scope src = s) (sources d) = Some src" and e: "e = label_source_expr (source src)"
    by (auto simp: label_expr_def bind_eq_Some_conv)
  have "d \<in> set LABELS" using d label_def_SomeD by blast
  moreover have "src \<in> set (sources d)" "scope src = s" using find_SomeD [OF src] by auto
  ultimately show ?thesis
    using sources_read_columns assms(2) e by (auto simp: list_all_iff)
qed

theorem labels_read_schema_columns_witness:
  "case label_expr Metrics ''deployment_environment'' of
     Some e \<Rightarrow> reads_columns_of e MetricGauge \<and> reads_columns_of e MetricSum | None \<Rightarrow> False"
proof -
  have "label_expr Metrics ''deployment_environment'' \<noteq> None" by code_simp
  then show ?thesis
    using labels_read_schema_columns [of Metrics "''deployment_environment''" _ MetricGauge]
      labels_read_schema_columns [of Metrics "''deployment_environment''" _ MetricSum]
    by (auto simp: scope_tables_def)
qed

section \<open>Booting\<close>

definition stored :: "string \<Rightarrow> Catalog \<Rightarrow> string option option" where
  "stored key cat = Option.bind (meta cat) (\<lambda>rows. map_of rows key)"

definition no_faults :: faults where
  "no_faults n = None"

lemma boot_bind_eq: "boot_bind f g cat = (r, cat') \<longleftrightarrow>
   (\<exists>e. f cat = (Inl e, cat') \<and> r = Inl e) \<or> (\<exists>a mid. f cat = (Inr a, mid) \<and> g a mid = (r, cat'))"
  by (auto simp: boot_bind_def split: prod.splits sum.splits)

lemma stored_put [simp]:
  "stored k (put_meta key v cat) = (if meta cat \<noteq> None \<and> k = key then Some (Some v) else stored k cat)"
proof (cases "meta cat")
  case (Some rows)
  have "map_of (filter (\<lambda>r. fst r \<noteq> key) rows @ [(key, Some v)]) k = (if k = key then Some (Some v) else map_of rows k)"
    by (induction rows) auto
  with Some show ?thesis by (simp add: stored_def put_meta_def)
qed (simp add: stored_def put_meta_def)

lemma stored_ticks [simp]: "stored k (cat\<lparr>ticks := n\<rparr>) = stored k cat"
  "stored k (cat\<lparr>ddl := d\<rparr>) = stored k cat"
  by (simp_all add: stored_def)

text \<open>What each step may do to a key: leave it, or write the value given to a key it is given.\<close>

definition writes :: "(string \<times> string) list \<Rightarrow> 'a boot \<Rightarrow> bool" where
  "writes kvs f \<longleftrightarrow> (\<forall>cat r cat'. f cat = (r, cat') \<longrightarrow>
     (\<forall>k. stored k cat' = stored k cat \<or> (\<exists>v. (k, v) \<in> set kvs \<and> stored k cat' = Some (Some v))))"

lemma writes_bind:
  assumes "writes a f" "\<And>x. writes b (g x)"
  shows "writes (a @ b) (boot_bind f g)"
  unfolding writes_def
proof (intro allI impI)
  fix cat r cat' k
  assume "boot_bind f g cat = (r, cat')"
  then consider e where "f cat = (Inl e, cat')" | x mid where "f cat = (Inr x, mid)" "g x mid = (r, cat')"
    unfolding boot_bind_eq by blast
  then show "stored k cat' = stored k cat \<or> (\<exists>v. (k, v) \<in> set (a @ b) \<and> stored k cat' = Some (Some v))"
  proof cases
    case (1 e)
    then show ?thesis using assms(1) unfolding writes_def by (metis UnI1 set_append)
  next
    case (2 x mid)
    from assms(1) 2(1) have "stored k mid = stored k cat \<or> (\<exists>v. (k, v) \<in> set a \<and> stored k mid = Some (Some v))"
      unfolding writes_def by blast
    moreover from assms(2) 2(2) have "stored k cat' = stored k mid \<or> (\<exists>v. (k, v) \<in> set b \<and> stored k cat' = Some (Some v))"
      unfolding writes_def by blast
    ultimately show ?thesis by auto
  qed
qed

lemma writes_ok [simp]: "writes [] (boot_ok a)" "writes [] (boot_fail e)"
  by (simp_all add: writes_def boot_ok_def boot_fail_def)

lemma writes_mono: "writes a f \<Longrightarrow> set a \<subseteq> set b \<Longrightarrow> writes b f"
  unfolding writes_def by blast

lemma writes_read [simp]: "writes [] (read_meta_value faults key)"
  by (auto simp: writes_def read_meta_value_def statement_on_def split: option.splits)

lemma writes_create [simp]: "writes [] (create_meta_table faults)"
  by (auto simp: writes_def create_meta_table_def statement_on_def stored_def split: option.splits)

lemma writes_set: "writes [(key, v)] (set_meta_if_changed faults key v)"
proof -
  have "writes [(key, v)] (if old = Some v then boot_ok ()
      else statement_on faults (\<lambda>_. ''write canardstack_meta.'' @ key) (\<lambda>cat. (Inr (), put_meta key v cat)))" for old
    by (auto simp: writes_def boot_ok_def statement_on_def split: option.splits)
  from writes_bind [OF writes_read this] show ?thesis by (simp add: set_meta_if_changed_def)
qed

lemma writes_check [simp]: "writes [] (check_version raw)"
  by (auto simp: check_version_def split: option.splits)

abbreviation "VERSION_KEY \<equiv> ''schema_version''"
abbreviation "BINARY_KEY \<equiv> ''canardstack_version''"
abbreviation "FINGERPRINT_KEY \<equiv> ''otlp2records_schema_fingerprint''"

lemma read_meta_Inr:
  "read_meta_value faults key cat = (Inr v, cat') \<Longrightarrow>
   stored key cat = map_option Some v \<and> meta cat \<noteq> None \<and> cat' = cat\<lparr>ticks := Suc (ticks cat)\<rparr>"
  by (auto simp: read_meta_value_def statement_on_def stored_def split: option.splits)

lemma create_meta_Inr:
  "create_meta_table faults cat = (Inr u, cat') \<Longrightarrow> meta cat' \<noteq> None \<and> (\<forall>k. stored k cat' = stored k cat)"
  by (auto simp: create_meta_table_def statement_on_def stored_def split: option.splits)

lemma set_meta_Inr:
  "set_meta_if_changed faults key v cat = (Inr u, cat') \<Longrightarrow> stored key cat' = Some (Some v)"
  by (auto simp: set_meta_if_changed_def boot_bind_eq boot_ok_def statement_on_def
      dest!: read_meta_Inr split: if_splits option.splits)

lemma set_meta_same:
  "stored key cat = Some (Some v) \<Longrightarrow> set_meta_if_changed faults key v cat = (r, cat') \<Longrightarrow> meta cat' = meta cat"
  by (auto simp: set_meta_if_changed_def boot_bind_eq boot_ok_def read_meta_value_def statement_on_def stored_def
      split: option.splits if_splits)

lemma set_other_keys:
  "set_meta_if_changed faults key v cat = (r, cat') \<Longrightarrow> k \<noteq> key \<Longrightarrow> stored k cat' = stored k cat"
  using writes_set [of key v faults] unfolding writes_def by fastforce

lemma check_version_eq:
  "check_version raw cat = (r, cat') \<Longrightarrow> cat' = cat \<and>
    (r = Inr () \<longleftrightarrow> parse_unsigned U32_MAX (trim raw) = Some SCHEMA_VERSION)"
  by (auto simp: check_version_def boot_fail_def boot_ok_def SCHEMA_VERSION_def MIN_COMPATIBLE_SCHEMA_VERSION_def
      split: option.splits if_splits)

lemma version_text: "trim (show_nat SCHEMA_VERSION) = show_nat SCHEMA_VERSION"
  by code_simp

lemma version_text_parses: "parse_unsigned U32_MAX (trim (show_nat SCHEMA_VERSION)) = Some SCHEMA_VERSION"
  unfolding version_text by (rule parse_unsigned_show) (simp add: SCHEMA_VERSION_def)

definition version_accepted :: "string option option \<Rightarrow> bool" where
  "version_accepted v =
     (case v of Some (Some raw) \<Rightarrow> parse_unsigned U32_MAX (trim raw) = Some SCHEMA_VERSION | _ \<Rightarrow> False)"

definition version_settled :: "string option option \<Rightarrow> string option option \<Rightarrow> bool" where
  "version_settled before after =
     (after = before \<or> before = None \<and> after = Some (Some (show_nat SCHEMA_VERSION)))"

lemma settle_version_result:
  assumes "settle_version faults cat = (r, cat')"
  shows "version_settled (stored VERSION_KEY cat) (stored VERSION_KEY cat')"
    "r = Inr u \<Longrightarrow> version_accepted (stored VERSION_KEY cat')"
proof -
  consider e where "read_meta_value faults VERSION_KEY cat = (Inl e, cat')" "r = Inl e"
    | old mid where "read_meta_value faults VERSION_KEY cat = (Inr old, mid)"
        "(case old of None \<Rightarrow> set_meta_if_changed faults VERSION_KEY (show_nat SCHEMA_VERSION)
          | Some raw \<Rightarrow> check_version raw) mid = (r, cat')"
    using assms unfolding settle_version_def boot_bind_eq by blast
  then have "version_settled (stored VERSION_KEY cat) (stored VERSION_KEY cat') \<and>
      (r = Inr u \<longrightarrow> version_accepted (stored VERSION_KEY cat'))"
  proof cases
    case (1 e)
    then show ?thesis using writes_read [of faults VERSION_KEY] unfolding writes_def version_settled_def by fastforce
  next
    case (2 old mid)
    note old = read_meta_Inr [OF 2(1)]
    show ?thesis
    proof (cases old)
      case None
      with 2(2) have set: "set_meta_if_changed faults VERSION_KEY (show_nat SCHEMA_VERSION) mid = (r, cat')" by simp
      have "stored VERSION_KEY cat' = stored VERSION_KEY mid \<or> stored VERSION_KEY cat' = Some (Some (show_nat SCHEMA_VERSION))"
        using writes_set [of VERSION_KEY "show_nat SCHEMA_VERSION" faults] set unfolding writes_def by fastforce
      with old None set_meta_Inr [of faults VERSION_KEY "show_nat SCHEMA_VERSION" mid u cat'] set version_text_parses show ?thesis
        by (auto simp: version_settled_def version_accepted_def)
    next
      case (Some raw)
      with 2(2) old check_version_eq [of raw mid r cat'] show ?thesis
        by (auto simp: version_settled_def version_accepted_def)
    qed
  qed
  then show "version_settled (stored VERSION_KEY cat) (stored VERSION_KEY cat')"
    "r = Inr u \<Longrightarrow> version_accepted (stored VERSION_KEY cat')" by blast+
qed

lemma record_keeps_version:
  "record_provenance faults defs cat = (r, cat') \<Longrightarrow> stored VERSION_KEY cat' = stored VERSION_KEY cat"
  by (auto simp: record_provenance_def boot_bind_eq dest!: set_other_keys [where k = VERSION_KEY])

lemma schema_guard:
  "case enforce_schema_version_on faults defs cat of (r, cat') \<Rightarrow>
     version_settled (stored VERSION_KEY cat) (stored VERSION_KEY cat') \<and>
     (if is_ok r then version_accepted (stored VERSION_KEY cat') else True)"
proof -
  obtain r cat' where run: "enforce_schema_version_on faults defs cat = (r, cat')"
    by (cases "enforce_schema_version_on faults defs cat") auto
  have same: "version_settled v v" for v by (simp add: version_settled_def)
  have create: "stored VERSION_KEY m = stored VERSION_KEY cat" if "create_meta_table faults cat = (x, m)" for x m
    using that writes_create [of faults] unfolding writes_def by fastforce
  consider e where "create_meta_table faults cat = (Inl e, cat')" "r = Inl e"
    | x m e where "create_meta_table faults cat = (Inr x, m)" "settle_version faults m = (Inl e, cat')" "r = Inl e"
    | x m y m' where "create_meta_table faults cat = (Inr x, m)" "settle_version faults m = (Inr y, m')"
        "record_provenance faults defs m' = (r, cat')"
    using run unfolding enforce_schema_version_on_def boot_bind_eq by blast
  then have "version_settled (stored VERSION_KEY cat) (stored VERSION_KEY cat') \<and>
      (is_ok r \<longrightarrow> version_accepted (stored VERSION_KEY cat'))"
    by cases (auto simp: same dest: settle_version_result(1) settle_version_result(2) [OF _ refl]
      dest!: create record_keeps_version)
  then show ?thesis by (simp add: run)
qed

text \<open>
  The schema version of a catalog is never rewritten, and start-up fails closed: whatever
  statement fails, the version stored afterwards is the one before, or there was none and it
  is the version this binary writes; and start-up succeeds only over a stored version this
  binary accepts.
\<close>

theorem schema_version_guard:
  "case enforce_schema_version_on faults defs cat of (r, cat') \<Rightarrow>
     version_settled (stored VERSION_KEY cat) (stored VERSION_KEY cat') \<and>
     (if is_ok r then version_accepted (stored VERSION_KEY cat') else True)"
  by (rule schema_guard)

text \<open>After a start-up that succeeded, the catalog is settled; a settled catalog is left alone.\<close>

definition settled :: "schema_def list \<Rightarrow> Catalog \<Rightarrow> bool" where
  "settled defs cat =
     (version_accepted (stored VERSION_KEY cat) \<and>
      stored BINARY_KEY cat = Some (Some CARGO_PKG_VERSION) \<and>
      stored FINGERPRINT_KEY cat = Some (Some (otlp2records_schema_fingerprint defs)))"

lemma settled_meta: "settled defs cat \<Longrightarrow> meta cat' = meta cat \<Longrightarrow> settled defs cat'"
  by (simp add: settled_def stored_def)

lemma record_provenance_Inr:
  assumes "record_provenance faults defs cat = (Inr u, cat')"
  shows "stored BINARY_KEY cat' = Some (Some CARGO_PKG_VERSION) \<and>
    stored FINGERPRINT_KEY cat' = Some (Some (otlp2records_schema_fingerprint defs))"
proof -
  obtain x mid where r: "set_meta_if_changed faults BINARY_KEY CARGO_PKG_VERSION cat = (Inr x, mid)"
      "set_meta_if_changed faults FINGERPRINT_KEY (otlp2records_schema_fingerprint defs) mid = (Inr u, cat')"
    using assms by (auto simp: record_provenance_def boot_bind_eq)
  show ?thesis
    using set_meta_Inr [OF r(1)] set_meta_Inr [OF r(2)] set_other_keys [OF r(2), of BINARY_KEY] by simp
qed

lemma enforce_settles:
  assumes "enforce_schema_version_on faults defs cat = (Inr (), cat')"
  shows "settled defs cat'"
proof -
  obtain m m' y where run: "settle_version faults m = (Inr y, m')" "record_provenance faults defs m' = (Inr (), cat')"
    using assms unfolding enforce_schema_version_on_def boot_bind_eq by blast
  show ?thesis
    using settle_version_result(2) [OF run(1) refl] record_keeps_version [OF run(2)] record_provenance_Inr [OF run(2)]
    by (simp add: settled_def)
qed

definition leaves_settled :: "schema_def list \<Rightarrow> 'a boot \<Rightarrow> bool" where
  "leaves_settled defs f \<longleftrightarrow> (\<forall>cat r cat'. settled defs cat \<longrightarrow> f cat = (r, cat') \<longrightarrow> meta cat' = meta cat)"

lemma leaves_bind:
  assumes "leaves_settled defs f" "\<And>x. leaves_settled defs (g x)"
  shows "leaves_settled defs (boot_bind f g)"
  unfolding leaves_settled_def
proof (intro allI impI)
  fix cat r cat'
  assume s: "settled defs cat" and "boot_bind f g cat = (r, cat')"
  then consider e where "f cat = (Inl e, cat')" | x mid where "f cat = (Inr x, mid)" "g x mid = (r, cat')"
    unfolding boot_bind_eq by blast
  then show "meta cat' = meta cat"
  proof cases
    case (2 x mid)
    have m: "meta mid = meta cat" using assms(1) s 2(1) unfolding leaves_settled_def by blast
    then show ?thesis using assms(2) settled_meta [OF s m] 2(2) unfolding leaves_settled_def by metis
  qed (use assms(1) s in \<open>unfold leaves_settled_def, blast\<close>)
qed

lemma leaves_create: "leaves_settled defs (create_meta_table faults)"
  by (auto simp: leaves_settled_def settled_def create_meta_table_def statement_on_def stored_def split: option.splits)

lemma leaves_set:
  assumes "\<And>cat. settled defs cat \<Longrightarrow> stored key cat = Some (Some v)"
  shows "leaves_settled defs (set_meta_if_changed faults key v)"
  using assms set_meta_same unfolding leaves_settled_def by blast

lemma leaves_settle_version: "leaves_settled defs (settle_version faults)"
  unfolding leaves_settled_def
proof (intro allI impI)
  fix cat r cat'
  assume s: "settled defs cat" and run: "settle_version faults cat = (r, cat')"
  have v: "stored VERSION_KEY cat \<noteq> None" using s by (auto simp: settled_def version_accepted_def split: option.splits)
  consider e where "read_meta_value faults VERSION_KEY cat = (Inl e, cat')"
    | old mid where "read_meta_value faults VERSION_KEY cat = (Inr old, mid)"
        "(case old of None \<Rightarrow> set_meta_if_changed faults VERSION_KEY (show_nat SCHEMA_VERSION)
          | Some raw \<Rightarrow> check_version raw) mid = (r, cat')"
    using run unfolding settle_version_def boot_bind_eq by blast
  then show "meta cat' = meta cat"
  proof cases
    case (1 e)
    then show ?thesis by (auto simp: read_meta_value_def statement_on_def split: option.splits)
  next
    case (2 old mid)
    with read_meta_Inr [OF 2(1)] v obtain raw where "old = Some raw" by auto
    with 2 read_meta_Inr [OF 2(1)] check_version_eq [of raw mid r cat'] show ?thesis by simp
  qed
qed

lemma leaves_enforce: "leaves_settled defs (enforce_schema_version_on faults defs)"
  unfolding enforce_schema_version_on_def record_provenance_def
  by (intro leaves_bind leaves_create leaves_settle_version leaves_set) (simp_all add: settled_def)

text \<open>
  C33. Restarting an unchanged binary writes nothing: after a start-up that succeeded, another
  one leaves every row of the catalog's metadata as it is, even if it fails part-way.
\<close>

theorem restart_writes_nothing:
  assumes "enforce_schema_version_on faults defs cat = (Inr (), cat1)"
  shows "meta (snd (enforce_schema_version_on faults' defs cat1)) = meta cat1"
  using leaves_enforce [of defs faults'] enforce_settles [OF assms] unfolding leaves_settled_def
  by (metis prod.collapse)

definition fresh_catalog :: Catalog where
  "fresh_catalog = \<lparr>ddl = [], meta = None, ticks = 0\<rparr>"

theorem restart_writes_nothing_witness:
  "\<exists>cat. enforce_schema_version_on no_faults [] fresh_catalog = (Inr (), cat) \<and>
     meta (snd (enforce_schema_version_on (\<lambda>n. if n = 9 then Some ''disk'' else None) [] cat)) = meta cat"
proof -
  have "enforce_schema_version_on no_faults [] fresh_catalog =
      (Inr (), snd (enforce_schema_version_on no_faults [] fresh_catalog))"
    by (simp add: enforce_schema_version_on_def settle_version_def record_provenance_def boot_bind_def
        create_meta_table_def read_meta_value_def set_meta_if_changed_def statement_on_def no_faults_def
        fresh_catalog_def put_meta_def boot_ok_def)
  then obtain cat where c: "enforce_schema_version_on no_faults [] fresh_catalog = (Inr (), cat)" by metis
  from restart_writes_nothing [OF c] c show ?thesis by blast
qed

text \<open>
  The tables are created and repartitioned before the version is checked: a catalog of a
  newer binary is refused, but only after five statements have been run on it.
\<close>

definition newer_catalog :: Catalog where
  "newer_catalog = fresh_catalog\<lparr>meta := Some [(VERSION_KEY, Some ''4'')]\<rparr>"

lemma newer_catalog_altered_then_refused:
  "case open_schema no_faults ''canardlake.'' [] newer_catalog of
     (r, cat) \<Rightarrow> r = Inl (VersionTooNew 4) \<and> length (ddl cat) = 5"
proof -
  have "trim ''4'' = show_nat 4" by code_simp
  then have "parse_unsigned U32_MAX (trim ''4'') = Some 4" using parse_unsigned_show [of 4 U32_MAX] by simp
  then have v: "check_version ''4'' c = (Inl (VersionTooNew 4), c)" for c
    unfolding check_version_def
    by (simp only: option.case) (simp add: SCHEMA_VERSION_def MIN_COMPATIBLE_SCHEMA_VERSION_def boot_fail_def)
  show ?thesis
    by (simp add: open_schema_def create_tables_on_def SCHEMA_TABLES_def enforce_schema_version_on_def
        settle_version_def boot_bind_def create_meta_table_def read_meta_value_def statement_on_def no_faults_def
        newer_catalog_def fresh_catalog_def execute_ddl_def boot_ok_def v)
qed

end
