(* ===== verification/Query_Timer.thy ===== *)
theory Query_Timer
  imports Prelude
begin

text \<open>
  The timeout of a query (\<^verbatim>\<open>with_query_conn\<close> of \<^verbatim>\<open>src/src/storage/query_conn.rs\<close>): the
  querying thread and its timer thread, over a mutex, a condition variable and the
  database's interrupt handle. Time is in milliseconds; a step is taken by one thread, or
  by the clock. The query's own answer is a parameter of the step that ends it.
\<close>

section \<open>States\<close>

text \<open>
  The timer thread: not yet at the mutex, asleep since a time, woken (with whether its wait
  timed out, the mutex held again), or ended with what it returns. A panic is not modelled:
  nothing it runs panics while the mutex is not poisoned.
\<close>

datatype timer = Starting | Waiting nat | Woken bool | Ended bool

datatype 'a querier = Running | Answered 'a | Notified 'a | Returned 'a

record 'a query_state =
  clock :: nat
  is_done :: bool
  timer :: timer
  querier :: "'a querier"
  interrupted :: bool

definition query_started :: "nat \<Rightarrow> 'a query_state" where
  "query_started t =
     \<lparr>clock = t, is_done = False, timer = Starting, querier = Running, interrupted = False\<rparr>"

text \<open>\<open>Returned\<close> holds what the caller gets: the timeout, or the query's own answer.\<close>

definition query_outcome :: "'e \<Rightarrow> bool \<Rightarrow> 'e + 'r \<Rightarrow> 'e + 'r" where
  "query_outcome timeout_error timed_out result = (if timed_out then Inl timeout_error else result)"

inductive query_step :: "'e \<Rightarrow> nat \<Rightarrow> ('e + 'r) query_state \<Rightarrow> ('e + 'r) query_state \<Rightarrow> bool"
  for timeout_error :: 'e and timeout :: nat
where
  tick: "query_step timeout_error timeout s (s\<lparr>clock := clock s + d\<rparr>)"
| timer_sees_done:
    "timer s = Starting \<Longrightarrow> is_done s \<Longrightarrow> query_step timeout_error timeout s (s\<lparr>timer := Ended False\<rparr>)"
| timer_waits:
    "timer s = Starting \<Longrightarrow> \<not> is_done s \<Longrightarrow>
     query_step timeout_error timeout s (s\<lparr>timer := Waiting (clock s)\<rparr>)"
| timer_times_out:
    "timer s = Waiting since \<Longrightarrow> since + timeout \<le> clock s \<Longrightarrow>
     query_step timeout_error timeout s (s\<lparr>timer := Woken True\<rparr>)"
| timer_wakes_early:
    "timer s = Waiting since \<Longrightarrow> query_step timeout_error timeout s (s\<lparr>timer := Woken False\<rparr>)"
| timer_interrupts:
    "timer s = Woken True \<Longrightarrow> \<not> is_done s \<Longrightarrow>
     query_step timeout_error timeout s (s\<lparr>timer := Ended True, interrupted := True\<rparr>)"
| timer_gives_up:
    "timer s = Woken timed_out \<Longrightarrow> is_done s \<or> \<not> timed_out \<Longrightarrow>
     query_step timeout_error timeout s (s\<lparr>timer := Ended False\<rparr>)"
| query_answers:
    "querier s = Running \<Longrightarrow> query_step timeout_error timeout s (s\<lparr>querier := Answered result\<rparr>)"
| query_sets_done:
    "querier s = Answered result \<Longrightarrow> (\<forall>b. timer s \<noteq> Woken b) \<Longrightarrow>
     query_step timeout_error timeout s (s\<lparr>is_done := True, querier := Notified result\<rparr>)"
| query_joins:
    "querier s = Notified result \<Longrightarrow> timer s = Ended timed_out \<Longrightarrow>
     query_step timeout_error timeout s
       (s\<lparr>querier := Returned (query_outcome timeout_error timed_out result)\<rparr>)"

inductive_cases query_stepE: "query_step timeout_error timeout s s'"

definition reachable_query :: "'e \<Rightarrow> nat \<Rightarrow> nat \<Rightarrow> ('e + 'r) query_state \<Rightarrow> bool" where
  "reachable_query timeout_error timeout t s =
     (query_step timeout_error timeout)\<^sup>*\<^sup>* (query_started t) s"

section \<open>What every reachable state satisfies\<close>

fun waits_since :: "nat \<Rightarrow> nat \<Rightarrow> 'a query_state \<Rightarrow> bool" where
  "waits_since t timeout s =
     (case timer s of
        Starting \<Rightarrow> True
      | Waiting since \<Rightarrow> t \<le> since
      | Woken timed_out \<Rightarrow> timed_out \<longrightarrow> t + timeout \<le> clock s
      | Ended timed_out \<Rightarrow> timed_out = interrupted s)"

definition query_inv :: "'e \<Rightarrow> nat \<Rightarrow> nat \<Rightarrow> ('e + 'r) query_state \<Rightarrow> bool" where
  "query_inv timeout_error timeout t s \<longleftrightarrow>
     t \<le> clock s \<and> waits_since t timeout s \<and>
     (interrupted s \<longrightarrow> timer s = Ended True \<and> t + timeout \<le> clock s) \<and>
     (is_done s \<longleftrightarrow> (\<exists>x. querier s = Notified x \<or> querier s = Returned x)) \<and>
     (\<forall>r. querier s = Returned r \<longrightarrow> timer s = Ended (interrupted s) \<and> (interrupted s \<longrightarrow> r = Inl timeout_error))"

lemma query_inv_start: "query_inv timeout_error timeout t (query_started t)"
  by (simp add: query_inv_def query_started_def)

lemma query_inv_step:
  "query_step timeout_error timeout s s' \<Longrightarrow> query_inv timeout_error timeout t s \<Longrightarrow>
   query_inv timeout_error timeout t s'"
  by (induction rule: query_step.cases)
    (auto simp: query_inv_def query_outcome_def split: timer.splits)

lemma reachable_query_inv:
  assumes "reachable_query timeout_error timeout t s"
  shows "query_inv timeout_error timeout t s"
  using assms unfolding reachable_query_def
  by (induction rule: rtranclp_induct) (auto intro: query_inv_start query_inv_step)

text \<open>
  C34. A query is cut short only by its timeout: in every state the two threads can reach,
  the database has been interrupted only if the timeout has passed since the query began,
  and when the call returns, it returns the timeout error exactly if it was interrupted,
  unless that is the query's own answer.
\<close>

theorem query_interrupted_only_late:
  assumes "reachable_query timeout_error timeout t s"
  shows "(if interrupted s then t + timeout \<le> clock s \<and> timer s = Ended True else True) \<and>
    (case querier s of
       Returned r \<Rightarrow> timer s = Ended (interrupted s) \<and> (if interrupted s then r = Inl timeout_error else True)
     | _ \<Rightarrow> True)"
  using reachable_query_inv [OF assms] by (auto simp: query_inv_def split: querier.splits)

text \<open>
  Before its timeout a query's answer is what the caller gets, and the database is not
  interrupted once the query has said that it is done.
\<close>

theorem timely_answer_returned:
  assumes "reachable_query timeout_error timeout t s" "query_step timeout_error timeout s s'"
  shows "(case (querier s, querier s') of
      (Notified x, Returned r) \<Rightarrow> (if clock s < t + timeout then r = x else True)
    | _ \<Rightarrow> True) \<and>
    (if is_done s then interrupted s' = interrupted s else True)"
proof -
  have inv: "query_inv timeout_error timeout t s" by (rule reachable_query_inv [OF assms(1)])
  from assms(2) show ?thesis
  proof (cases rule: query_step.cases)
    case (query_joins result timed_out)
    moreover from this inv have "timed_out = interrupted s" by (simp add: query_inv_def)
    ultimately show ?thesis using inv by (auto simp: query_inv_def query_outcome_def)
  qed (auto split: querier.splits)
qed

section \<open>Examples and endings\<close>

text \<open>A run in which the timeout of five passes before the query answers.\<close>

definition late_run :: "(string + nat) query_state list" where
  "late_run =
     (let s0 = query_started 0; s1 = s0\<lparr>timer := Waiting 0\<rparr>; s2 = s1\<lparr>clock := 5\<rparr>; s3 = s2\<lparr>timer := Woken True\<rparr>;
          s4 = s3\<lparr>timer := Ended True, interrupted := True\<rparr>; s5 = s4\<lparr>querier := Answered (Inr 7)\<rparr>;
          s6 = s5\<lparr>is_done := True, querier := Notified (Inr 7)\<rparr> in
      [s6, s6\<lparr>querier := Returned (Inl ''timeout'')\<rparr>])"

lemma late_run_reachable:
  "reachable_query ''timeout'' 5 0 (late_run ! 0)" "query_step ''timeout'' 5 (late_run ! 0) (late_run ! 1)"
proof -
  let ?step = "query_step ''timeout'' 5 :: (string + nat) query_state \<Rightarrow> _"
  let ?s0 = "query_started 0 :: (string + nat) query_state"
  let ?s1 = "?s0\<lparr>timer := Waiting 0\<rparr>" let ?s2 = "?s1\<lparr>clock := 5\<rparr>" let ?s3 = "?s2\<lparr>timer := Woken True\<rparr>"
  let ?s4 = "?s3\<lparr>timer := Ended True, interrupted := True\<rparr>" let ?s5 = "?s4\<lparr>querier := Answered (Inr 7)\<rparr>"
  let ?s6 = "?s5\<lparr>is_done := True, querier := Notified (Inr 7)\<rparr>"
  have "?step ?s0 ?s1" using timer_waits [of ?s0] by (simp add: query_started_def)
  moreover have "?step ?s1 ?s2" using tick [of _ _ ?s1 5] by (simp add: query_started_def)
  moreover have "?step ?s2 ?s3" by (rule timer_times_out [of _ 0]) (simp_all add: query_started_def)
  moreover have "?step ?s3 ?s4" by (rule timer_interrupts) (simp_all add: query_started_def)
  moreover have "?step ?s4 ?s5" by (rule query_answers) (simp add: query_started_def)
  moreover have "?step ?s5 ?s6" by (rule query_sets_done) simp_all
  ultimately have "?step\<^sup>*\<^sup>* ?s0 ?s6" by (meson rtranclp.rtrancl_into_rtrancl rtranclp.rtrancl_refl)
  then show "reachable_query ''timeout'' 5 0 (late_run ! 0)"
    by (simp add: reachable_query_def late_run_def Let_def)
  have "?step ?s6 (?s6\<lparr>querier := Returned (query_outcome ''timeout'' True (Inr 7))\<rparr>)"
    by (rule query_joins) simp_all
  then show "?step (late_run ! 0) (late_run ! 1)"
    by (simp add: late_run_def Let_def query_outcome_def)
qed

theorem query_interrupted_only_late_witness:
  "interrupted (late_run ! 1) \<and> querier (late_run ! 1) = Returned (Inl ''timeout'') \<and> 5 \<le> clock (late_run ! 1)"
proof -
  have "reachable_query ''timeout'' 5 0 (late_run ! 1)"
    using late_run_reachable unfolding reachable_query_def by (rule rtranclp.rtrancl_into_rtrancl)
  from query_interrupted_only_late [OF this] show ?thesis
    by (simp add: late_run_def Let_def)
qed

theorem timely_answer_returned_witness:
  "is_done (late_run ! 0) \<and> interrupted (late_run ! 1) = interrupted (late_run ! 0)"
proof -
  have "is_done (late_run ! 0)" by (simp add: late_run_def Let_def)
  with timely_answer_returned [OF late_run_reachable] show ?thesis by simp
qed

text \<open>How many steps the two threads have left.\<close>

fun steps_left :: "'a query_state \<Rightarrow> nat" where
  "steps_left s =
     (case timer s of Starting \<Rightarrow> 3 | Waiting _ \<Rightarrow> 2 | Woken _ \<Rightarrow> 1 | Ended _ \<Rightarrow> 0) +
     (case querier s of Running \<Rightarrow> 3 | Answered _ \<Rightarrow> 2 | Notified _ \<Rightarrow> 1 | Returned _ \<Rightarrow> 0)"

text \<open>
  Once the query has answered, the call returns: the two threads take at most six steps
  in all, whatever the clock does, and until the caller has its answer one of them can
  always take one; the timer never keeps the caller waiting for more.
\<close>

theorem query_returns:
  "(if query_step timeout_error timeout s s'
    then steps_left s' < steps_left s \<or> s' = s\<lparr>clock := clock s'\<rparr> else True) \<and>
   (if \<exists>r. querier s = Returned r then True
    else \<exists>s'. query_step timeout_error timeout s s' \<and> steps_left s' < steps_left s)"
proof (intro conjI)
  show "if query_step timeout_error timeout s s'
    then steps_left s' < steps_left s \<or> s' = s\<lparr>clock := clock s'\<rparr> else True"
    by (auto elim!: query_stepE)
  have "\<exists>s'. query_step timeout_error timeout s s' \<and> steps_left s' < steps_left s"
    if "\<forall>r. querier s \<noteq> Returned r"
  proof (cases "timer s")
    case Starting
    then show ?thesis
      using timer_sees_done [of s timeout_error timeout] timer_waits [of s timeout_error timeout]
      by (cases "is_done s") (force split: timer.splits)+
  next
    case (Waiting since)
    from timer_wakes_early [OF this] Waiting show ?thesis by (force split: timer.splits)
  next
    case (Woken b)
    then show ?thesis
      using timer_interrupts [of s timeout_error timeout] timer_gives_up [of s b timeout_error timeout]
      by (cases "b \<and> \<not> is_done s") force+
  next
    case (Ended b)
    then show ?thesis
      using query_answers [of s timeout_error timeout undefined] query_sets_done [of s _ timeout_error timeout]
        query_joins [of s _ b timeout_error timeout] that
      by (cases "querier s") force+
  qed
  then show "if \<exists>r. querier s = Returned r then True
    else \<exists>s'. query_step timeout_error timeout s s' \<and> steps_left s' < steps_left s"
    by simp
qed

text \<open>
  C35. A timeout can be lost: a condition variable may wake without a notification, and the
  timer then ends without interrupting. From that state the query runs as long as it likes:
  it is reachable, and in no state reached from it, at any later time, has the database been
  interrupted.
\<close>

theorem timeout_can_be_lost:
  fixes timeout_error :: 'e
  shows "\<exists>s :: ('e + 'r) query_state. reachable_query timeout_error timeout t s \<and> querier s = Running \<and>
     (\<nexists>s'. (query_step timeout_error timeout)\<^sup>*\<^sup>* s s' \<and> interrupted s') \<and>
     (\<exists>s'. (query_step timeout_error timeout)\<^sup>*\<^sup>* s s' \<and> querier s' = Running \<and> t + timeout + d \<le> clock s')"
proof -
  let ?step = "query_step timeout_error timeout"
  let ?begun = "query_started t :: ('e + 'r) query_state"
  let ?asleep = "?begun\<lparr>timer := Waiting t\<rparr>"
  let ?s = "?begun\<lparr>timer := Ended False\<rparr>"
  have a: "?step ?begun ?asleep"
    using timer_waits [of ?begun] by (simp add: query_started_def)
  have b: "?step ?asleep (?asleep\<lparr>timer := Woken False\<rparr>)" by (rule timer_wakes_early) simp
  have "?step (?asleep\<lparr>timer := Woken False\<rparr>) (?asleep\<lparr>timer := Woken False\<rparr>\<lparr>timer := Ended False\<rparr>)"
    by (rule timer_gives_up [of _ False]) simp_all
  then have c: "?step (?asleep\<lparr>timer := Woken False\<rparr>) ?s" by simp
  have reach: "reachable_query timeout_error timeout t ?s"
    unfolding reachable_query_def
    by (rule rtranclp.rtrancl_into_rtrancl [OF rtranclp.rtrancl_into_rtrancl [OF r_into_rtranclp [of ?step, OF a] b] c])
  have "timer s' = Ended False \<and> \<not> interrupted s'" if "?step\<^sup>*\<^sup>* ?s s'" for s'
    using that by (induction rule: rtranclp_induct) (auto simp: query_started_def elim!: query_stepE)
  moreover have "?step ?s (?s\<lparr>clock := clock ?s + (timeout + d)\<rparr>)"
    using tick [where s = ?s and d = "timeout + d"] by simp
  ultimately show ?thesis
    using reach by (intro exI [of _ ?s] conjI exI [of _ "?s\<lparr>clock := clock ?s + (timeout + d)\<rparr>"])
      (auto simp: query_started_def)
qed

end
