(* ===== verification/Process.thy ===== *)
theory Process
  imports Config Response Tls_Identity "HOL-Library.Word"
begin

text \<open>
  Around the server: the command line and TLS front end of \<^verbatim>\<open>src/src/main.rs\<close>, the health
  check and its HTTP client (\<^verbatim>\<open>src/src/cli/\<close>), log lines and levels
  (\<^verbatim>\<open>src/src/logging.rs\<close>) and the resident memory (\<^verbatim>\<open>src/src/runtime/memory.rs\<close>, for
  Linux). Sockets, signals and the JSON parser are parameters or left out.
\<close>

section \<open>The command line\<close>

datatype command = ShowVersion | Healthcheck "string list" | Serve "string list" | UnknownCommand string

fun dispatch :: "string list \<Rightarrow> command" where
  "dispatch [] = Serve []"
| "dispatch (a # args) =
     (if a = ''--version'' \<or> a = ''-V'' then ShowVersion
      else if a = ''healthcheck'' then Healthcheck args
      else if a = ''serve'' then Serve args
      else UnknownCommand a)"

text \<open>Options read so far; \<open>Inr None\<close> when the usage was asked for.\<close>

fun serve_options :: "string option \<Rightarrow> string list \<Rightarrow> string + string option option" where
  "serve_options listen [] = Inr (Some listen)"
| "serve_options listen (arg # args) =
     (if arg = ''--listen'' then
        (case args of [] \<Rightarrow> Inl (arg @ '' requires an address'') | v # rest \<Rightarrow> serve_options (Some v) rest)
      else if arg = ''--help'' \<or> arg = ''-h'' then Inr None
      else case strip_prefix ''--listen='' arg of
        Some v \<Rightarrow> serve_options (Some v) args
      | None \<Rightarrow> Inl (''unknown serve option '' @ arg @ ''; usage: canardstack serve [--listen addr]''))"

definition parse_serve_options :: "string list \<Rightarrow> string + string option option" where
  "parse_serve_options args = serve_options None args"

text \<open>\<open>None\<close> where the code panics: a certificate or key file that is expected is not set.\<close>

definition prepare_serve_tls :: "Config \<Rightarrow> ((string \<times> string \<times> TlsIdentity) option \<times> Config) option" where
  "prepare_serve_tls config =
     (let t = tls (operator config) in
      if \<not> tls_enabled t then Some (None, config)
      else
        let config' = config\<lparr>operator := (operator config)\<lparr>bind := backend_bind t\<rparr>\<rparr>;
            public = bind (operator config) in
        (case tls_mode t of
           TlsFile \<Rightarrow>
             Option.bind (cert_file t) (\<lambda>cert. Option.bind (key_file t) (\<lambda>key.
             Some (Some (public, backend_bind t, IdentityFile cert key), config')))
         | Config.EphemeralSelfSigned \<Rightarrow>
             Some (Some (public, backend_bind t, Tls_Identity.EphemeralSelfSigned [''localhost'']), config')))"

text \<open>
  The set-up of \<open>serve\<close> up to opening the storage. Whether the program was built with the
  \<^verbatim>\<open>tls\<close> feature is \<open>tls_built\<close>; without it, the default, TLS is refused.
\<close>

definition serve_setup ::
  "bool \<Rightarrow> string + Config \<Rightarrow> string list \<Rightarrow> (string + ((string \<times> string \<times> TlsIdentity) option \<times> Config) option) option" where
  "serve_setup tls_built from_env args =
     (case parse_serve_options args of
        Inl e \<Rightarrow> Some (Inl e)
      | Inr None \<Rightarrow> Some (Inr None)
      | Inr (Some listen) \<Rightarrow>
          (case from_env of
             Inl e \<Rightarrow> Some (Inl e)
           | Inr config \<Rightarrow>
               let config = (case listen of
                     Some l \<Rightarrow> config\<lparr>operator := (operator config)\<lparr>bind := l\<rparr>\<rparr> | None \<Rightarrow> config) in
               (case Config_validate config of
                  Inl e \<Rightarrow> Some (Inl e)
                | Inr _ \<Rightarrow>
                    if tls_built then map_option (\<lambda>x. Inr (Some x)) (prepare_serve_tls config)
                    else if tls_enabled (tls (operator config))
                    then Some (Inl ''CANARDSTACK_TLS_ENABLED=true requires a build with --features tls'')
                    else Some (Inr (Some (None, config))))))"

section \<open>The health check\<close>

fun endpoint_of :: "string option \<Rightarrow> string list \<Rightarrow> string + string option" where
  "endpoint_of endpoint [] =
     Inr (Some (case endpoint of Some e \<Rightarrow> e | None \<Rightarrow> ''http://127.0.0.1:9090/healthz''))"
| "endpoint_of endpoint (arg # args) =
     (if arg = ''--endpoint'' then
        (case args of [] \<Rightarrow> Inl ''--endpoint requires a URL'' | v # rest \<Rightarrow> endpoint_of (Some v) rest)
      else if arg = ''--help'' \<or> arg = ''-h'' then Inr None
      else case strip_prefix ''--endpoint='' arg of
        Some v \<Rightarrow> endpoint_of (Some v) args
      | None \<Rightarrow> Inl (''unknown healthcheck argument '' @ arg @ ''; use [--endpoint http://host:port/healthz]''))"

definition parse_endpoint :: "string list \<Rightarrow> string + string option" where
  "parse_endpoint args = endpoint_of None args"

record HttpTarget =
  host :: string
  port :: nat
  target_path :: string

definition HttpTarget_parse :: "string \<Rightarrow> string + HttpTarget" where
  "HttpTarget_parse url =
     and_then (ok_or (strip_prefix ''http://'' url) ''only http:// URLs are supported'') (\<lambda>rest.
     let (authority, path) = (case split_once ''/'' rest of Some x \<Rightarrow> x | None \<Rightarrow> (rest, ''healthz''));
         (h, p) = (case split_once '':'' authority of Some x \<Rightarrow> x | None \<Rightarrow> (authority, ''80'')) in
     map_ok (\<lambda>n. \<lparr>host = h, port = n, target_path = CHR ''/'' # path\<rparr>)
       (ok_or (parse_unsigned U16_MAX p) ''parse URL port''))"

definition healthcheck_request :: "HttpTarget \<Rightarrow> string" where
  "healthcheck_request t =
     ''GET '' @ target_path t @ '' HTTP/1.1'' @ [CR, LF] @ ''host: '' @ host t @ [CR, LF] @
     ''connection: close'' @ [CR, LF, CR, LF]"

text \<open>\<open>str::lines\<close>: a line ends at a line feed, and a carriage return before that is dropped.\<close>

function (sequential) text_lines :: "string \<Rightarrow> string list" where
  "text_lines s =
     (if s = [] then []
      else case split_once [LF] s of
        None \<Rightarrow> [s]
      | Some (l, rest) \<Rightarrow> (case strip_suffix [CR] l of Some l' \<Rightarrow> l' | None \<Rightarrow> l) # text_lines rest)"
  by pat_completeness auto
termination
  by (relation "measure length") (auto dest!: split_once_SomeD)

declare text_lines.simps [simp del]

definition first_line :: "string \<Rightarrow> string option" where
  "first_line s = (case text_lines s of [] \<Rightarrow> None | l # ls \<Rightarrow> Some l)"

definition nth_word :: "nat \<Rightarrow> string \<Rightarrow> string option" where
  "nth_word n s = (let ws = split_whitespace s in if n < length ws then Some (ws ! n) else None)"

definition read_response :: "string \<Rightarrow> string + (nat \<times> string)" where
  "read_response bytes =
     (let raw = from_utf8_lossy bytes in
      and_then (ok_or (split_once [CR, LF, CR, LF] raw) ''malformed HTTP response'') (\<lambda>(head, content).
      map_ok (\<lambda>code. (code, content))
        (ok_or (Option.bind (Option.bind (first_line head) (nth_word 1)) (parse_unsigned U16_MAX))
          ''malformed HTTP status line'')))"

text \<open>What the health check says of an answer; the JSON parser and printer are parameters.\<close>

definition healthcheck_verdict ::
  "(string \<Rightarrow> 'f json option) \<Rightarrow> ('f json \<Rightarrow> string) \<Rightarrow> nat \<times> string \<Rightarrow> string + unit" where
  "healthcheck_verdict from_str to_text answer =
     (case answer of (code, content) \<Rightarrow>
        if code \<noteq> 200 then Inl (''healthcheck failed: HTTP '' @ show_nat code @ '' body='' @ content)
        else case from_str content of
          None \<Rightarrow> Inl (''healthcheck returned malformed JSON: '' @ content)
        | Some v \<Rightarrow>
            if Option.bind (case v of JObject kvs \<Rightarrow> map_of kvs ''status'' | _ \<Rightarrow> None) json_as_str = Some ''ok''
            then Inr () else Inl (''healthcheck status was not ok: '' @ to_text v))"

section \<open>Memory\<close>

text \<open>The resident memory, from the text of \<open>/proc/self/status\<close>.\<close>

definition rss_bytes :: "string \<Rightarrow> nat option" where
  "rss_bytes text =
     Option.bind (List.find (\<lambda>line. starts_with line ''VmRSS:'') (text_lines text)) (\<lambda>line.
     Option.bind (Option.bind (nth_word 1 line) (parse_unsigned U64_MAX)) (\<lambda>kib.
     if kib * 1024 \<le> U64_MAX then Some (kib * 1024) else None))"

section \<open>Logging\<close>

datatype Level = Error | Warn | Info | Debug | Trace

datatype LevelFilter = Off | UpTo Level

definition parse_level :: "string \<Rightarrow> LevelFilter option" where
  "parse_level value =
     (let directive = hd (split_char (CHR '','') value);
          level = (case rsplit_once_char (CHR ''='') directive of Some (_, l) \<Rightarrow> l | None \<Rightarrow> directive);
          v = to_ascii_lowercase (trim level) in
      if v = ''off'' then Some Off
      else if v = ''error'' then Some (UpTo Error)
      else if v = ''warn'' \<or> v = ''warning'' then Some (UpTo Warn)
      else if v = ''info'' then Some (UpTo Info)
      else if v = ''debug'' then Some (UpTo Debug)
      else if v = ''trace'' then Some (UpTo Trace)
      else None)"

definition configured_level :: "environment \<Rightarrow> LevelFilter" where
  "configured_level env =
     (case Option.bind (case env ''CANARDSTACK_LOG'' of Present v \<Rightarrow> Some v
          | _ \<Rightarrow> (case env ''RUST_LOG'' of Present v \<Rightarrow> Some v | _ \<Rightarrow> None)) parse_level of
        Some l \<Rightarrow> l | None \<Rightarrow> UpTo Info)"

fun level_name :: "Level \<Rightarrow> string" where
  "level_name Error = ''error''" | "level_name Warn = ''warn''" | "level_name Info = ''info''"
| "level_name Debug = ''debug''" | "level_name Trace = ''trace''"

fun level_enabled :: "LevelFilter \<Rightarrow> Level \<Rightarrow> bool" where
  "level_enabled Off l = False"
| "level_enabled (UpTo Error) l = (l = Error)"
| "level_enabled (UpTo Warn) l = (l \<in> {Error, Warn})"
| "level_enabled (UpTo Info) l = (l \<in> {Error, Warn, Info})"
| "level_enabled (UpTo Debug) l = (l \<in> {Error, Warn, Info, Debug})"
| "level_enabled (UpTo Trace) l = True"

text \<open>Whether white space starts anywhere in a text.\<close>

fun has_whitespace :: "string \<Rightarrow> bool" where
  "has_whitespace [] = False"
| "has_whitespace (c # cs) = (at_whitespace (c # cs) \<or> has_whitespace cs)"

definition logfmt_escape :: "string \<Rightarrow> string" where
  "logfmt_escape v =
     concat (map (\<lambda>c. if c = BSLASH then [BSLASH, BSLASH] else if c = DQ then [BSLASH, DQ] else [c]) v)"

definition logfmt_value :: "string \<Rightarrow> string" where
  "logfmt_value v =
     (if v = [] \<or> has_whitespace v \<or> CHR ''='' \<in> set v \<or> DQ \<in> set v
      then [DQ] @ logfmt_escape v @ [DQ] else v)"

definition logfmt_fields :: "(string \<times> string) list \<Rightarrow> string" where
  "logfmt_fields pairs = join '' '' (map (\<lambda>(k, v). k @ ''='' @ logfmt_value v) pairs)"

definition log_line :: "Level \<Rightarrow> (string \<times> string) list \<Rightarrow> string" where
  "log_line level pairs = ''level='' @ level_name level @ '' '' @ logfmt_fields pairs"

definition log_event :: "LevelFilter \<Rightarrow> Level \<Rightarrow> (string \<times> string) list \<Rightarrow> string option" where
  "log_event max_level level pairs =
     (if level_enabled max_level level then Some (log_line level pairs) else None)"

text \<open>
  An event's fields as the tracing library hands them to the visitor: by type, \<open>record_f64\<close>
  and what prints itself through \<open>record_debug\<close>, with their debug text.
\<close>

datatype log_value = LogBool bool | LogI64 int | LogU64 nat | LogStr string | LogDebug string

fun log_value_text :: "log_value \<Rightarrow> string" where
  "log_value_text (LogBool b) = (if b then ''true'' else ''false'')"
| "log_value_text (LogI64 i) = show_int i"
| "log_value_text (LogU64 n) = show_nat n"
| "log_value_text (LogStr s) = s"
| "log_value_text (LogDebug s) = s"

definition push_field :: "string \<Rightarrow> log_value \<Rightarrow> (string \<times> string) list \<Rightarrow> (string \<times> string) list" where
  "push_field nm v so_far = so_far @ [(nm, log_value_text v)]"

definition subscriber_event :: "LevelFilter \<Rightarrow> Level \<Rightarrow> (string \<times> log_value) list \<Rightarrow> string option" where
  "subscriber_event max_level level recorded =
     log_event max_level level (fold (\<lambda>(nm, v). push_field nm v) recorded [])"

lemma subscriber_event_fields:
  "subscriber_event max_level level recorded =
     log_event max_level level (map (\<lambda>(nm, v). (nm, log_value_text v)) recorded)"
proof -
  have "fold (\<lambda>(nm, v). push_field nm v) recorded acc = acc @ map (\<lambda>(nm, v). (nm, log_value_text v)) recorded" for acc
    by (induction recorded arbitrary: acc) (auto simp: push_field_def)
  then show ?thesis by (simp add: subscriber_event_def)
qed

text \<open>\<open>new_span\<close>: the identifier, and the counter after it, which starts at one and wraps.\<close>

definition new_span :: "64 word \<Rightarrow> 64 word \<times> 64 word" where
  "new_span next_id = (next_id, next_id + 1)"

lemma span_ids_distinct:
  assumes "i < j" "j < 2 ^ 64"
  shows "fst (new_span (((snd \<circ> new_span) ^^ i) 1)) \<noteq> fst (new_span (((snd \<circ> new_span) ^^ j) 1))"
proof -
  have nth: "((snd \<circ> new_span) ^^ n) 1 = 1 + of_nat n" for n
    by (induction n) (simp_all add: new_span_def)
  have "(of_nat i :: 64 word) \<noteq> of_nat j"
    using assms by (auto dest!: arg_cong [of "of_nat i :: 64 word" _ unat] simp: unat_of_nat)
  then show ?thesis unfolding nth by (simp add: new_span_def)
qed

section \<open>The health check reads what the server writes\<close>

lemma utf8_step_append:
  "utf8_step s = (True, n) \<Longrightarrow> s \<noteq> [] \<Longrightarrow> utf8_step (s @ t) = (True, n) \<and> n \<le> length s"
  by (cases s) (auto split: if_splits list.splits)

lemma is_utf8_append: "is_utf8 s \<Longrightarrow> is_utf8 t \<Longrightarrow> is_utf8 (s @ t)"
proof (induction s rule: is_utf8.induct)
  case (1 s)
  show ?case
  proof (cases "s = []")
    case False
    then obtain n where step: "utf8_step s = (True, n)" "is_utf8 (drop n s)"
      using "1.prems" by (subst (asm) is_utf8.simps) (auto split: prod.splits)
    with False have "utf8_step (s @ t) = (True, n)" "n \<le> length s"
      using utf8_step_append by blast+
    with step False "1.IH" [OF False step(1) [symmetric] step(2) "1.prems"(2)] show ?thesis
      by (subst is_utf8.simps) simp
  qed (simp add: "1.prems")
qed

lemma is_utf8_Cons: "byte c < (128 :: nat) \<Longrightarrow> is_utf8 s \<Longrightarrow> is_utf8 (c # s)"
  using is_utf8_append [of "[c]" s] is_utf8_ascii [of "[c]"] by simp

lemma lossy_is_utf8: "is_utf8 s \<Longrightarrow> from_utf8_lossy s = s"
proof (induction s rule: is_utf8.induct)
  case (1 s)
  show ?case
  proof (cases "s = []")
    case False
    then obtain n where "utf8_step s = (True, n)" "is_utf8 (drop n s)"
      using "1.prems" by (subst (asm) is_utf8.simps) (auto split: prod.splits)
    with False "1.IH" show ?thesis by (subst from_utf8_lossy.simps) simp
  qed simp
qed

lemma written_is_utf8:
  assumes "is_utf8 (content_type r)" "is_utf8 (resp_body r)"
  shows "is_utf8 (write_response_with_connection r keep)"
proof -
  have digits: "is_utf8 (show_nat n)" for n
    using show_nat_digits by (intro is_utf8_ascii) (fastforce simp: list_all_iff)
  have reason: "is_utf8 (reason_phrase n)" for n
    by (intro is_utf8_ascii) (simp add: reason_phrase_def)
  have retry: "is_utf8 (case resp_retry_after r of Some n \<Rightarrow> ''retry-after: '' @ show_nat n @ [CR, LF] | None \<Rightarrow> [])"
    by (cases "resp_retry_after r") (simp_all add: is_utf8_Cons is_utf8_append digits is_utf8_ascii)
  have connection: "is_utf8 (if keep then ''keep-alive'' else ''close'')"
    by (cases keep) (simp_all add: is_utf8_ascii)
  show ?thesis
    unfolding write_response_with_connection_def
    by (intro is_utf8_append digits reason retry connection assms) (rule is_utf8_ascii; simp)+
qed

text \<open>Non-empty lines without a carriage return, then the empty line that ends a head.\<close>

lemma split_blank_line:
  "ls \<noteq> [] \<Longrightarrow> list_all (\<lambda>l. l \<noteq> [] \<and> CR \<notin> set l) ls \<Longrightarrow>
   split_once [CR, LF, CR, LF] (join [CR, LF] ls @ [CR, LF, CR, LF] @ rest) = Some (join [CR, LF] ls, rest)"
proof (induction ls)
  case (Cons l ls)
  have skip: "split_once [CR, LF, CR, LF] (x @ s) =
      map_option (\<lambda>(a, b). (x @ a, b)) (split_once [CR, LF, CR, LF] s)" if "CR \<notin> set x" for x s
    using that by (cases "split_once [CR, LF, CR, LF] s"; induction x) auto
  show ?case
  proof (cases ls)
    case Nil
    with Cons.prems show ?thesis by (simp add: skip)
  next
    case (Cons m ms)
    with Cons.prems obtain c cs where tail: "join [CR, LF] ls @ [CR, LF, CR, LF] @ rest = c # cs" "c \<noteq> CR"
      by (cases m; cases ms) auto
    have "split_once [CR, LF, CR, LF] (join [CR, LF] (l # ls) @ [CR, LF, CR, LF] @ rest) =
        map_option (\<lambda>(a, b). (l @ a, b)) (split_once [CR, LF, CR, LF] (CR # LF # c # cs))"
      using Cons.prems tail by (simp add: Cons skip)
    also have "split_once [CR, LF, CR, LF] (CR # LF # c # cs) =
        map_option (\<lambda>(a, b). (CR # LF # a, b)) (split_once [CR, LF, CR, LF] (c # cs))"
      using tail(2) by (cases "split_once [CR, LF, CR, LF] (c # cs)") auto
    also have "split_once [CR, LF, CR, LF] (c # cs) = Some (join [CR, LF] ls, rest)"
      using Cons.IH Cons.prems tail(1) by (simp add: Cons)
    finally show ?thesis by (simp add: Cons)
  qed
qed simp

definition status_line :: "HttpResponse \<Rightarrow> string" where
  "status_line r = ''HTTP/1.1 '' @ show_nat (resp_status r) @ '' '' @ reason_phrase (resp_status r)"

definition header_lines :: "HttpResponse \<Rightarrow> bool \<Rightarrow> string list" where
  "header_lines r keep =
     [''content-type: '' @ content_type r,
      ''content-length: '' @ show_nat (length (resp_body r)),
      ''connection: '' @ (if keep then ''keep-alive'' else ''close'')] @
     (case resp_retry_after r of Some n \<Rightarrow> [''retry-after: '' @ show_nat n] | None \<Rightarrow> [])"

lemma written_lines:
  "write_response_with_connection r keep =
     join [CR, LF] (status_line r # header_lines r keep) @ [CR, LF, CR, LF] @ resp_body r"
  by (cases "resp_retry_after r")
    (simp_all add: write_response_with_connection_def status_line_def header_lines_def)

lemma plain_digits: "list_all plain_char (show_nat n)"
  using show_nat_digits by (fastforce simp: list_all_iff plain_char_def)

lemma space_starts: "at_whitespace (CHR 0x20 # s)"
  by (simp add: at_whitespace_def ws_chars_def)

lemma status_word: "nth_word 1 (status_line r) = Some (show_nat (resp_status r))"
proof -
  have "split_whitespace (status_line r) =
      ''HTTP/1.1'' # show_nat (resp_status r) # split_whitespace (CHR 0x20 # reason_phrase (resp_status r))"
    using split_whitespace_word [of "''HTTP/1.1''"] split_whitespace_word [OF plain_digits show_nat_neq_Nil]
      space_starts
    by (simp add: status_line_def split_whitespace_space plain_char_def)
  then show ?thesis by (simp add: nth_word_def)
qed

lemma first_line_written:
  assumes "LF \<notin> set l"
  shows "first_line (l @ [CR, LF] @ s) = Some l"
  using split_once_char_append [of LF "l @ [CR]" s] assms
  by (simp add: first_line_def text_lines.simps [of "l @ CR # LF # s"])

lemma status_line_plain: "LF \<notin> set (status_line r)" "CR \<notin> set (status_line r)" "status_line r \<noteq> []"
  using show_nat_digits [of LF "resp_status r"]
  by (auto simp: status_line_def reason_phrase_def)

lemma header_lines_plain:
  "CR \<notin> set (content_type r) \<Longrightarrow> list_all (\<lambda>l. l \<noteq> [] \<and> CR \<notin> set l) (header_lines r keep)"
  by (cases "resp_retry_after r") (simp_all add: header_lines_def)

lemma reads_written:
  assumes "CR \<notin> set (content_type r)" "is_utf8 (content_type r)" "is_utf8 (resp_body r)"
    "resp_status r \<le> U16_MAX"
  shows "read_response (write_response r) = Inr (resp_status r, resp_body r) \<and>
    (is_ok (and_then (read_response (write_response r)) (healthcheck_verdict from_str to_text)) \<longleftrightarrow>
      resp_status r = 200 \<and>
      (\<exists>kvs. from_str (resp_body r) = Some (JObject kvs) \<and> map_of kvs ''status'' = Some (JString ''ok'')))"
proof -
  let ?head = "join [CR, LF] (status_line r # header_lines r False)"
  have lossy: "from_utf8_lossy (write_response r) = write_response r"
    unfolding write_response_def by (intro lossy_is_utf8 written_is_utf8 assms)
  have split: "split_once [CR, LF, CR, LF] (write_response r) = Some (?head, resp_body r)"
    unfolding write_response_def written_lines
    using status_line_plain header_lines_plain [OF assms(1)] by (intro split_blank_line) simp_all
  have "first_line ?head = Some (status_line r)"
    using first_line_written [OF status_line_plain(1)] by (simp add: header_lines_def)
  then have read: "read_response (write_response r) = Inr (resp_status r, resp_body r)"
    using assms(4) by (simp add: read_response_def lossy split status_word [unfolded One_nat_def] parse_unsigned_show)
  have ok: "json_as_str v = Some s \<longleftrightarrow> v = JString s" for v :: "'a json" and s
    by (cases v) auto
  have "is_ok (healthcheck_verdict from_str to_text (code, content)) \<longleftrightarrow>
      code = 200 \<and> (\<exists>kvs. from_str content = Some (JObject kvs) \<and> map_of kvs ''status'' = Some (JString ''ok''))"
    for code content
    by (auto simp: healthcheck_verdict_def bind_eq_Some_conv ok split: option.splits json.splits)
  with read show ?thesis by simp
qed

text \<open>The health check of the command line understands the server: whatever response the
  server writes, with a content type without carriage return, text in it, and a status of
  16 bits, the client's reader returns that status and that body; so the check passes
  exactly when the status is 200 and the body is JSON with the status \<open>ok\<close>.\<close>

theorem healthcheck_reads_server:
  assumes "CR \<notin> set (content_type r)" "is_utf8 (content_type r)" "is_utf8 (resp_body r)"
    "resp_status r \<le> U16_MAX"
  shows "read_response (write_response r) = Inr (resp_status r, resp_body r) \<and>
    (is_ok (and_then (read_response (write_response r)) (healthcheck_verdict from_str to_text)) \<longleftrightarrow>
      resp_status r = 200 \<and>
      (\<exists>kvs. from_str (resp_body r) = Some (JObject kvs) \<and> map_of kvs ''status'' = Some (JString ''ok'')))"
  by (rule reads_written [OF assms])

theorem healthcheck_reads_server_witness:
  "is_ok (and_then (read_response (write_response \<lparr>resp_status = 200, content_type = ''application/json'',
     resp_body = ''{}'', resp_retry_after = Some 3\<rparr>))
     (healthcheck_verdict (\<lambda>_. Some (JObject [(''status'', JString ''ok'' :: unit json)])) (\<lambda>_. [])))"
  using healthcheck_reads_server [of "\<lparr>resp_status = 200, content_type = ''application/json'',
     resp_body = ''{}'', resp_retry_after = Some 3\<rparr>"
     "\<lambda>_. Some (JObject [(''status'', JString ''ok'' :: unit json)])" "\<lambda>_. []"]
  by (simp add: is_utf8_ascii healthcheck_verdict_def)

section \<open>The TLS front end of a validated configuration\<close>

lemma validated_tls:
  assumes "is_ok (Config_validate config)" "tls_enabled (tls (operator config))"
  shows "backend_bind (tls (operator config)) \<noteq> bind (operator config) \<and>
    (tls_mode (tls (operator config)) = TlsFile \<longrightarrow>
      cert_file (tls (operator config)) \<noteq> None \<and> key_file (tls (operator config)) \<noteq> None)"
proof -
  have "is_ok (validate_tls (operator config))"
    using assms(1) by (auto simp: Config_validate_def is_ok_iff validate_operator_def result_simps)
  with assms(2) show ?thesis
    by (auto simp: validate_tls_def is_ok_iff result_simps)
qed

text \<open>The set-up of \<open>serve\<close> never panics in either build: the files that \<open>prepare_serve_tls\<close>
  expects are there in every validated configuration. Without TLS the server listens where it
  was told to and nothing stands before it; with TLS the terminator listens there, and the
  server at the other address, the one the terminator connects to.\<close>

theorem serve_setup_total:
  "case serve_setup tls_built from_env args of
     None \<Rightarrow> False
   | Some (Inl e) \<Rightarrow> True
   | Some (Inr None) \<Rightarrow> parse_serve_options args = Inr None
   | Some (Inr (Some (front, config))) \<Rightarrow>
       (\<exists>listen loaded told. parse_serve_options args = Inr (Some listen) \<and> from_env = Inr loaded \<and>
         told = (case listen of Some l \<Rightarrow> l | None \<Rightarrow> bind (operator loaded)) \<and>
         tls (operator config) = tls (operator loaded) \<and>
         (case front of
            None \<Rightarrow> \<not> tls_enabled (tls (operator loaded)) \<and> bind (operator config) = told
          | Some (public, backend, identity) \<Rightarrow>
              tls_built \<and> tls_enabled (tls (operator loaded)) \<and> public = told \<and> backend \<noteq> public \<and>
              backend = backend_bind (tls (operator loaded)) \<and> bind (operator config) = backend))"
proof (cases "parse_serve_options args")
  case options: (Inr opts)
  show ?thesis
  proof (cases opts)
    case opts: (Some listen)
    show ?thesis
    proof (cases from_env)
      case loaded: (Inr loaded)
      let ?told = "case listen of Some l \<Rightarrow> l | None \<Rightarrow> bind (operator loaded)"
      let ?config = "case listen of Some l \<Rightarrow> loaded\<lparr>operator := (operator loaded)\<lparr>bind := l\<rparr>\<rparr> | None \<Rightarrow> loaded"
      have told: "bind (operator ?config) = ?told" "tls (operator ?config) = tls (operator loaded)"
        by (simp_all split: option.split)
      show ?thesis
      proof (cases "Config_validate ?config")
        case invalid: (Inl e)
        then show ?thesis by (simp add: serve_setup_def options opts loaded)
      next
        case valid: (Inr u)
        then have outcome: "serve_setup tls_built from_env args =
            (if tls_built then map_option (\<lambda>x. Inr (Some x)) (prepare_serve_tls ?config)
             else if tls_enabled (tls (operator ?config))
             then Some (Inl ''CANARDSTACK_TLS_ENABLED=true requires a build with --features tls'')
             else Some (Inr (Some (None, ?config))))"
          by (simp add: serve_setup_def options opts loaded)
        have checked: "tls_enabled (tls (operator ?config)) \<Longrightarrow>
            backend_bind (tls (operator ?config)) \<noteq> bind (operator ?config) \<and>
            (tls_mode (tls (operator ?config)) = TlsFile \<longrightarrow>
              cert_file (tls (operator ?config)) \<noteq> None \<and> key_file (tls (operator ?config)) \<noteq> None)"
          using validated_tls [of ?config] valid by simp
        show ?thesis
          using checked
          unfolding outcome told prepare_serve_tls_def Let_def
          by (auto simp: told options opts loaded split: TlsMode.splits)
      qed
    qed (simp add: serve_setup_def options opts)
  qed (simp add: serve_setup_def options)
qed (simp add: serve_setup_def)

section \<open>Reading a log line back\<close>

text \<open>What a reader of logfmt does: a name up to \<open>=\<close>, then a quoted value or one up to a space.\<close>

fun unquote :: "string \<Rightarrow> (string \<times> string) option" where
  "unquote [] = None"
| "unquote (c # cs) =
     (if c = DQ then Some ([], cs)
      else if c = BSLASH then
        (case cs of [] \<Rightarrow> None | d # ds \<Rightarrow> map_option (\<lambda>(v, r). (d # v, r)) (unquote ds))
      else map_option (\<lambda>(v, r). (c # v, r)) (unquote cs))"

definition read_value :: "string \<Rightarrow> (string \<times> string) option" where
  "read_value s =
     (case s of
        c # cs \<Rightarrow> if c = DQ then unquote cs else Some (takeWhile (\<lambda>c. c \<noteq> CHR 0x20) s, dropWhile (\<lambda>c. c \<noteq> CHR 0x20) s)
      | [] \<Rightarrow> Some ([], []))"

fun read_fields :: "nat \<Rightarrow> string \<Rightarrow> (string \<times> string) list option" where
  "read_fields 0 s = (if s = [] then Some [] else None)"
| "read_fields (Suc n) s =
     Option.bind (split_once ''='' s) (\<lambda>(k, rest).
     Option.bind (read_value rest) (\<lambda>(v, rest).
     if rest = [] then Some [(k, v)]
     else map_option ((#) (k, v)) (read_fields n (drop 1 rest))))"

lemma unquote_escape: "unquote (logfmt_escape v @ DQ # r) = Some (v, r)"
  by (induction v) (auto simp: logfmt_escape_def)

lemma no_whitespace_no_space: "\<not> has_whitespace v \<Longrightarrow> CHR 0x20 \<notin> set v"
  by (induction v) (auto simp: space_starts)

lemma read_value_written:
  assumes "r = [] \<or> hd r = CHR 0x20"
  shows "read_value (logfmt_value v @ r) = Some (v, r)"
proof (cases "v = [] \<or> has_whitespace v \<or> CHR ''='' \<in> set v \<or> DQ \<in> set v")
  case True
  then have "logfmt_value v = DQ # logfmt_escape v @ [DQ]" by (simp add: logfmt_value_def)
  then show ?thesis by (simp add: read_value_def unquote_escape)
next
  case False
  then have plain: "logfmt_value v = v" "CHR 0x20 \<notin> set v" "DQ \<notin> set v" "v \<noteq> []"
    using no_whitespace_no_space by (simp_all add: logfmt_value_def)
  then obtain c cs where v: "v = c # cs" "c \<noteq> DQ" by (cases v) auto
  have "takeWhile (\<lambda>c. c \<noteq> CHR 0x20) (v @ r) = v" "dropWhile (\<lambda>c. c \<noteq> CHR 0x20) (v @ r) = r"
    using plain(2) assms by (cases r; fastforce simp: takeWhile_append dropWhile_append)+
  then show ?thesis using v plain(1) by (simp add: read_value_def)
qed

text \<open>C36. A log line can be read back: whatever the values of an event are, with white space,
  quotes, backslashes or equals signs in them, reading the fields of the line gives back
  every name with its value, in order.\<close>

theorem logfmt_roundtrip:
  assumes "pairs \<noteq> []" "list_all (\<lambda>(k, v). CHR ''='' \<notin> set k) pairs"
  shows "read_fields (length pairs) (logfmt_fields pairs) = Some pairs"
  using assms
proof (induction pairs)
  case (Cons p pairs)
  obtain k v where p: "p = (k, v)" by force
  have split: "split_once ''='' (k @ CHR ''='' # r) = Some (k, r)" for r
    using Cons.prems p by (simp add: split_once_char_append)
  show ?case
  proof (cases pairs)
    case Nil
    then show ?thesis
      using split read_value_written [of "[]" v] by (simp add: p logfmt_fields_def)
  next
    case (Cons q qs)
    have "logfmt_fields (p # pairs) = k @ CHR ''='' # logfmt_value v @ CHR 0x20 # logfmt_fields pairs"
      by (simp add: logfmt_fields_def join_Cons p Cons)
    then show ?thesis
      using split read_value_written [of "CHR 0x20 # logfmt_fields pairs" v] Cons.IH Cons.prems p
      by (simp add: Cons)
  qed
qed simp

theorem logfmt_roundtrip_witness:
  "read_fields 2 (logfmt_fields [(''event'', ''boot''), (''error'', ''a =b'')]) =
     Some [(''event'', ''boot''), (''error'', ''a =b'')]"
  using logfmt_roundtrip [of "[(''event'', ''boot''), (''error'', ''a =b'')]"] by (simp add: numeral_2_eq_2)

text \<open>
  A value is quoted when it has a line feed, but the line feed is written as it is: the line
  of one event may be several lines of the log, the second of them of the value's choosing.
\<close>

lemma event_spans_lines:
  "text_lines (log_line Warn [(''error'', ''x'' @ [LF] @ ''level=error event=forged'')]) =
     [''level=warn error='' @ [DQ] @ ''x'', ''level=error event=forged'' @ [DQ]]"
proof -
  have "has_whitespace (''x'' @ [LF] @ ''level=error event=forged'')"
    by (simp add: at_whitespace_def ws_chars_def)
  then have "log_line Warn [(''error'', ''x'' @ [LF] @ ''level=error event=forged'')] =
      (''level=warn error='' @ [DQ] @ ''x'') @ LF # ''level=error event=forged'' @ [DQ]"
    by (simp add: log_line_def logfmt_fields_def logfmt_value_def logfmt_escape_def)
  then show ?thesis
    using split_once_char_append [of LF "''level=warn error='' @ [DQ] @ ''x''"]
      split_once_char_None_iff [of LF "''level=error event=forged'' @ [DQ]"]
    by (simp add: text_lines.simps strip_suffix_def)
qed

end
