(* ===== verification/Client.thy ===== *)
theory Client
  imports Process Server
begin

text \<open>
  The HTTP client of the command-line tools (\<^verbatim>\<open>src/src/cli/tcp_client.rs\<close>): the request
  it writes and what it makes of the response, which \<^verbatim>\<open>Process.read_response\<close> reads.
  The socket is left out: a request is its bytes.
\<close>

section \<open>The client\<close>

record Client =
  client_host :: string
  client_port :: nat

definition Client_new :: "string \<Rightarrow> string + Client" where
  "Client_new base_url =
     and_then (ok_or (strip_prefix ''http://'' base_url) ''only http:// URLs are supported'') (\<lambda>rest.
     let authority = trim_end_matches (\<lambda>c. c = CHR ''/'') rest;
         (h, p) = (case split_once '':'' authority of Some x \<Rightarrow> x | None \<Rightarrow> (authority, ''80'')) in
     map_ok (\<lambda>n. \<lparr>client_host = h, client_port = n\<rparr>)
       (ok_or (parse_unsigned U16_MAX p) ''parse base URL port''))"

definition request_bytes :: "Client \<Rightarrow> string \<Rightarrow> string \<Rightarrow> string option \<Rightarrow> string option \<Rightarrow> string" where
  "request_bytes c verb path bearer given_body =
     (let content = (case given_body of Some b \<Rightarrow> b | None \<Rightarrow> []) in
      verb @ '' '' @ path @ '' HTTP/1.1'' @ [CR, LF] @
      ''host: '' @ client_host c @ [CR, LF] @
      ''accept: application/json'' @ [CR, LF] @
      ''content-length: '' @ show_nat (length content) @ [CR, LF] @
      ''connection: close'' @ [CR, LF] @
      (case bearer of Some token \<Rightarrow> ''authorization: Bearer '' @ token @ [CR, LF] | None \<Rightarrow> []) @
      (if verb = ''POST'' then ''content-type: application/json'' @ [CR, LF] else []) @
      [CR, LF] @ content)"

text \<open>The module has a \<open>read_response\<close> of its own, line for line that of the health check.\<close>

definition client_read_response :: "string \<Rightarrow> string + (nat \<times> string)" where
  "client_read_response bytes =
     (let raw = from_utf8_lossy bytes in
      and_then (ok_or (split_once [CR, LF, CR, LF] raw) ''malformed HTTP response'') (\<lambda>(head, content).
      map_ok (\<lambda>code. (code, content))
        (ok_or (Option.bind (Option.bind (first_line head) (nth_word 1)) (parse_unsigned U16_MAX))
          ''malformed HTTP status line'')))"

text \<open>A request and what is made of what comes back: \<open>wire\<close> is all the server writes until
  it closes, for what it is sent.\<close>

definition client_request ::
  "(string \<Rightarrow> string) \<Rightarrow> Client \<Rightarrow> string \<Rightarrow> string \<Rightarrow> string option \<Rightarrow> string option \<Rightarrow> string + (nat \<times> string)" where
  "client_request wire c verb path bearer given_body =
     client_read_response (wire (request_bytes c verb path bearer given_body))"

definition client_get :: "(string \<Rightarrow> string) \<Rightarrow> Client \<Rightarrow> string \<Rightarrow> string option \<Rightarrow> string + (nat \<times> string)" where
  "client_get wire c path bearer = client_request wire c ''GET'' path bearer None"

text \<open>\<open>to_text\<close> is the JSON printer.\<close>

definition client_post_json ::
  "('f json \<Rightarrow> string) \<Rightarrow> (string \<Rightarrow> string) \<Rightarrow> Client \<Rightarrow> string \<Rightarrow> string option \<Rightarrow> 'f json \<Rightarrow> string + (nat \<times> string)" where
  "client_post_json to_text wire c path bearer v = client_request wire c ''POST'' path bearer (Some (to_text v))"

definition client_parse_json :: "(string \<Rightarrow> 'f json option) \<Rightarrow> nat \<times> string \<Rightarrow> string \<Rightarrow> string + 'f json" where
  "client_parse_json from_str answer what =
     ok_or (from_str (snd answer)) (what @ '' returned malformed JSON: '' @ snd answer)"

definition ensure_status :: "nat \<times> string \<Rightarrow> nat \<Rightarrow> string \<Rightarrow> string + unit" where
  "ensure_status answer expected what =
     (if fst answer \<noteq> expected
      then Inl (what @ '' expected HTTP '' @ show_nat expected @ '', got '' @ show_nat (fst answer) @
             '' with body '' @ snd answer)
      else Inr ())"

section \<open>The server receives what the client sends\<close>

definition client_headers :: "Client \<Rightarrow> string \<Rightarrow> string option \<Rightarrow> string \<Rightarrow> headers" where
  "client_headers c verb bearer content =
     [(''host'', client_host c), (''accept'', ''application/json''),
      (''content-length'', show_nat (length content)), (''connection'', ''close'')] @
     (case bearer of Some token \<Rightarrow> [(''authorization'', ''Bearer '' @ token)] | None \<Rightarrow> []) @
     (if verb = ''POST'' then [(''content-type'', ''application/json'')] else [])"

definition sent_request :: "Client \<Rightarrow> string \<Rightarrow> string \<Rightarrow> string option \<Rightarrow> string \<Rightarrow> ClientRequest" where
  "sent_request c verb path bearer content =
     \<lparr>req_verb = verb, req_target = path, req_headers = client_headers c verb bearer content, req_body = content\<rparr>"

text \<open>Words short enough for the limits of the server's parser.\<close>

definition wordy :: "nat \<Rightarrow> string \<Rightarrow> bool" where
  "wordy n s = (list_all plain_char s \<and> s \<noteq> [] \<and> length s \<le> n)"

lemma request_bytes_rendered:
  "request_bytes c verb path bearer given_body =
     render_request (sent_request c verb path bearer (case given_body of Some b \<Rightarrow> b | None \<Rightarrow> []))"
  by (cases bearer; cases given_body)
    (simp_all add: request_bytes_def render_request_def sent_request_def client_headers_def render_header_def)

lemma lower_literal:
  "list_all (\<lambda>c. ascii_lower_char c = c) s \<Longrightarrow> to_ascii_lowercase s = s"
  unfolding to_ascii_lowercase_def by (induction s) auto

lemma client_header_received:
  "map_of (received_headers (client_headers c verb bearer content) []) =
     (\<lambda>k. map_of (rev (client_headers c verb bearer content)) k)"
  by (cases bearer)
    (simp_all add: client_headers_def received_headers_def insert_param_def fun_eq_iff
      to_ascii_lowercase_def ascii_lower_char_def)

lemma length_show_nat: "n < 10 ^ k \<Longrightarrow> 0 < k \<Longrightarrow> length (show_nat n) \<le> k"
proof (induction n arbitrary: k rule: show_nat.induct)
  case (1 n)
  show ?case
  proof (cases "n < 10")
    case True
    with 1 show ?thesis by (subst show_nat.simps) simp
  next
    case False
    then obtain j where k: "k = Suc j" "0 < j" using 1(2,3) by (cases k; cases "k - 1") auto
    have "n div 10 < 10 ^ j" using 1(2) k by (simp add: less_mult_imp_div_less mult.commute)
    from 1(1) [OF False this k(2)] show ?thesis by (subst show_nat.simps) (simp add: False k)
  qed
qed

definition MAX_WORD :: nat where
  "MAX_WORD = 4000"

definition client_ok :: "Client \<Rightarrow> string \<Rightarrow> string \<Rightarrow> string option \<Rightarrow> string \<Rightarrow> bool" where
  "client_ok c verb path bearer content =
     (wordy MAX_WORD (client_host c) \<and> wordy MAX_WORD verb \<and> wordy MAX_WORD path \<and>
      (case bearer of Some token \<Rightarrow> wordy MAX_WORD token | None \<Rightarrow> True) \<and> length content \<le> U64_MAX)"

lemma sendable_literal:
  "list_all plain_char k \<Longrightarrow> k \<noteq> [] \<Longrightarrow> CHR '':'' \<notin> set k \<Longrightarrow> list_all plain_char v \<Longrightarrow>
   length k + length v + 4 \<le> MAX_HEADER_LINE_BYTES \<Longrightarrow> sendable_header (k, v)"
  by (simp add: sendable_header_def plain_ascii_text trim_all_plain render_header_def)

lemma bearer_sendable:
  assumes "wordy MAX_WORD token"
  shows "sendable_header (''authorization'', ''Bearer '' @ token)"
proof -
  have "plain_char (last token)" using assms by (auto simp: wordy_def list_all_iff)
  then have "trim (''Bearer '' @ token) = ''Bearer '' @ token"
    using assms by (intro trim_plain) (simp add: wordy_def plain_char_def)
  then show ?thesis
    using assms plain_ascii_text [of token]
    by (simp add: sendable_header_def wordy_def MAX_WORD_def render_header_def plain_char_def)
qed

lemma client_headers_sendable:
  assumes "client_ok c verb path bearer content"
  shows "list_all sendable_header (client_headers c verb bearer content)"
proof -
  have "length (show_nat (length content)) \<le> 20"
    using assms by (intro length_show_nat) (simp_all add: client_ok_def)
  then have "sendable_header (''content-length'', show_nat (length content))"
    by (intro sendable_literal plain_digits) (simp_all add: plain_char_def)
  moreover have "sendable_header (''host'', client_host c)"
    using assms by (intro sendable_literal) (simp_all add: client_ok_def wordy_def MAX_WORD_def plain_char_def)
  moreover have "sendable_header (''accept'', ''application/json'')" "sendable_header (''connection'', ''close'')"
    "sendable_header (''content-type'', ''application/json'')"
    by (rule sendable_literal; simp add: plain_char_def)+
  moreover have "case bearer of Some token \<Rightarrow> sendable_header (''authorization'', ''Bearer '' @ token) | None \<Rightarrow> True"
    using assms bearer_sendable by (cases bearer) (simp_all add: client_ok_def)
  ultimately show ?thesis by (cases bearer) (simp_all add: client_headers_def)
qed

lemma client_headers_length:
  assumes "client_ok c verb path bearer content"
  shows "length (concat (map render_header (client_headers c verb bearer content))) + 2 \<le> MAX_HEADER_BYTES"
    "length (client_headers c verb bearer content) < MAX_HEADER_COUNT"
proof -
  have digits: "length (show_nat (length content)) \<le> 20"
    using assms by (intro length_show_nat) (simp_all add: client_ok_def)
  show "length (concat (map render_header (client_headers c verb bearer content))) + 2 \<le> MAX_HEADER_BYTES"
    using assms digits by (cases bearer) (simp_all add: client_headers_def render_header_def client_ok_def wordy_def MAX_WORD_def)
  show "length (client_headers c verb bearer content) < MAX_HEADER_COUNT"
    by (cases bearer) (simp_all add: client_headers_def)
qed

lemma client_sendable:
  assumes "client_ok c verb path bearer content"
    "length content \<le> max_body_bytes (operator (svc_config (services con)))"
  shows "sendable con (sent_request c verb path bearer content)"
proof -
  have "content_length (received_headers (client_headers c verb bearer content) []) = Some (length content)"
    unfolding content_length_def client_header_received
    using parse_unsigned_show [of "length content" U64_MAX] assms(1)
    by (cases bearer) (simp_all add: client_headers_def client_ok_def)
  with assms client_headers_sendable [OF assms(1)] client_headers_length [OF assms(1)] show ?thesis
    by (simp add: sendable_def sent_request_def client_ok_def wordy_def MAX_WORD_def)
qed

text \<open>What the client asks is what the server is asked: for words within the parser's
  limits, however the bytes are cut into buffers, the server reads one request with the
  client's method, path and body and nothing after it, sees that the connection is to be
  closed, and lets it in exactly when the client was given the configured key.\<close>

definition sent_headers :: "Client \<Rightarrow> string \<Rightarrow> string option \<Rightarrow> string \<Rightarrow> headers" where
  "sent_headers c verb bearer content = received_headers (client_headers c verb bearer content) []"

lemma sent_headers_close: "close_requested (sent_headers c verb bearer content)"
  unfolding close_requested_def sent_headers_def client_header_received
  by (cases bearer) (simp_all add: client_headers_def eq_ignore_ascii_case_def)

lemma sent_headers_key:
  "validate_api_key (sent_headers c verb bearer content) config admin = Inr () \<longleftrightarrow>
     (let expected = (if admin then admin_api_key (operator config) else api_key (operator config)) in
      expected \<noteq> [] \<and> bearer = Some expected)"
proof -
  have "supplied_key (sent_headers c verb bearer content) = bearer"
    unfolding supplied_key_def sent_headers_def client_header_received
    by (cases bearer) (simp_all add: client_headers_def)
  then show ?thesis using api_key_exact [of "sent_headers c verb bearer content"] by auto
qed

lemma client_request_received:
  assumes "client_ok c verb path bearer (case given_body of Some b \<Rightarrow> b | None \<Rightarrow> [])"
    "length (case given_body of Some b \<Rightarrow> b | None \<Rightarrow> []) \<le> max_body_bytes (operator (svc_config (services con)))"
    "all_bytes bufs" "buffered bufs = request_bytes c verb path bearer given_body"
  shows "\<exists>rest. read_request con bufs =
      (Request verb path (sent_headers c verb bearer (case given_body of Some b \<Rightarrow> b | None \<Rightarrow> []))
        (case given_body of Some b \<Rightarrow> b | None \<Rightarrow> []), rest) \<and> buffered rest = []"
  using read_sent_request [OF client_sendable [OF assms(1,2)] assms(3), of "[]"] assms(4)
  by (auto simp: request_bytes_rendered sent_request_def sent_headers_def)

text \<open>A response that can be read as text: every one the router writes but a binary trace.\<close>

definition readable_response :: "HttpResponse \<Rightarrow> bool" where
  "readable_response r =
     (CR \<notin> set (content_type r) \<and> is_utf8 (content_type r) \<and> is_utf8 (resp_body r) \<and> resp_status r \<le> U16_MAX)"

text \<open>C10. The client and the server understand each other: for words within the parser's
  limits, however the bytes are cut into buffers, the router is asked with the client's
  method, path and body, under headers that hold the configured key exactly when the client
  was given it, and what the client returns is the status and the body the router answered;
  it returns an error when the request, or counting it, panicked.\<close>

theorem client_request_answered:
  assumes "client_ok c verb path bearer (case given_body of Some b \<Rightarrow> b | None \<Rightarrow> [])"
    "length (case given_body of Some b \<Rightarrow> b | None \<Rightarrow> []) \<le> max_body_bytes (operator (svc_config (services con)))"
    "\<And>b. all_bytes (pieces b) \<and> buffered (pieces b) = b"
    "\<And>hs r s'. route_inner (services con) verb (fst (split_target path)) (snd (split_target path)) hs
        (case given_body of Some b \<Rightarrow> b | None \<Rightarrow> []) s = (Some r, s') \<Longrightarrow> readable_response r"
  shows "\<exists>hs. client_request (\<lambda>b. concat (fst (handle_stream con 0 (pieces b) s))) c verb path bearer given_body =
      ok_or (map_option (\<lambda>r. (resp_status r, resp_body r))
        (fst (counted con False (route_inner (services con) verb (fst (split_target path)) (snd (split_target path)) hs
          (case given_body of Some b \<Rightarrow> b | None \<Rightarrow> []) s))))
        ''malformed HTTP response'' \<and>
    (\<forall>config admin. validate_api_key hs config admin = Inr () \<longleftrightarrow>
      (let expected = (if admin then admin_api_key (operator config) else api_key (operator config)) in
       expected \<noteq> [] \<and> bearer = Some expected))"
proof -
  let ?content = "case given_body of Some b \<Rightarrow> b | None \<Rightarrow> []"
  let ?hs = "sent_headers c verb bearer ?content"
  let ?sent = "request_bytes c verb path bearer given_body"
  let ?routed = "route_inner (services con) verb (fst (split_target path)) (snd (split_target path)) ?hs ?content s"
  let ?counted = "counted con False ?routed"
  have same: "fst ?counted = Some r \<Longrightarrow> \<exists>t. ?routed = (Some r, t)" for r
    by (auto simp: counted_def seq_do_def split: prod.splits option.splits)
  obtain rest where "read_request con (pieces ?sent) = (Request verb path ?hs ?content, rest)"
    using client_request_received [OF assms(1,2)] assms(3) by blast
  then have wire: "concat (fst (handle_stream con 0 (pieces ?sent) s)) =
      (case fst ?counted of Some r \<Rightarrow> write_response r | None \<Rightarrow> [])"
    using sent_headers_close [of c verb bearer ?content]
    by (subst handle_stream.simps)
      (simp add: case_prod_beta should_keep_connection_alive_def write_response_def Let_def split: option.split)
  have "client_request (\<lambda>b. concat (fst (handle_stream con 0 (pieces b) s))) c verb path bearer given_body =
      ok_or (map_option (\<lambda>r. (resp_status r, resp_body r)) (fst ?counted)) ''malformed HTTP response''"
  proof (cases "fst ?counted")
    case None
    then show ?thesis
      by (simp add: client_request_def wire client_read_response_def from_utf8_lossy.simps)
  next
    case (Some r)
    then have "readable_response r" using assms(4) same by blast
    then have "read_response (write_response r) = Inr (resp_status r, resp_body r)"
      by (simp add: readable_response_def reads_written [THEN conjunct1])
    with Some show ?thesis
      by (simp add: client_request_def wire client_read_response_def read_response_def)
  qed
  then show ?thesis using sent_headers_key [of c verb bearer ?content] by (intro exI [of _ ?hs]) simp
qed

text \<open>The witness asks for a path the router does not know.\<close>

lemma unknown_path_answer:
  "route_inner logging_services ''GET'' ''/nothing'' ps hs body s =
     (Some (from_api_error (\<lambda>_ :: unit json. ''null'') (ApiError_new 404 ''not_found'' ''route not found'')), s)"
proof -
  have "match_compat_route ''GET'' ''/nothing'' = None" by code_simp
  then show ?thesis by (simp add: route_inner_def logging_services_def Let_def)
qed

lemma sample_counted: "fst (counted sample_connection keep_alive (Some r, s)) = Some r"
  by (simp add: counted_def sample_connection_def noting_def seq_do_def)

theorem client_request_answered_witness:
  "client_get (\<lambda>b. concat (fst (handle_stream sample_connection 0 [Bytes b] [])))
     \<lparr>client_host = ''localhost'', client_port = 9090\<rparr> ''/nothing'' (Some ''k'') = Inr (404, ''null'')"
proof -
  let ?c = "\<lparr>client_host = ''localhost'', client_port = 9090\<rparr>"
  have con: "services sample_connection = logging_services" by (simp add: sample_connection_def)
  have target: "split_target ''/nothing'' = (''/nothing'', [])" by code_simp
  have ok: "client_ok ?c ''GET'' ''/nothing'' (Some ''k'') []"
    by (simp add: client_ok_def wordy_def MAX_WORD_def plain_char_def)
  show ?thesis
    using client_request_answered [of ?c "''GET''" "''/nothing''" "Some ''k''" None sample_connection "\<lambda>b. [Bytes b]" "[]"] ok
    unfolding con
    by (simp add: target unknown_path_answer sample_counted client_get_def all_bytes_def readable_response_def from_api_error_def
      response_json_def is_utf8_ascii)
qed

end
