(* ===== verification/Listener.thy ===== *)
theory Listener
  imports Prelude
begin

text \<open>
  The accept loop of the server and its shutdown (\<^verbatim>\<open>serve_until\<close> and
  \<^verbatim>\<open>drain_active_connections\<close> of \<^verbatim>\<open>src/src/http/server.rs\<close>): the accepting thread and
  the threads of the connections, which share the counter \<open>active\<close> and the shutdown flag.
  Time is in milliseconds. What a connection's thread does is \<^verbatim>\<open>Server.serve_connection\<close>.
\<close>

section \<open>States and steps\<close>

definition SHUTDOWN_DRAIN_TIMEOUT :: nat where
  "SHUTDOWN_DRAIN_TIMEOUT = 30000"

text \<open>
  Where the accepting thread is: about to look at the flag, at the listener, with a
  connection it has counted (and what the counter was), draining until a deadline, done with that, or ended,
  with what the counter was or because the listener failed.
\<close>

datatype acceptor = Checking | Accepting | Counted nat | Draining nat | Reporting | Drained nat | AcceptFailed

record listener =
  active :: nat
  live :: nat
  acceptor :: acceptor
  shutdown :: bool
  now :: nat
  accepted :: nat
  refused :: nat

text \<open>
  \<open>active\<close> is the shared counter; \<open>live\<close>, the number of guards that have not been dropped.
  \<open>accepted\<close> and \<open>refused\<close> count connections.
\<close>

definition listener_started :: "nat \<Rightarrow> listener" where
  "listener_started t =
     \<lparr>active = 0, live = 0, acceptor = Checking, shutdown = False, now = t, accepted = 0, refused = 0\<rparr>"

definition drain_over :: "nat \<Rightarrow> listener \<Rightarrow> bool" where
  "drain_over deadline s = (active s = 0 \<or> deadline \<le> now s)"

inductive accept_step :: "nat \<Rightarrow> listener \<Rightarrow> listener \<Rightarrow> bool" for max_conns :: nat where
  goes_on:
    "acceptor s = Checking \<Longrightarrow> \<not> shutdown s \<Longrightarrow> accept_step max_conns s (s\<lparr>acceptor := Accepting\<rparr>)"
| nothing_to_accept:
    "acceptor s = Accepting \<Longrightarrow> accept_step max_conns s (s\<lparr>acceptor := Checking\<rparr>)"
| counts:
    "acceptor s = Accepting \<Longrightarrow>
     accept_step max_conns s (s\<lparr>acceptor := Counted (active s), active := active s + 1, accepted := accepted s + 1\<rparr>)"
| listener_fails:
    "acceptor s = Accepting \<Longrightarrow> accept_step max_conns s (s\<lparr>acceptor := AcceptFailed\<rparr>)"
| refuses:
    "acceptor s = Counted prev \<Longrightarrow> max_conns \<le> prev \<Longrightarrow>
     accept_step max_conns s (s\<lparr>acceptor := Checking, active := active s - 1, refused := refused s + 1\<rparr>)"
| spawns:
    "acceptor s = Counted prev \<Longrightarrow> prev < max_conns \<Longrightarrow>
     accept_step max_conns s (s\<lparr>acceptor := Checking, live := live s + 1\<rparr>)"
| stops_accepting:
    "acceptor s = Checking \<Longrightarrow> shutdown s \<Longrightarrow>
     accept_step max_conns s (s\<lparr>acceptor := Draining (now s + SHUTDOWN_DRAIN_TIMEOUT)\<rparr>)"
| drains:
    "acceptor s = Draining deadline \<Longrightarrow> drain_over deadline s \<Longrightarrow>
     accept_step max_conns s (s\<lparr>acceptor := Reporting\<rparr>)"
| reports:
    "acceptor s = Reporting \<Longrightarrow> accept_step max_conns s (s\<lparr>acceptor := Drained (active s)\<rparr>)"

text \<open>What happens around the accepting thread: connections end, a signal comes, time passes.\<close>

inductive outside_step :: "listener \<Rightarrow> listener \<Rightarrow> bool" where
  connection_ends: "0 < live s \<Longrightarrow> outside_step s (s\<lparr>live := live s - 1, active := active s - 1\<rparr>)"
| shutdown_requested: "outside_step s (s\<lparr>shutdown := True\<rparr>)"
| time_passes: "outside_step s (s\<lparr>now := now s + d\<rparr>)"

definition listener_step :: "nat \<Rightarrow> listener \<Rightarrow> listener \<Rightarrow> bool" where
  "listener_step max_conns s s' = (accept_step max_conns s s' \<or> outside_step s s')"

inductive_cases accept_stepE: "accept_step max_conns s s'"
inductive_cases outside_stepE: "outside_step s s'"

definition reachable_listener :: "nat \<Rightarrow> nat \<Rightarrow> listener \<Rightarrow> bool" where
  "reachable_listener max_conns t s = (listener_step max_conns)\<^sup>*\<^sup>* (listener_started t) s"

section \<open>The counter counts\<close>

definition counted_now :: "listener \<Rightarrow> nat" where
  "counted_now s = (case acceptor s of Counted prev \<Rightarrow> 1 | _ \<Rightarrow> 0)"

definition listener_inv :: "nat \<Rightarrow> listener \<Rightarrow> bool" where
  "listener_inv max_conns s \<longleftrightarrow>
     active s = live s + counted_now s \<and> live s \<le> max_conns \<and>
     (case acceptor s of Counted prev \<Rightarrow> live s \<le> prev \<and> prev \<le> max_conns | _ \<Rightarrow> True)"

lemma listener_inv_start: "listener_inv max_conns (listener_started t)"
  by (simp add: listener_inv_def listener_started_def counted_now_def)

lemma listener_inv_accept:
  "accept_step max_conns s s' \<Longrightarrow> listener_inv max_conns s \<Longrightarrow> listener_inv max_conns s'"
  by (induction rule: accept_step.cases) (auto simp: listener_inv_def counted_now_def)

lemma listener_inv_outside:
  "outside_step s s' \<Longrightarrow> listener_inv max_conns s \<Longrightarrow> listener_inv max_conns s'"
  by (induction rule: outside_step.cases) (auto simp: listener_inv_def counted_now_def split: acceptor.splits)

lemma reachable_listener_inv:
  assumes "reachable_listener max_conns t s"
  shows "listener_inv max_conns s"
  using assms unfolding reachable_listener_def
  by (induction rule: rtranclp_induct)
    (auto simp: listener_step_def intro: listener_inv_start listener_inv_accept listener_inv_outside)

section \<open>Bounds and refusals\<close>

text \<open>C37. However connections come and end, the server never serves more of them at once
  than it is configured to; the shared counter never goes below the connections it counts;
  and a client is turned away only when, as its connection was counted, exactly that many
  others were.\<close>

theorem connections_bounded:
  assumes "reachable_listener max_conns t s"
  shows "live s \<le> max_conns \<and> live s \<le> active s \<and> active s \<le> max_conns + 1 \<and>
    (\<nexists>s'. accept_step max_conns s s' \<and> refused s' = refused s + 1 \<and>
      (acceptor s \<noteq> Counted max_conns \<or> active s = 0))"
proof -
  have inv: "listener_inv max_conns s" by (rule reachable_listener_inv [OF assms])
  have "acceptor s = Counted max_conns \<and> active s \<noteq> 0"
    if "accept_step max_conns s s'" "refused s' = refused s + 1" for s'
    using that inv by (cases rule: accept_step.cases) (auto simp: listener_inv_def counted_now_def)
  with inv show ?thesis
    by (auto simp: listener_inv_def counted_now_def split: acceptor.splits)
qed

text \<open>A server of one connection, with one counted and another counted after it.\<close>

definition full_listener :: listener where
  "full_listener = (listener_started 0)\<lparr>active := 2, live := 1, acceptor := Counted 1, accepted := 2\<rparr>"

lemma full_listener_reachable: "reachable_listener 1 0 full_listener"
proof -
  let ?step = "listener_step 1"
  let ?a = "listener_started 0"
  let ?b = "?a\<lparr>acceptor := Accepting\<rparr>" let ?c = "?a\<lparr>acceptor := Counted 0, active := 1, accepted := 1\<rparr>"
  let ?d = "?a\<lparr>active := 1, accepted := 1, live := 1\<rparr>" let ?e = "?d\<lparr>acceptor := Accepting\<rparr>"
  have "?step ?a ?b" using goes_on [of ?a 1] by (simp add: listener_step_def listener_started_def)
  moreover have "?step ?b ?c" using counts [of ?b 1] by (simp add: listener_step_def listener_started_def)
  moreover have "?step ?c ?d" using spawns [of ?c 0 1] by (simp add: listener_step_def listener_started_def)
  moreover have "?step ?d ?e" using goes_on [of ?d 1] by (simp add: listener_step_def listener_started_def)
  moreover have "?step ?e full_listener"
    using counts [of ?e 1] by (simp add: listener_step_def listener_started_def full_listener_def numeral_2_eq_2)
  ultimately show ?thesis
    unfolding reachable_listener_def by (meson rtranclp.rtrancl_into_rtrancl rtranclp.rtrancl_refl)
qed

theorem connections_bounded_witness:
  "live full_listener = 1 \<and> acceptor full_listener = Counted 1 \<and> active full_listener \<le> 1 + 1"
  using connections_bounded [OF full_listener_reachable] by (simp add: full_listener_def)

section \<open>Shutdown\<close>

definition ended :: "listener \<Rightarrow> bool" where
  "ended s = (acceptor s = AcceptFailed \<or> (\<exists>n. acceptor s = Drained n))"

fun accepts_left :: "listener \<Rightarrow> nat" where
  "accepts_left s = (if acceptor s = Accepting then 1 else 0)"

fun accept_steps_left :: "listener \<Rightarrow> nat" where
  "accept_steps_left s =
     (case acceptor s of Accepting \<Rightarrow> 5 | Counted _ \<Rightarrow> 4 | Checking \<Rightarrow> 3 | Draining _ \<Rightarrow> 2
      | Reporting \<Rightarrow> 1 | Drained _ \<Rightarrow> 0 | AcceptFailed \<Rightarrow> 0)"

lemma shutdown_step:
  assumes "listener_step max_conns s s'" "shutdown s"
  shows "shutdown s'" "accepted s' + accepts_left s' \<le> accepted s + accepts_left s"
  using assms by (auto simp: listener_step_def elim!: accept_stepE outside_stepE)

text \<open>Once the server is told to shut down it accepts at most one more connection, and
  that one only if it was already past looking at the flag.\<close>

theorem one_late_connection:
  assumes "shutdown s" "(listener_step max_conns)\<^sup>*\<^sup>* s s'"
  shows "shutdown s' \<and> accepted s' \<le> accepted s + (if acceptor s = Accepting then 1 else 0)"
proof -
  have "shutdown s' \<and> accepted s' + accepts_left s' \<le> accepted s + accepts_left s"
    using assms(2,1)
  proof (induction rule: rtranclp_induct)
    case (step y z)
    from step.IH [OF step.prems] shutdown_step [OF step.hyps(2)] show ?case by (meson order_trans)
  qed simp
  then show ?thesis by (simp split: if_splits)
qed

theorem one_late_connection_witness:
  "accepted (full_listener\<lparr>shutdown := True, acceptor := Checking, active := 1, refused := 1\<rparr>) \<le> 2"
proof -
  let ?s = "full_listener\<lparr>shutdown := True\<rparr>"
  have "accept_step 1 ?s (?s\<lparr>acceptor := Checking, active := 1, refused := 1\<rparr>)"
    using refuses [of ?s 1 1] by (simp add: full_listener_def listener_started_def)
  then have "(listener_step 1)\<^sup>*\<^sup>* ?s (?s\<lparr>acceptor := Checking, active := 1, refused := 1\<rparr>)"
    by (auto simp: listener_step_def)
  from one_late_connection [OF _ this] show ?thesis by (simp add: full_listener_def)
qed

text \<open>C38. Shutting down ends: from then on the accepting thread takes at most five more
  steps, nothing outside gives it more, and until it has ended it can take one, unless it is
  waiting for connections that are still served, before its deadline of thirty seconds.\<close>

theorem shutdown_ends:
  assumes "reachable_listener max_conns t s" "shutdown s" "\<not> ended s"
  shows "(\<nexists>s'. accept_step max_conns s s' \<and> accept_steps_left s \<le> accept_steps_left s') \<and>
    (\<nexists>s'. outside_step s s' \<and> accept_steps_left s' \<noteq> accept_steps_left s) \<and>
    accept_steps_left s \<le> 5 \<and>
    ((\<exists>s'. accept_step max_conns s s') \<or>
     (\<exists>deadline. acceptor s = Draining deadline \<and> 0 < live s \<and> now s < deadline))"
proof (intro conjI)
  show "\<nexists>s'. accept_step max_conns s s' \<and> accept_steps_left s \<le> accept_steps_left s'"
    using assms(2) by (auto elim!: accept_stepE)
  show "\<nexists>s'. outside_step s s' \<and> accept_steps_left s' \<noteq> accept_steps_left s"
    by (auto elim!: outside_stepE)
  show "accept_steps_left s \<le> 5" by (simp split: acceptor.split)
  have inv: "listener_inv max_conns s" by (rule reachable_listener_inv [OF assms(1)])
  show "(\<exists>s'. accept_step max_conns s s') \<or>
     (\<exists>deadline. acceptor s = Draining deadline \<and> 0 < live s \<and> now s < deadline)"
  proof (cases "acceptor s")
    case Checking
    then show ?thesis using stops_accepting [OF _ assms(2)] by blast
  next
    case Accepting
    then show ?thesis using nothing_to_accept by blast
  next
    case (Counted prev)
    then show ?thesis using refuses spawns by (meson not_le)
  next
    case (Draining deadline)
    then have "active s = live s" using inv by (simp add: listener_inv_def counted_now_def)
    with Draining show ?thesis
      using drains [OF Draining] by (cases "drain_over deadline s") (auto simp: drain_over_def)
  next
    case Reporting
    then show ?thesis using reports by blast
  qed (use assms(3) in \<open>simp_all add: ended_def\<close>)
qed

definition told_to_stop :: listener where
  "told_to_stop = (listener_started 0)\<lparr>shutdown := True\<rparr>"

theorem shutdown_ends_witness:
  "(\<exists>s'. accept_step 1 told_to_stop s') \<and> accept_steps_left told_to_stop = 3"
proof -
  have "outside_step (listener_started 0) told_to_stop"
    unfolding told_to_stop_def by (rule shutdown_requested)
  then have "reachable_listener 1 0 told_to_stop"
    by (auto simp: reachable_listener_def listener_step_def)
  from shutdown_ends [OF this] show ?thesis
    by (simp add: told_to_stop_def listener_started_def ended_def)
qed

end
