(* ===== verification/Storage.thy ===== *)
theory Storage
  imports DuckLake Schema Metrics Response
begin

text \<open>
  The storage of the server (\<^verbatim>\<open>src/src/storage/mod.rs\<close>, \<^verbatim>\<open>health.rs\<close>, the
  connections of \<^verbatim>\<open>query_conn.rs\<close>) and the gauges of \<^verbatim>\<open>src/src/http/router.rs\<close>:
  opening it, the connections of queries, probes and health, the bytes on disk. What the
  file system and the database answer are parameters.
\<close>

section \<open>Opening\<close>

record Storage =
  target_prefix :: string
  storage_mode :: string
  catalog_name :: string
  postgres_catalog_configured :: bool
  storage_dir :: string
  last_error :: "string option"

datatype OpenError = OpenFailed string | BootFailed BootError

text \<open>What opening runs on: the errors of the file system, of the database's statements, and of
  the statements on the catalog; the environment; the transform library's schema.\<close>

record Host =
  make_dir :: "string \<Rightarrow> string option"
  open_database :: "string \<Rightarrow> string option"
  database :: db_answers
  host_env :: environment
  catalog_faults :: faults
  transform_schema :: "schema_def list"

record World =
  sql_run :: "string list"
  catalog :: Catalog

type_synonym 'a opened = "World \<Rightarrow> (OpenError + 'a) \<times> World"

definition open_then :: "unit opened \<Rightarrow> 'a opened \<Rightarrow> 'a opened" where
  "open_then f g w = (case f w of (Inl e, w') \<Rightarrow> (Inl e, w') | (Inr _, w') \<Rightarrow> g w')"

definition on_host :: "string option \<Rightarrow> unit opened" where
  "on_host failure w = (case failure of Some e \<Rightarrow> (Inl (OpenFailed e), w) | None \<Rightarrow> (Inr (), w))"

definition on_connection ::
  "(string \<Rightarrow> string) \<Rightarrow> (string list \<Rightarrow> (string + unit) \<times> string list) \<Rightarrow> unit opened" where
  "on_connection context f w =
     (case f (sql_run w) of
        (Inl e, h) \<Rightarrow> (Inl (OpenFailed (context e)), w\<lparr>sql_run := h\<rparr>)
      | (Inr u, h) \<Rightarrow> (Inr (), w\<lparr>sql_run := h\<rparr>))"

definition on_catalog :: "unit boot \<Rightarrow> unit opened" where
  "on_catalog f w =
     (case f (catalog w) of
        (Inl e, c) \<Rightarrow> (Inl (BootFailed e), w\<lparr>catalog := c\<rparr>)
      | (Inr u, c) \<Rightarrow> (Inr (), w\<lparr>catalog := c\<rparr>))"

definition storage_of :: "Config \<Rightarrow> DuckLakeAttachPlan \<Rightarrow> Storage" where
  "storage_of config plan =
     \<lparr>target_prefix = DUCKLAKE_TARGET_PREFIX, storage_mode = plan_mode plan @ ''_query'',
      catalog_name = DUCKLAKE_CATALOG_NAME,
      postgres_catalog_configured = (postgres_dsn (operator config) \<noteq> None),
      storage_dir = local_storage_dir (operator config), last_error = None\<rparr>"

definition ATTACH_FAILED :: string where
  "ATTACH_FAILED = ''DuckLake attach failed. Fix the catalog config (URI, token, network, or extension path) and restart.''"

text \<open>Opening, up to the catalog; and then the catalog's tables and version.\<close>

definition connect_database :: "Host \<Rightarrow> Config \<Rightarrow> unit opened" where
  "connect_database host config =
     (let c = operator config in
      open_then (on_host (Option.bind (path_parent (duckdb_path c)) (make_dir host)))
     (open_then (on_host (make_dir host (local_storage_dir c)))
     (open_then (on_host (map_option (\<lambda>_. ''open DuckDB file '' @ duckdb_path c) (open_database host (duckdb_path c))))
     (open_then (on_connection (\<lambda>e. e) (configure_base_connection (database host)))
     (open_then (on_connection (\<lambda>e. e) (configure_write_connection (database host) (duckdb_write_memory_limit c)))
     (on_connection (\<lambda>_. ATTACH_FAILED)
        (attach_ducklake_connection (database host) (make_dir host) (host_env host) config)))))))"

definition prepare_catalog :: "Host \<Rightarrow> unit opened" where
  "prepare_catalog host =
     open_then (on_catalog (create_tables_on (catalog_faults host) DUCKLAKE_TARGET_PREFIX))
       (on_catalog (enforce_schema_version_on (catalog_faults host) (transform_schema host)))"

definition Storage_open :: "Host \<Rightarrow> Config \<Rightarrow> Storage opened" where
  "Storage_open host config =
     open_then (connect_database host config)
     (case ducklake_attach_plan config of
        Inl e \<Rightarrow> (\<lambda>w. (Inl (OpenFailed e), w))
      | Inr plan \<Rightarrow>
          open_then (prepare_catalog host) (\<lambda>w. (Inr (storage_of config plan), w)))"

section \<open>The connections of queries\<close>

text \<open>A clone of the reader, with the settings of one query; \<open>clone\<close> is the error of cloning.\<close>

definition open_scoped_query_connection ::
  "string option \<Rightarrow> db_answers \<Rightarrow> string list \<Rightarrow> (string + unit) \<times> string list" where
  "open_scoped_query_connection clone db hist =
     (case clone of
        Some _ \<Rightarrow> (Inl ''clone DuckDB connection'', hist)
      | None \<Rightarrow> configure_base_connection db hist)"

definition query_connection ::
  "string option \<Rightarrow> db_answers \<Rightarrow> string \<Rightarrow> string list \<Rightarrow> (string + unit) \<times> string list" where
  "query_connection clone db limit_text =
     run_then (open_scoped_query_connection clone db)
       (execute db (''SET memory_limit = '' @ [SQ] @ escape_value limit_text @ [SQ] @ '';''))"

definition timeout_message :: "nat \<Rightarrow> string" where
  "timeout_message millis = ''query timeout after '' @ show_nat millis @ ''ms''"

section \<open>What opening leaves behind\<close>

lemma open_then_eq: "open_then f g w = (r, w') \<longleftrightarrow>
   (\<exists>e. f w = (Inl e, w') \<and> r = Inl e) \<or> (\<exists>mid. f w = (Inr (), mid) \<and> g mid = (r, w'))"
  by (auto simp: open_then_def split: prod.splits sum.splits)

definition before_catalog :: "unit opened \<Rightarrow> bool" where
  "before_catalog f \<longleftrightarrow> (\<forall>w r w'. f w = (r, w') \<longrightarrow>
     catalog w' = catalog w \<and> (\<forall>e. r = Inl e \<longrightarrow> (\<exists>m. e = OpenFailed m)))"

lemma before_catalog_steps: "before_catalog (on_host failure)" "before_catalog (on_connection ctx f)"
  by (auto simp: before_catalog_def on_host_def on_connection_def split: option.splits prod.splits sum.splits)

lemma before_catalog_then:
  assumes "before_catalog f" "before_catalog g"
  shows "before_catalog (open_then f g)"
  using assms unfolding before_catalog_def open_then_eq by metis

lemma connect_before_catalog: "before_catalog (connect_database host config)"
  unfolding connect_database_def Let_def by (intro before_catalog_then before_catalog_steps)

lemma on_connection_Inr:
  "on_connection ctx f w = (Inr (), w') \<longleftrightarrow> f (sql_run w) = (Inr (), sql_run w') \<and> w' = w\<lparr>sql_run := sql_run w'\<rparr>"
  by (cases "f (sql_run w)"; cases "fst (f (sql_run w))") (auto simp: on_connection_def)

lemma execute_appends: "execute db stmt hist = (r, hist') \<Longrightarrow> hist' = hist @ [stmt]"
  by (auto simp: execute_def split: option.splits)

lemma connect_attached:
  assumes "connect_database host config w = (Inr (), w')"
  shows "\<exists>plan pre. ducklake_attach_plan config = Inr plan \<and>
    sql_run w' = sql_run w @ pre @ [plan_sql plan] \<and> extensions_loaded plan pre"
proof -
  let ?attach = "attach_ducklake_connection (database host) (make_dir host) (host_env host) config"
  obtain w1 w2 where configured:
      "on_connection (\<lambda>e. e) (configure_base_connection (database host)) w = (Inr (), w1)"
      "on_connection (\<lambda>e. e) (configure_write_connection (database host) (duckdb_write_memory_limit (operator config))) w1 = (Inr (), w2)"
    and attached: "on_connection (\<lambda>_. ATTACH_FAILED) ?attach w2 = (Inr (), w')"
    using assms by (auto simp: connect_database_def Let_def open_then_eq on_host_def split: option.splits)
  have "\<exists>a. sql_run w1 = sql_run w @ a" "\<exists>b. sql_run w2 = sql_run w1 @ b"
    using configured unfolding on_connection_Inr configure_base_connection_def configure_write_connection_def
    by (blast dest: execute_appends)+
  then obtain h where h: "sql_run w2 = sql_run w @ h" by (metis append.assoc)
  from attached have "?attach (sql_run w2) = (Inr (), sql_run w')" by (simp add: on_connection_Inr)
  from attach_order [OF this] obtain plan pre where
    "ducklake_attach_plan config = Inr plan" "sql_run w' = sql_run w2 @ pre @ [plan_sql plan]" "extensions_loaded plan pre"
    by blast
  moreover from this have "extensions_loaded plan (h @ pre)" by (auto simp: extensions_loaded_def)
  ultimately show ?thesis using h by (intro exI [of _ plan] exI [of _ "h @ pre"]) simp
qed

definition keeps_ddl :: "'a boot \<Rightarrow> bool" where
  "keeps_ddl f \<longleftrightarrow> (\<forall>cat. ddl (snd (f cat)) = ddl cat)"

lemma keeps_bind: "keeps_ddl f \<Longrightarrow> (\<And>x. keeps_ddl (g x)) \<Longrightarrow> keeps_ddl (boot_bind f g)"
  by (auto simp: keeps_ddl_def boot_bind_def split: prod.splits sum.splits) (metis snd_conv)+

lemma keeps_steps: "keeps_ddl (boot_ok a)" "keeps_ddl (boot_fail e)" "keeps_ddl (create_meta_table faults)"
  "keeps_ddl (read_meta_value faults key)"
  "keeps_ddl (statement_on faults ctx (\<lambda>cat. (Inr (), put_meta key v cat)))"
  by (auto simp: keeps_ddl_def boot_ok_def boot_fail_def create_meta_table_def read_meta_value_def
      statement_on_def put_meta_def split: option.split)

lemma keeps_set: "keeps_ddl (set_meta_if_changed faults key v)"
  unfolding set_meta_if_changed_def by (intro keeps_bind) (simp_all add: keeps_steps)

lemma keeps_check: "keeps_ddl (check_version raw)"
  unfolding check_version_def by (simp add: keeps_steps split: option.split)

lemma keeps_enforce: "keeps_ddl (enforce_schema_version_on faults defs)"
  unfolding enforce_schema_version_on_def settle_version_def record_provenance_def
  by (intro keeps_bind keeps_steps keeps_set) (auto simp: keeps_set keeps_check split: option.split)

lemma writes_ddl: "writes [] (execute_ddl faults ctx stmt)"
  by (auto simp: writes_def execute_ddl_def statement_on_def split: option.splits)

lemma writes_partitioning: "writes [] (configure_telemetry_partitioning_on faults prefix tables)"
  by (induction tables) (auto intro: writes_bind [where a = "[]" and b = "[]", simplified] writes_ddl)

lemma writes_tables: "writes [] (create_tables_on faults prefix)"
  unfolding create_tables_on_def
  using writes_bind [OF writes_ddl writes_partitioning] by simp

lemma partitioning_ddl:
  "configure_telemetry_partitioning_on faults prefix tables cat = (Inr u, cat') \<Longrightarrow>
   ddl cat' = ddl cat @ map (partition_sql prefix) tables"
  by (induction tables arbitrary: cat)
    (auto simp: boot_ok_def boot_bind_eq execute_ddl_def statement_on_def split: option.splits)

lemma tables_ddl:
  "create_tables_on faults prefix cat = (Inr u, cat') \<Longrightarrow>
   ddl cat' = ddl cat @ create_tables_ddl prefix # map (partition_sql prefix) SCHEMA_TABLES"
  by (auto simp: create_tables_on_def boot_bind_eq execute_ddl_def statement_on_def dest!: partitioning_ddl split: option.splits)

lemma on_catalog_Inr:
  "on_catalog f w = (Inr (), w') \<longleftrightarrow> f (catalog w) = (Inr (), catalog w') \<and> w' = w\<lparr>catalog := catalog w'\<rparr>"
  by (cases "f (catalog w)"; cases "fst (f (catalog w))") (auto simp: on_catalog_def)

lemma on_catalog_Inl:
  "on_catalog f w = (Inl e, w') \<Longrightarrow> \<exists>b. f (catalog w) = (Inl b, catalog w') \<and> e = BootFailed b"
  by (auto simp: on_catalog_def split: prod.splits sum.splits)

lemma prepare_catalog_result:
  assumes "prepare_catalog host w = (r, w')"
  shows "version_settled (stored VERSION_KEY (catalog w)) (stored VERSION_KEY (catalog w'))"
    "r = Inr () \<Longrightarrow> version_accepted (stored VERSION_KEY (catalog w')) \<and> sql_run w' = sql_run w \<and>
      ddl (catalog w') = ddl (catalog w) @
        create_tables_ddl DUCKLAKE_TARGET_PREFIX # map (partition_sql DUCKLAKE_TARGET_PREFIX) SCHEMA_TABLES"
proof -
  let ?tables = "create_tables_on (catalog_faults host) DUCKLAKE_TARGET_PREFIX"
  let ?enforce = "enforce_schema_version_on (catalog_faults host) (transform_schema host)"
  have same: "stored VERSION_KEY c' = stored VERSION_KEY c" if "?tables c = (x, c')" for x c c'
    using that writes_tables [of "catalog_faults host" DUCKLAKE_TARGET_PREFIX] by (simp add: writes_def)
  have guard: "version_settled (stored VERSION_KEY c) (stored VERSION_KEY c')"
      "x = Inr () \<Longrightarrow> version_accepted (stored VERSION_KEY c')" "ddl c' = ddl c"
    if "?enforce c = (x, c')" for x c c'
    using that keeps_enforce [of "catalog_faults host" "transform_schema host"]
      schema_guard [where faults = "catalog_faults host" and defs = "transform_schema host" and cat = c]
    by (simp_all add: keeps_ddl_def) (metis snd_conv)
  consider e where "on_catalog ?tables w = (Inl e, w')" "r = Inl e"
    | mid where "on_catalog ?tables w = (Inr (), mid)" "on_catalog ?enforce mid = (r, w')"
    using assms unfolding prepare_catalog_def open_then_eq by blast
  note outcomes = this
  show "version_settled (stored VERSION_KEY (catalog w)) (stored VERSION_KEY (catalog w'))"
    using outcomes
  proof cases
    case (1 e)
    then show ?thesis using same on_catalog_Inl by (fastforce simp: version_settled_def)
  next
    case (2 mid)
    have "\<exists>x. ?enforce (catalog mid) = (x, catalog w')"
      using 2(2) on_catalog_Inl [of ?enforce mid _ w'] on_catalog_Inr [of ?enforce mid w'] by (cases r) auto
    then show ?thesis using 2(1) same guard(1) unfolding on_catalog_Inr by metis
  qed
  assume ok: "r = Inr ()"
  show "version_accepted (stored VERSION_KEY (catalog w')) \<and> sql_run w' = sql_run w \<and>
      ddl (catalog w') = ddl (catalog w) @
        create_tables_ddl DUCKLAKE_TARGET_PREFIX # map (partition_sql DUCKLAKE_TARGET_PREFIX) SCHEMA_TABLES"
    using outcomes
  proof cases
    case (2 mid)
    then have "?enforce (catalog mid) = (Inr (), catalog w')" "?tables (catalog w) = (Inr (), catalog mid)"
      "w' = mid\<lparr>catalog := catalog w'\<rparr>" "mid = w\<lparr>catalog := catalog mid\<rparr>"
      unfolding ok on_catalog_Inr by blast+
    moreover from this(3,4) have "sql_run w' = sql_run w"
      by (metis World.select_convs(1) World.surjective World.update_convs(2))
    ultimately show ?thesis using guard(2,3) tables_ddl by metis
  qed (use ok in simp)
qed

lemma storage_guarded:
  "case Storage_open host config w of (r, w') \<Rightarrow>
     version_settled (stored VERSION_KEY (catalog w)) (stored VERSION_KEY (catalog w')) \<and>
     (case r of
        Inl (OpenFailed e) \<Rightarrow> catalog w' = catalog w
      | Inl (BootFailed e) \<Rightarrow> True
      | Inr storage \<Rightarrow>
          (\<exists>plan pre. ducklake_attach_plan config = Inr plan \<and> storage = storage_of config plan \<and>
            sql_run w' = sql_run w @ pre @ [plan_sql plan] \<and> extensions_loaded plan pre) \<and>
          ddl (catalog w') = ddl (catalog w) @
            create_tables_ddl DUCKLAKE_TARGET_PREFIX # map (partition_sql DUCKLAKE_TARGET_PREFIX) SCHEMA_TABLES \<and>
          version_accepted (stored VERSION_KEY (catalog w')))"
proof -
  obtain r w' where run: "Storage_open host config w = (r, w')" by force
  have refl: "version_settled v v" for v by (simp add: version_settled_def)
  have connect: "catalog v' = catalog v \<and> (\<forall>e. q = Inl e \<longrightarrow> (\<exists>m. e = OpenFailed m))"
    if "connect_database host config v = (q, v')" for q v v'
    using that connect_before_catalog [of host config] unfolding before_catalog_def by blast
  have failed: "version_settled (stored VERSION_KEY (catalog w)) (stored VERSION_KEY (catalog w')) \<and>
      (case e of OpenFailed m \<Rightarrow> catalog w' = catalog w | BootFailed b \<Rightarrow> True)"
    if "connect_database host config w = (Inl e, w')" for e
    using connect [OF that] refl by (auto split: OpenError.split)
  show ?thesis
  proof (cases "connect_database host config w")
    case (Pair q mid)
    show ?thesis
    proof (cases q)
      case (Inl e)
      with run Pair have "r = Inl e" "w' = mid" by (auto simp: Storage_open_def open_then_def)
      with failed [of e] Pair Inl run show ?thesis by (cases e) auto
    next
      case (Inr u)
      then have connected: "connect_database host config w = (Inr (), mid)" using Pair by simp
      from connect_attached [OF connected] obtain plan pre where
        plan: "ducklake_attach_plan config = Inr plan" "sql_run mid = sql_run w @ pre @ [plan_sql plan]"
          "extensions_loaded plan pre" by blast
      have rest: "open_then (prepare_catalog host) (\<lambda>w. (Inr (storage_of config plan), w)) mid = (r, w')"
        using run connected by (simp add: Storage_open_def open_then_eq plan(1))
      then consider e where "prepare_catalog host mid = (Inl e, w')" "r = Inl e"
        | "prepare_catalog host mid = (Inr (), w')" "r = Inr (storage_of config plan)"
        by (auto simp: open_then_eq)
      then show ?thesis
      proof cases
        case (1 e)
        have "\<exists>b. e = BootFailed b"
          using 1(1) unfolding prepare_catalog_def open_then_eq by (blast dest: on_catalog_Inl)
        with run 1 prepare_catalog_result [OF 1(1)] connect [OF connected] show ?thesis by auto
      next
        case 2
        with run plan prepare_catalog_result [OF 2(1)] connect [OF connected] show ?thesis by simp
      qed
    qed
  qed
qed

text \<open>C8. Opening the storage fails closed. Whatever fails, the schema version of the catalog
  is the one before, or there was none and it is this binary's; a failure before the catalog
  is attached leaves the catalog alone. When opening succeeds, the catalog was attached
  after the extensions it needs, by the plan's own statements and nothing after them, its
  tables were created and partitioned, and its version is one this binary accepts.\<close>

theorem storage_opens_guarded:
  "case Storage_open host config w of (r, w') \<Rightarrow>
     version_settled (stored VERSION_KEY (catalog w)) (stored VERSION_KEY (catalog w')) \<and>
     (case r of
        Inl (OpenFailed e) \<Rightarrow> catalog w' = catalog w
      | Inl (BootFailed e) \<Rightarrow> True
      | Inr storage \<Rightarrow>
          (\<exists>plan pre. ducklake_attach_plan config = Inr plan \<and> storage = storage_of config plan \<and>
            sql_run w' = sql_run w @ pre @ [plan_sql plan] \<and> extensions_loaded plan pre) \<and>
          ddl (catalog w') = ddl (catalog w) @
            create_tables_ddl DUCKLAKE_TARGET_PREFIX # map (partition_sql DUCKLAKE_TARGET_PREFIX) SCHEMA_TABLES \<and>
          version_accepted (stored VERSION_KEY (catalog w')))"
  by (rule storage_guarded)

end
