(* ===== verification/Health.thy ===== *)
theory Health
  imports Storage
begin

text \<open>
  The health of the storage (\<^verbatim>\<open>src/src/storage/health.rs\<close>): the check, the probe and the
  health document, the bytes on disk, and the gauges that \<^verbatim>\<open>/metrics\<close> records from the
  document (\<^verbatim>\<open>record_storage_operator_gauges\<close> of \<^verbatim>\<open>src/src/http/router.rs\<close>). What
  the database answers is a parameter, and so is \<open>f64\<close>.
\<close>

section \<open>What the database answers\<close>

record 'f Reader =
  select_one :: "string option"
  prepares :: "string \<Rightarrow> string option"
  count_rows :: "string \<Rightarrow> string + int"
  latest :: "string \<Rightarrow> string + (string option \<times> 'f option)"
  layout_rows :: "string \<Rightarrow> string + (string + (int \<times> string \<times> int \<times> int)) list"
  lag_since :: "'f \<Rightarrow> 'f"

text \<open>Numbers: \<open>i64\<close> and \<open>u64\<close> as \<open>f64\<close>, and which are finite; the others are \<open>null\<close> in JSON.\<close>

record 'f Numbers =
  of_i64 :: "int \<Rightarrow> 'f"
  of_u64 :: "64 word \<Rightarrow> 'f"
  is_finite :: "'f \<Rightarrow> bool"

definition json_f64 :: "'f Numbers \<Rightarrow> 'f option \<Rightarrow> 'f json" where
  "json_f64 num x = (case x of Some v \<Rightarrow> if is_finite num v then JFloat v else JNull | None \<Rightarrow> JNull)"

definition json_opt_str :: "string option \<Rightarrow> 'f json" where
  "json_opt_str s = (case s of Some v \<Rightarrow> JString v | None \<Rightarrow> JNull)"

fun json_as_f64 :: "'f Numbers \<Rightarrow> 'f json \<Rightarrow> 'f option" where
  "json_as_f64 num (JFloat v) = Some v"
| "json_as_f64 num (JNat n) = Some (of_u64 num (word_of_nat n))"
| "json_as_f64 num (JNegative i) = Some (of_i64 num i)"
| "json_as_f64 num _ = None"

section \<open>The check and the probe\<close>

definition check_health_target :: "'f Reader \<Rightarrow> Storage \<Rightarrow> string + unit" where
  "check_health_target db st =
     (case select_one db of
        Some e \<Rightarrow> Inl e
      | None \<Rightarrow>
          (case prepares db (''SELECT * FROM '' @ target_prefix st @ signal_as_str LogsSignal @ '' LIMIT 0'') of
             Some e \<Rightarrow> Inl e
           | None \<Rightarrow> Inr ()))"

definition healthy :: "'f Reader \<Rightarrow> Storage \<Rightarrow> bool \<times> Storage" where
  "healthy db st =
     (case check_health_target db st of
        Inr _ \<Rightarrow> (True, st\<lparr>last_error := None\<rparr>)
      | Inl e \<Rightarrow> (False, st\<lparr>last_error := Some e\<rparr>))"

record StorageProbe =
  probe_healthy :: bool
  probe_mode :: string
  probe_error :: "string option"

definition probe :: "'f Reader \<Rightarrow> Storage \<Rightarrow> StorageProbe \<times> Storage" where
  "probe db st =
     (case healthy db st of (h, st') \<Rightarrow>
        (\<lparr>probe_healthy = h, probe_mode = storage_mode st', probe_error = last_error st'\<rparr>, st'))"

definition probe_json :: "StorageProbe \<Rightarrow> 'f json" where
  "probe_json p =
     JObject [(''healthy'', JBool (probe_healthy p)), (''last_error'', json_opt_str (probe_error p)),
              (''mode'', JString (probe_mode p))]"

section \<open>The health document\<close>

text \<open>One entry for every signal, or the first error.\<close>

fun signal_map :: "(StorageSignal \<Rightarrow> string + 'f json) \<Rightarrow> StorageSignal list \<Rightarrow> (string, 'f json) btree \<Rightarrow> string + 'f json" where
  "signal_map f [] m = Inr (JObject m)"
| "signal_map f (s # ss) m = and_then (f s) (\<lambda>v. signal_map f ss (bt_insert (signal_as_str s) v m))"

definition watermark_sql :: "Storage \<Rightarrow> StorageSignal \<Rightarrow> string" where
  "watermark_sql st s =
     (let ts = table_timestamp_column s in
      ''SELECT max('' @ ts @ '')::VARCHAR, epoch(max('' @ ts @ '')) FROM '' @ target_prefix st @ signal_as_str s)"

definition freshness_watermarks :: "'f Numbers \<Rightarrow> 'f Reader \<Rightarrow> Storage \<Rightarrow> string + 'f json" where
  "freshness_watermarks num db st =
     signal_map (\<lambda>s. map_ok (\<lambda>(watermark, epoch).
         let lag = map_option (lag_since db) epoch in
         JObject [(''epoch_seconds'', json_f64 num epoch), (''event_lag_seconds'', json_f64 num lag),
                  (''lag_seconds'', json_f64 num lag), (''timestamp'', json_opt_str watermark)])
       (latest db (watermark_sql st s))) ALL_SIGNALS []"

definition count_sql :: "Storage \<Rightarrow> StorageSignal \<Rightarrow> string" where
  "count_sql st s = ''SELECT count(*) FROM '' @ target_prefix st @ signal_as_str s"

definition logical_rows :: "'f Reader \<Rightarrow> Storage \<Rightarrow> string + 'f json" where
  "logical_rows db st = signal_map (\<lambda>s. map_ok json_int (count_rows db (count_sql st s))) ALL_SIGNALS []"

definition layout_sql :: "Storage \<Rightarrow> string" where
  "layout_sql st =
     (let prefix = ducklake_metadata_prefix (catalog_name st) in
      ''SELECT t.table_id, t.table_name, count(f.data_file_id), coalesce(sum(f.record_count), 0) FROM '' @
      prefix @ ''ducklake_table t LEFT JOIN '' @ prefix @
      ''ducklake_data_file f ON f.table_id = t.table_id AND f.end_snapshot IS NULL WHERE t.end_snapshot IS NULL GROUP BY t.table_id, t.table_name'')"

fun layout_map :: "(string + (int \<times> string \<times> int \<times> int)) list \<Rightarrow> (string, 'f json) btree \<Rightarrow> string + (string, 'f json) btree" where
  "layout_map [] m = Inr m"
| "layout_map (row # rows) m =
     and_then row (\<lambda>(table_id, table_name, files, file_rows).
       layout_map rows (bt_insert table_name
         (JObject [(''active_data_file_rows'', json_int file_rows), (''active_data_files'', json_int files),
                   (''table_id'', json_int table_id)]) m))"

definition ducklake_storage_layout :: "'f Reader \<Rightarrow> Storage \<Rightarrow> string + 'f json" where
  "ducklake_storage_layout db st =
     and_then (layout_rows db (layout_sql st)) (\<lambda>rows.
     map_ok (\<lambda>tables. JObject [(''supported'', JBool True), (''tables'', JObject tables)]) (layout_map rows []))"

text \<open>A part that fails is the error, in the document.\<close>

definition or_error :: "string + 'f json \<Rightarrow> 'f json" where
  "or_error r = (case r of Inr v \<Rightarrow> v | Inl e \<Rightarrow> JObject [(''error'', JString e)])"

section \<open>The bytes on disk\<close>

text \<open>
  What walking the storage directory meets: a file and its length, a directory and its
  entries, or something that cannot be read. A symbolic link is a file, as its own metadata
  is read. Sums wrap around as they do in a release build.
\<close>

datatype fs_node = FsFile "64 word" | FsDir "fs_node list" | FsError string

fun node_size :: "fs_node \<Rightarrow> string + 64 word" and dir_total :: "64 word \<Rightarrow> fs_node list \<Rightarrow> string + 64 word" where
  "node_size (FsFile n) = Inr n"
| "node_size (FsDir nodes) = dir_total 0 nodes"
| "node_size (FsError e) = Inl e"
| "dir_total acc [] = Inr acc"
| "dir_total acc (n # nodes) = and_then (node_size n) (\<lambda>k. dir_total (acc + k) nodes)"

definition dir_size :: "fs_node option \<Rightarrow> string + 64 word" where
  "dir_size root =
     (case root of
        None \<Rightarrow> Inr 0
      | Some (FsFile _) \<Rightarrow> Inl ''not a directory''
      | Some node \<Rightarrow> node_size node)"

record 'f StorageHealth =
  health_healthy :: bool
  health_mode :: string
  health_catalog :: string
  health_postgres :: bool
  health_error :: "string option"
  health_watermarks :: "'f json"
  health_rows :: "'f json"
  health_layout :: "'f json"
  physical_bytes :: "64 word"

definition health :: "'f Numbers \<Rightarrow> 'f Reader \<Rightarrow> fs_node option \<Rightarrow> Storage \<Rightarrow> 'f StorageHealth \<times> Storage" where
  "health num db disk st =
     (case healthy db st of (h, st') \<Rightarrow>
        (\<lparr>health_healthy = h, health_mode = storage_mode st', health_catalog = catalog_name st',
          health_postgres = postgres_catalog_configured st', health_error = last_error st',
          health_watermarks = or_error (freshness_watermarks num db st'),
          health_rows = or_error (logical_rows db st'),
          health_layout = or_error (ducklake_storage_layout db st'),
          physical_bytes = (case dir_size disk of Inr n \<Rightarrow> n | Inl _ \<Rightarrow> 0)\<rparr>, st'))"

definition health_json :: "'f StorageHealth \<Rightarrow> 'f json" where
  "health_json h =
     JObject [(''capabilities'', JObject [(''insert'', JBool False), (''query'', JBool True)]),
       (''ducklake_catalog'', JString (health_catalog h)), (''ducklake_storage_layout'', health_layout h),
       (''freshness_watermarks'', health_watermarks h), (''healthy'', JBool (health_healthy h)),
       (''last_error'', json_opt_str (health_error h)), (''logical_rows'', health_rows h),
       (''mode'', JString (health_mode h)), (''physical_bytes'', JNat (unat (physical_bytes h))),
       (''postgres_catalog_configured'', JBool (health_postgres h))]"

section \<open>The gauges\<close>

fun json_entries :: "'f json \<Rightarrow> (string \<times> 'f json) list" where
  "json_entries (JObject kvs) = kvs"
| "json_entries _ = []"

text \<open>What is recorded, in order: the metric, the table and the value.\<close>

definition rows_gauges :: "'f Numbers \<Rightarrow> 'f json \<Rightarrow> (MetricName \<times> string \<times> 'f) list" where
  "rows_gauges num rows =
     List.map_filter (\<lambda>(table, v). map_option (\<lambda>n. (StorageLogicalRows, table, of_i64 num n)) (json_as_i64 v))
       (json_entries rows)"

definition layout_gauges :: "'f Numbers \<Rightarrow> 'f json \<Rightarrow> (MetricName \<times> string \<times> 'f) list" where
  "layout_gauges num layout =
     (case json_get ''tables'' layout of
        Some tables \<Rightarrow>
          concat (map (\<lambda>(table, v).
            List.map_filter (\<lambda>(metric, field).
                map_option (\<lambda>n. (metric, table, of_i64 num n)) (Option.bind (json_get field v) json_as_i64))
              [(DucklakeActiveDataFiles, ''active_data_files''), (DucklakeActiveDataFileRows, ''active_data_file_rows'')])
            (json_entries tables))
      | None \<Rightarrow> [])"

definition watermark_gauges :: "'f Numbers \<Rightarrow> 'f json \<Rightarrow> (MetricName \<times> string \<times> 'f) list" where
  "watermark_gauges num watermarks =
     List.map_filter (\<lambda>(table, v).
         map_option (\<lambda>epoch. (FreshnessWatermarkTimestamp, table, epoch))
           (Option.bind (json_get ''epoch_seconds'' v) (json_as_f64 num)))
       (json_entries watermarks)"

definition operator_gauges :: "'f Numbers \<Rightarrow> 'f StorageHealth \<Rightarrow> (MetricName \<times> string \<times> 'f) list" where
  "operator_gauges num h =
     (StoragePhysicalBytes, ''all'', of_u64 num (physical_bytes h)) # rows_gauges num (health_rows h) @
     layout_gauges num (health_layout h) @ watermark_gauges num (health_watermarks h)"

definition storage_signal_gauge :: "MetricName \<Rightarrow> string \<Rightarrow> 'f \<Rightarrow> 'f Metrics \<Rightarrow> 'f Metrics option" where
  "storage_signal_gauge nm table v m = metric_gauge nm [(''storage_signal'', table)] v m"

fun record_gauges :: "(MetricName \<times> string \<times> 'f) list \<Rightarrow> 'f Metrics \<Rightarrow> 'f Metrics option" where
  "record_gauges [] m = Some m"
| "record_gauges ((nm, table, v) # gs) m = Option.bind (storage_signal_gauge nm table v m) (record_gauges gs)"

definition record_operator_gauges ::
  "'f Numbers \<Rightarrow> 'f Reader \<Rightarrow> fs_node option \<Rightarrow> Storage \<Rightarrow> 'f Metrics \<Rightarrow> 'f Metrics option \<times> Storage" where
  "record_operator_gauges num db disk st m =
     (case health num db disk st of (h, st') \<Rightarrow> (record_gauges (operator_gauges num h) m, st'))"

section \<open>Probes\<close>

text \<open>A probe tells the truth: it is ready exactly when the database answers and the table
  of logs can be read; it names an error exactly when it is not ready, the check's own; and
  it changes nothing but the error remembered, so that the error of an earlier probe never
  outlives a healthy one. The health document says the same.\<close>

theorem probe_truthful:
  "case probe db st of (p, st') \<Rightarrow>
     probe_healthy p = (check_health_target db st = Inr ()) \<and>
     probe_error p = (case check_health_target db st of Inl e \<Rightarrow> Some e | Inr _ \<Rightarrow> None) \<and>
     st' = st\<lparr>last_error := probe_error p\<rparr> \<and>
     (case health num db disk st of (h, st'') \<Rightarrow>
        st'' = st' \<and> health_healthy h = probe_healthy p \<and> health_error h = probe_error p)"
  by (cases "check_health_target db st") (simp_all add: probe_def healthy_def health_def)

section \<open>The bytes on disk are the lengths of the files\<close>

fun file_lengths :: "fs_node \<Rightarrow> 64 word list" where
  "file_lengths (FsFile n) = [n]"
| "file_lengths (FsDir nodes) = concat (map file_lengths nodes)"
| "file_lengths (FsError e) = []"

fun readable_tree :: "fs_node \<Rightarrow> bool" where
  "readable_tree (FsFile n) = True"
| "readable_tree (FsDir nodes) = list_all readable_tree nodes"
| "readable_tree (FsError e) = False"

lemma node_size_sum:
  "is_ok (node_size t) = readable_tree t \<and> (readable_tree t \<longrightarrow> node_size t = Inr (sum_list (file_lengths t)))"
proof (induction t)
  case (FsDir nodes)
  have "is_ok (dir_total acc nodes) = list_all readable_tree nodes \<and>
      (list_all readable_tree nodes \<longrightarrow> dir_total acc nodes = Inr (acc + sum_list (concat (map file_lengths nodes))))"
    for acc using FsDir
  proof (induction nodes arbitrary: acc)
    case (Cons n nodes)
    then show ?case using Cons.prems [of n] by (cases "node_size n") (auto simp: add.assoc)
  qed simp
  then show ?case by simp
qed simp_all

text \<open>C39. The bytes reported for the storage directory are the sum of the lengths of the files
  under it, however deep, modulo the width of the number; and nothing is reported, not a part
  of the sum, when anything under it cannot be read.\<close>

theorem dir_size_exact:
  "(dir_size (Some (FsDir nodes)) = Inr n \<longleftrightarrow>
      readable_tree (FsDir nodes) \<and> n = sum_list (file_lengths (FsDir nodes))) \<and>
   physical_bytes (fst (health num db (Some (FsDir nodes)) st)) =
     (if readable_tree (FsDir nodes) then sum_list (file_lengths (FsDir nodes)) else 0)"
proof -
  have "dir_size (Some (FsDir nodes)) = node_size (FsDir nodes)" by (simp add: dir_size_def)
  with node_size_sum [of "FsDir nodes"] show ?thesis
    by (cases "node_size (FsDir nodes)") (auto simp: health_def split: prod.splits)
qed

section \<open>The gauges are what the database says\<close>

lemma map_of_unique:
  assumes "(k, v) \<in> set xs" "\<And>v'. (k, v') \<in> set xs \<Longrightarrow> v' = v"
  shows "map_of xs k = Some v"
proof -
  obtain w where w: "map_of xs k = Some w" using weak_map_of_SomeI [OF assms(1)] by blast
  with assms(2) [OF map_of_SomeD [OF w]] show ?thesis by simp
qed

abbreviation "gauge_id nm table \<equiv> MetricId (metric_as_str nm) [(''storage_signal'', table)]"

definition storage_gauge :: "MetricName \<Rightarrow> bool" where
  "storage_gauge nm =
     (nm \<in> {StoragePhysicalBytes, StorageLogicalRows, DucklakeActiveDataFiles, DucklakeActiveDataFileRows,
            FreshnessWatermarkTimestamp})"

lemma storage_gauge_recorded:
  "storage_gauge nm \<Longrightarrow> storage_signal_gauge nm table v m = Some (in_shard (gauge_id nm table) (put_gauge (gauge_id nm table) v) m)"
  by (auto simp: storage_gauge_def storage_signal_gauge_def metric_gauge_def validate_metric_labels_def Let_def)

lemma record_gauges_total: "list_all (\<lambda>(nm, table, v). storage_gauge nm) gs \<Longrightarrow> record_gauges gs m \<noteq> None"
  by (induction gs arbitrary: m) (auto simp: storage_gauge_recorded)

lemma record_gauges_effect:
  assumes "registry_ok m" "list_all (\<lambda>(nm, table, v). storage_gauge nm) gs"
  shows "\<exists>m'. record_gauges gs m = Some m' \<and> registry_ok m' \<and>
    counters (merged_shards m') = counters (merged_shards m) \<and>
    bt_get (gauges (merged_shards m')) =
      bt_get (gauges (merged_shards m)) ++ map_of (rev (map (\<lambda>(nm, table, v). (gauge_id nm table, v)) gs))"
  using assms
proof (induction gs arbitrary: m)
  case (Cons g gs)
  obtain nm table v where g: "g = (nm, table, v)" by (cases g)
  let ?m = "in_shard (gauge_id nm table) (put_gauge (gauge_id nm table) v) m"
  have now: "registry_ok ?m" "merged_shards ?m = put_gauge (gauge_id nm table) v (merged_shards m)"
    using sim_put_gauge [OF Cons.prems(1), of "gauge_id nm table" v] by blast+
  have "storage_signal_gauge nm table v m = Some ?m"
    using Cons.prems(2) by (simp add: g storage_gauge_recorded)
  moreover obtain m' where rest: "record_gauges gs ?m = Some m'" "registry_ok m'"
      "counters (merged_shards m') = counters (merged_shards ?m)"
      "bt_get (gauges (merged_shards m')) =
        bt_get (gauges (merged_shards ?m)) ++ map_of (rev (map (\<lambda>(nm, table, v). (gauge_id nm table, v)) gs))"
    using Cons.IH [OF now(1)] Cons.prems(2) by auto
  moreover have "bt_get (gauges (merged_shards ?m)) ++ map_of (rev (map (\<lambda>(nm, table, v). (gauge_id nm table, v)) gs)) =
      bt_get (gauges (merged_shards m)) ++ map_of (rev (map (\<lambda>(nm, table, v). (gauge_id nm table, v)) (g # gs)))"
    unfolding now(2) by (simp add: g put_gauge_def fun_eq_iff map_add_def split: option.split)
  ultimately show ?case by (simp add: g now(2)) (simp add: put_gauge_def)
qed simp

lemma in_map_filter: "x \<in> set (List.map_filter f xs) \<longleftrightarrow> (\<exists>y \<in> set xs. f y = Some x)"
  by (induction xs) (auto simp: List.map_filter_simps split: option.split)

lemma operator_gauges_storage: "list_all (\<lambda>(nm, table, v). storage_gauge nm) (operator_gauges num h)"
  unfolding list_all_iff operator_gauges_def rows_gauges_def layout_gauges_def watermark_gauges_def storage_gauge_def
  by (auto simp: in_map_filter split: option.splits if_splits)

lemma signal_map_all:
  assumes "\<And>s. f s = Inr (g s)"
  shows "\<exists>m'. signal_map f ss m = Inr (JObject m') \<and> (bt_wf m \<longrightarrow> bt_wf m') \<and>
    (\<forall>s. bt_get m' (signal_as_str s) = (if s \<in> set ss then Some (g s) else bt_get m (signal_as_str s)))"
proof (induction ss arbitrary: m)
  case (Cons s ss)
  from Cons.IH [of "bt_insert (signal_as_str s) (g s) m"] show ?case
    by (auto simp: assms signal_as_str_inj)
qed simp

lemma in_bt_wf: "bt_wf m \<Longrightarrow> (k, v) \<in> set m \<longleftrightarrow> bt_get m k = Some v"
  using bt_wf_distinct [of m] by (auto simp: bt_get_def map_of_eq_Some_iff)

lemma rows_part:
  "(StorageLogicalRows, table, v) \<in> set (operator_gauges num h) \<longleftrightarrow>
     (StorageLogicalRows, table, v) \<in> set (rows_gauges num (health_rows h))"
  by (auto simp: operator_gauges_def layout_gauges_def watermark_gauges_def in_map_filter split: option.splits if_splits)

lemma metric_as_str_rows: "metric_as_str a = metric_as_str StorageLogicalRows \<longleftrightarrow> a = StorageLogicalRows"
  "metric_as_str StorageLogicalRows = metric_as_str a \<longleftrightarrow> a = StorageLogicalRows"
  by (cases a; simp)+

text \<open>C40. The gauges of \<open>/metrics\<close> are what the database says: whatever else the database
  answers, and whatever was recorded before, recording never panics, leaves every counter
  as it was, and sets, for every table, the gauge of its rows to the count the database gave.\<close>

theorem gauges_reflect_counts:
  assumes "registry_ok m" "\<And>s. count_rows db (count_sql st s) = Inr (n s)"
    "\<And>s. - (2 ^ 63) \<le> n s \<and> n s < 2 ^ 63"
  shows "\<exists>m'. fst (record_operator_gauges num db disk st m) = Some m' \<and> registry_ok m' \<and>
    counters (merged_shards m') = counters (merged_shards m) \<and>
    (\<forall>s. bt_get (gauges (merged_shards m')) (gauge_id StorageLogicalRows (signal_as_str s)) =
       Some (of_i64 num (n s)))"
proof -
  obtain h st' where h: "health num db disk st = (h, st')" by force
  have rows: "health_rows h = or_error (logical_rows db st)"
    using h by (auto simp: health_def healthy_def logical_rows_def count_sql_def split: sum.splits)
  obtain kvs where kvs: "logical_rows db st = Inr (JObject kvs)" "bt_wf kvs"
      "\<And>s. bt_get kvs (signal_as_str s) = Some (json_int (n s))"
    using signal_map_all [of "\<lambda>s. map_ok json_int (count_rows db (count_sql st s))" "\<lambda>s. json_int (n s)" ALL_SIGNALS "[]"]
      assms(2) all_signals by (auto simp: logical_rows_def)
  have entry: "(signal_as_str s, v) \<in> set kvs \<longleftrightarrow> v = json_int (n s)" for s v
    using in_bt_wf [OF kvs(2), of "signal_as_str s" v] kvs(3) [of s] by auto
  have number: "json_as_i64 (json_int (n s)) = Some (n s)" for s
    using assms(3) [of s] by (auto simp: json_int_def)
  have recorded: "(StorageLogicalRows, signal_as_str s, v) \<in> set (operator_gauges num h) \<longleftrightarrow> v = of_i64 num (n s)" for s v
    unfolding rows_part rows kvs(1) rows_gauges_def or_error_def
    by (auto simp: in_map_filter entry number intro!: bexI [of _ "(signal_as_str s, json_int (n s))"])
  obtain m' where m': "record_gauges (operator_gauges num h) m = Some m'" "registry_ok m'"
      "counters (merged_shards m') = counters (merged_shards m)"
      "bt_get (gauges (merged_shards m')) = bt_get (gauges (merged_shards m)) ++
        map_of (rev (map (\<lambda>(nm, table, v). (gauge_id nm table, v)) (operator_gauges num h)))"
    using record_gauges_effect [OF assms(1) operator_gauges_storage] by blast
  have "map_of (rev (map (\<lambda>(nm, table, v). (gauge_id nm table, v)) (operator_gauges num h)))
      (gauge_id StorageLogicalRows (signal_as_str s)) = Some (of_i64 num (n s))" for s
  proof (rule map_of_unique)
    show "(gauge_id StorageLogicalRows (signal_as_str s), of_i64 num (n s))
        \<in> set (rev (map (\<lambda>(nm, table, v). (gauge_id nm table, v)) (operator_gauges num h)))"
      using recorded [of s "of_i64 num (n s)"] by force
    show "v = of_i64 num (n s)" if "(gauge_id StorageLogicalRows (signal_as_str s), v)
        \<in> set (rev (map (\<lambda>(nm, table, v). (gauge_id nm table, v)) (operator_gauges num h)))" for v
      using that recorded [of s v] by (auto simp: metric_as_str_rows simp del: metric_as_str.simps)
  qed
  with m' h show ?thesis by (auto simp: record_operator_gauges_def map_add_def)
qed

definition sample_numbers :: "int Numbers" where
  "sample_numbers = \<lparr>of_i64 = (\<lambda>i. i), of_u64 = uint, is_finite = (\<lambda>_. True)\<rparr>"

definition sample_reader :: "int Reader" where
  "sample_reader =
     \<lparr>select_one = None, prepares = (\<lambda>_. None), count_rows = (\<lambda>_. Inr 7),
      latest = (\<lambda>_. Inl ''no rows''), layout_rows = (\<lambda>_. Inr []), lag_since = (\<lambda>x. x)\<rparr>"

definition sample_storage :: Storage where
  "sample_storage =
     \<lparr>target_prefix = DUCKLAKE_TARGET_PREFIX, storage_mode = ''ducklake_duckdb_catalog_query'',
      catalog_name = DUCKLAKE_CATALOG_NAME, postgres_catalog_configured = False, storage_dir = ''/s'',
      last_error = Some ''earlier''\<rparr>"

theorem gauges_reflect_counts_witness:
  "\<exists>m'. fst (record_operator_gauges sample_numbers sample_reader None sample_storage metrics_new) = Some m' \<and>
     bt_get (gauges (merged_shards m')) (gauge_id StorageLogicalRows ''otlp_logs'') = Some 7"
proof -
  have "count_rows sample_reader (count_sql sample_storage s) = Inr 7" for s
    by (simp add: sample_reader_def)
  from gauges_reflect_counts [OF registry_new, of sample_reader sample_storage "\<lambda>_. 7" sample_numbers None, OF this]
  obtain m' where m': "fst (record_operator_gauges sample_numbers sample_reader None sample_storage metrics_new) = Some m'"
    "\<And>s. bt_get (gauges (merged_shards m')) (gauge_id StorageLogicalRows (signal_as_str s)) = Some (of_i64 sample_numbers 7)"
    by auto
  from m'(2) [of LogsSignal] have "bt_get (gauges (merged_shards m')) (gauge_id StorageLogicalRows ''otlp_logs'') = Some 7"
    by (simp add: sample_numbers_def)
  with m'(1) show ?thesis by blast
qed

section \<open>Probes that interleave\<close>

text \<open>
  \<open>probe\<close> takes the lock of the reader, then that of the error, then that of the error again:
  between them another request's probe may run. A list of probes, each of which has not
  begun, has checked, has remembered, or has answered, over the error remembered. What a
  check finds is the database's, at that moment.
\<close>

datatype probe_state = Begun | Checked "string + unit" | Remembered bool | Reported bool "string option"

type_synonym probes = "probe_state list \<times> string option"

inductive probe_step :: "probes \<Rightarrow> probes \<Rightarrow> bool" where
  checks: "i < length ts \<Longrightarrow> ts ! i = Begun \<Longrightarrow> probe_step (ts, err) (ts[i := Checked r], err)"
| remembers_ok: "i < length ts \<Longrightarrow> ts ! i = Checked (Inr ()) \<Longrightarrow> probe_step (ts, err) (ts[i := Remembered True], None)"
| remembers_error: "i < length ts \<Longrightarrow> ts ! i = Checked (Inl e) \<Longrightarrow> probe_step (ts, err) (ts[i := Remembered False], Some e)"
| reports: "i < length ts \<Longrightarrow> ts ! i = Remembered ok \<Longrightarrow> probe_step (ts, err) (ts[i := Reported ok err], err)"

text \<open>A probe may so report itself ready with the error of another, or not ready with none.\<close>

lemma probes_can_disagree:
  "probe_step\<^sup>*\<^sup>* ([Begun, Begun], None) ([Reported True (Some e), Reported False (Some e)], Some e)"
proof -
  have "probe_step ([Begun, Begun], None) ([Checked (Inr ()), Begun], None)"
    using checks [of 0 "[Begun, Begun]"] by simp
  moreover have "probe_step ([Checked (Inr ()), Begun], None) ([Remembered True, Begun], None)"
    using remembers_ok [of 0 "[Checked (Inr ()), Begun]"] by simp
  moreover have "probe_step ([Remembered True, Begun], None) ([Remembered True, Checked (Inl e)], None)"
    using checks [of 1 "[Remembered True, Begun]"] by simp
  moreover have "probe_step ([Remembered True, Checked (Inl e)], None) ([Remembered True, Remembered False], Some e)"
    using remembers_error [of 1 "[Remembered True, Checked (Inl e)]"] by simp
  moreover have "probe_step ([Remembered True, Remembered False], Some e) ([Reported True (Some e), Remembered False], Some e)"
    using reports [of 0 "[Remembered True, Remembered False]"] by simp
  moreover have "probe_step ([Reported True (Some e), Remembered False], Some e)
      ([Reported True (Some e), Reported False (Some e)], Some e)"
    using reports [of 1 "[Reported True (Some e), Remembered False]" False "Some e"] by simp
  ultimately show ?thesis by (meson converse_rtranclp_into_rtranclp rtranclp.rtrancl_refl)
qed

end
