(* ===== verification/Router_Laws.thy ===== *)
theory Router_Laws
  imports Server
begin

text \<open>
  What requests keep: a relation between states that every service respects, in particular
  under admission, is respected by every request, whichever route it takes, and by every
  connection. The services are an interface; \<^verbatim>\<open>App\<close> provides them.
\<close>

text \<open>\<open>keeps_to\<close> says that an action respects the relation, also when it panics.\<close>

definition keeps_to :: "('s \<Rightarrow> 's \<Rightarrow> bool) \<Rightarrow> ('s \<Rightarrow> 'a \<times> 's) \<Rightarrow> bool" where
  "keeps_to keeps run \<longleftrightarrow> (\<forall>s. keeps s (snd (run s)))"

lemma keeps_toI: "(\<And>s. keeps s (snd (run s))) \<Longrightarrow> keeps_to keeps run"
  by (simp add: keeps_to_def)

lemma keeps_toD: "keeps_to keeps run \<Longrightarrow> keeps s (snd (run s))"
  by (simp add: keeps_to_def)

lemma seq_do_keeps:
  "(\<And>s t u. keeps s t \<Longrightarrow> keeps t u \<Longrightarrow> keeps s u) \<Longrightarrow> keeps_to keeps first \<Longrightarrow> keeps_to keeps rest \<Longrightarrow>
   keeps_to keeps (seq_do first rest)"
  by (auto simp: keeps_to_def seq_do_def split: prod.split option.split) (metis snd_conv)+

locale kept_services =
  fixes svc :: "('s, 'f) Services"
    and keeps :: "'s \<Rightarrow> 's \<Rightarrow> bool"
  assumes keeps_refl: "keeps s s"
    and keeps_trans: "keeps s t \<Longrightarrow> keeps t u \<Longrightarrow> keeps s u"
    and guarded: "\<And>run :: ('s, 'f json) action.
      keeps_to keeps run \<Longrightarrow> keeps_to keeps (with_query_admission (reserve_slot svc) (release_guard svc) adm run)"
    and guarded_bytes: "\<And>run :: ('s, string) action.
      keeps_to keeps run \<Longrightarrow> keeps_to keeps (with_query_admission (reserve_slot svc) (release_guard svc) adm run)"
    and metrics_kept: "keeps_to keeps (query_request svc tmpl st why)" "keeps_to keeps (observe_phase svc tmpl phase)"
      "keeps_to keeps (record_admission_metrics svc)" "keeps_to keeps (record_storage_operator_gauges svc)"
    and health_kept: "keeps_to keeps (storage_probe svc)" "keeps_to keeps (storage_health svc)"
    and prometheus_kept: "keeps_to keeps (prometheus_query svc ps)" "keeps_to keeps (prometheus_query_range svc ps)"
      "keeps_to keeps (prometheus_labels svc ps)" "keeps_to keeps (prometheus_series svc ps)"
      "keeps_to keeps (prometheus_label_values svc nm ps)" "keeps_to keeps (prometheus_metadata svc)"
    and loki_kept: "keeps_to keeps (loki_query svc ps)" "keeps_to keeps (loki_query_range svc ps)"
      "keeps_to keeps (loki_labels svc ps)" "keeps_to keeps (loki_series svc ps)" "keeps_to keeps (loki_label_values svc nm ps)"
    and tempo_kept: "keeps_to keeps (tempo_search svc ps)" "keeps_to keeps (tempo_tag_values svc nm ps)"
      "keeps_to keeps (tempo_trace svc trace_id)" "keeps_to keeps (tempo_trace_proto svc trace_id)"
begin

lemma compat_value_kept: "keeps_to keeps (compat_value svc h param ps)"
  using prometheus_kept loki_kept tempo_kept keeps_refl
  by (cases h) (simp_all add: expect_param_def keeps_to_def split: option.split)

lemma sequence_kept: "keeps_to keeps first \<Longrightarrow> keeps_to keeps rest \<Longrightarrow> keeps_to keeps (seq_do first rest)"
  using keeps_trans by (rule seq_do_keeps)

lemma return_kept: "keeps_to keeps (\<lambda>s. (f s, s))"
  by (simp add: keeps_to_def keeps_refl)

lemma query_metrics_kept: "keeps_to keeps (record_query_metrics svc tmpl result)"
  using sequence_kept [OF metrics_kept(1,2), THEN keeps_toD]
  by (intro keeps_toI) (simp add: record_query_metrics_def split: prod.split)

lemma authorized_kept: "keeps_to keeps run \<Longrightarrow> keeps_to keeps (authorize svc requirement hs run)"
  using keeps_refl by (auto simp: keeps_to_def authorize_def split: AuthRequirement.split sum.split)

lemma answered_kept:
  assumes "keeps s (snd rs)"
  shows "keeps s (snd (answered svc tmpl respond rs))"
  using assms keeps_trans [OF _ keeps_toD [OF sequence_kept [OF query_metrics_kept return_kept]]]
  by (auto simp: answered_def split: prod.split option.split)

lemma compat_http_kept:
  "keeps_to keeps run \<Longrightarrow> keeps s (snd (compat_http svc tmpl (authorize svc requirement hs
    (with_query_admission (reserve_slot svc) (release_guard svc) adm run) s)))"
  unfolding compat_http_def by (intro answered_kept keeps_toD [of keeps] authorized_kept guarded)

lemma bytes_kept:
  fixes run :: "('s, string) action"
  shows "keeps_to keeps run \<Longrightarrow> keeps s (snd (answered svc tmpl respond (authorize svc requirement hs
    (with_query_admission (reserve_slot svc) (release_guard svc) adm run) s)))"
  by (intro answered_kept keeps_toD [of keeps] authorized_kept guarded_bytes)

lemma route_compat_kept: "keeps s (snd (route_compat svc m query hs body s))"
  by (simp add: route_compat_def tempo_trace_http_def Let_def keeps_refl compat_http_kept bytes_kept
      compat_value_kept tempo_kept split: option.split)

lemma admin_kept: "keeps_to keeps compute \<Longrightarrow> keeps s (snd (admin_health_response svc hs compute s))"
  using keeps_refl keeps_toD [of keeps compute s]
  by (auto simp: admin_health_response_def split: sum.split prod.split)

lemma queries_health_kept: "keeps_to keeps (queries_health_with_admission svc)"
  using health_kept(1) by (simp add: keeps_to_def queries_health_with_admission_def case_prod_beta)

lemma route_inner_kept: "keeps s (snd (route_inner svc verb path query hs body s))"
proof (cases "match_compat_route verb path")
  case None
  note metrics = keeps_toD [OF sequence_kept [OF metrics_kept(3) sequence_kept [OF metrics_kept(4) return_kept]]]
  from None show ?thesis
    using keeps_toD [OF health_kept(1), of s]
    by (simp add: route_inner_def Let_def admin_kept health_kept queries_health_kept case_prod_beta keeps_refl metrics)
qed (simp add: route_inner_def route_compat_kept)

text \<open>A connection counts its requests too.\<close>

lemma counted_kept:
  assumes "\<And>nm ls. keeps_to keeps (inc_metric con nm ls)" "keeps s (snd rs)"
  shows "keeps s (snd (counted con keep_alive rs))"
  using assms(2) keeps_trans [OF _ keeps_toD [OF sequence_kept [OF assms(1) return_kept]]]
  by (auto simp: counted_def split: prod.split option.split)

lemma close_counted_kept:
  "(\<And>nm ls. keeps_to keeps (inc_metric con nm ls)) \<Longrightarrow> keeps_to keeps (close_counted con why)"
  by (auto simp: keeps_to_def close_counted_def split: prod.split option.split) (metis snd_conv)+

lemma handle_stream_kept:
  assumes "\<And>nm ls. keeps_to keeps (inc_metric con nm ls)" "services con = svc"
  shows "keeps s (snd (snd (handle_stream con n bufs s)))"
  using assms
proof (induction con n bufs s rule: handle_stream.induct)
  case (1 con n bufs s)
  note counts = 1(2) and serves = 1(3)
  note closes = keeps_toD [OF close_counted_kept [OF counts]]
  obtain r rest where read: "read_request con bufs = (r, rest)" by force
  show ?case
  proof (cases r)
    case (Request verb target hs body)
    obtain path query where target: "split_target target = (path, query)" by force
    let ?keep = "should_keep_connection_alive (close_requested hs) (n + 1)"
    obtain answer s' where served: "counted con ?keep (route_owned (services con) verb path query hs body s) = (answer, s')" by force
    note step = handle_stream.simps [of con n bufs s, unfolded read Request target, simplified, unfolded target, simplified, unfolded Let_def]
    have s': "keeps s s'"
      using counted_kept [OF counts, of s "route_owned (services con) verb path query hs body s" ?keep]
        route_inner_kept [of s verb path query hs body] served serves by simp
    show ?thesis
    proof (cases answer)
      case (Some response)
      note IH = 1(1) [OF read [symmetric] Request target [symmetric] refl served [symmetric] Some refl]
      show ?thesis
        using IH counts serves served Some keeps_trans [OF s'] closes s'
        by (auto simp: step Let_def)
    qed (use served s' in \<open>simp add: step\<close>)
  qed (simp_all add: handle_stream.simps [of con n bufs s] read closes keeps_refl)
qed

lemma connection_kept:
  assumes "\<And>nm ls. keeps_to keeps (inc_metric con nm ls)" "services con = svc"
  shows "keeps s (snd (snd (serve_connection con bufs s)))"
proof -
  obtain outs ended t where handled: "handle_stream con 0 bufs s = (outs, ended, t)" by (cases "handle_stream con 0 bufs s") auto
  then have t: "keeps s t" using handle_stream_kept [OF assms, of s 0 bufs] by simp
  have "keeps s (snd (inc_metric con nm ls t))" for nm ls
    using keeps_trans [OF t] keeps_toD [OF assms(1)] by blast
  with t handled show ?thesis
    by (cases ended) (auto simp: serve_connection_def case_prod_beta split: option.split)
qed

end

end
