(* ===== verification/App.thy ===== *)
theory App
  imports Router_Laws Compat_Loki Compat_Prometheus Compat_Tempo Health Process Client
begin

text \<open>
  The application (\<^verbatim>\<open>src/src/app.rs\<close>): the components' states in one, made when the
  store is opened, and the services the router asks for, provided by the components. A
  request sees one state of the outside world: the clock, the database's answers, the disk,
  the libraries, and the monotonic clock, in milliseconds, when it asks for a slot; other
  threads' part in a wait for a slot is in \<^verbatim>\<open>Admission\<close>.
\<close>

section \<open>The application\<close>

record 'f App =
  app_slots :: AdmissionState
  app_metrics :: "'f Metrics"
  app_cache :: "'f json DiscoveryCache"
  app_storage :: Storage

record 'f Outside =
  library :: "'f Library"
  query_env :: "'f QueryEnv"
  meta_env :: "'f MetaEnv"
  trace_env :: TraceEnv
  reader :: "'f Reader"
  disk :: "fs_node option"
  numbers :: "'f Numbers"
  floats :: "'f FloatOps"
  encode_trace :: "TraceData \<Rightarrow> string + string"
  print_json :: "'f json \<Rightarrow> string"
  read_json :: "string \<Rightarrow> 'f json option"
  package_version :: string
  elapsed :: 'f
  uptime :: nat
  sleeps :: "nat list"
  timed_out :: "string \<Rightarrow> bool"

definition app_started :: "Storage \<Rightarrow> 'f App" where
  "app_started st =
     \<lparr>app_slots = initial_admission, app_metrics = metrics_new, app_cache = cache_new, app_storage = st\<rparr>"

definition AppState_new :: "Host \<Rightarrow> Config \<Rightarrow> 'f App opened" where
  "AppState_new machine config w = (case Storage_open machine config w of (r, w') \<Rightarrow> (map_ok app_started r, w'))"

text \<open>Nothing in the process changes the generation of the metadata.\<close>

definition metadata_generation :: "64 word" where
  "metadata_generation = 0"

section \<open>The services\<close>

text \<open>
  Recording panics on labels a metric does not have, and so does the request; \<open>app_records\<close>
  below shows that none of the calls here uses such labels.
\<close>

definition record_op :: "'f Outside \<Rightarrow> 'f metric_op \<Rightarrow> 'f App effect" where
  "record_op out p s =
     (case metric_step (floats out) p (app_metrics s) of
        Some m \<Rightarrow> (Some (), s\<lparr>app_metrics := m\<rparr>)
      | None \<Rightarrow> (None, s))"

definition usize_f64 :: "'f Outside \<Rightarrow> nat \<Rightarrow> 'f" where
  "usize_f64 out n = of_u64 (numbers out) (of_nat n)"

fun event_op :: "'f Outside \<Rightarrow> AdmissionEvent \<Rightarrow> 'f metric_op" where
  "event_op out (RejectionCounted ls) = IncOp AdmissionRejectionsTotal ls 1"
| "event_op out (CapacityGauge which n) = GaugeOp AdmissionCapacity [(''admission'', which)] (usize_f64 out n)"
| "event_op out (InUseGauge which n) = GaugeOp AdmissionInUse [(''admission'', which)] (usize_f64 out n)"

fun record_events :: "'f Outside \<Rightarrow> AdmissionEvent list \<Rightarrow> 'f App effect" where
  "record_events out [] s = (Some (), s)"
| "record_events out (e # evs) s = seq_do (record_op out (event_op out e)) (record_events out evs) s"

definition app_release :: "QueryClass \<Rightarrow> 'f App \<Rightarrow> 'f App" where
  "app_release c s = s\<lparr>app_slots := release_slot c (app_slots s)\<rparr>"

text \<open>A panic while the events are recorded drops the guard just taken.\<close>

definition app_reserve :: "'f Outside \<Rightarrow> Config \<Rightarrow> QueryClass \<Rightarrow> ('f App, unit) action" where
  "app_reserve out config c s =
     (case reserve_waiting (admission_new config) c (query_admission_wait (operator config)) (uptime out)
         (sleeps out) (app_slots s) of
        (r, st, evs) \<Rightarrow>
          (case record_events out evs (s\<lparr>app_slots := st\<rparr>) of
             (Some _, t) \<Rightarrow> (r, t)
           | (None, t) \<Rightarrow> (None, if r = Some (Inr ()) then app_release c t else t)))"

definition on_cache ::
  "('f json DiscoveryCache \<Rightarrow> 'a checked \<times> 'f json DiscoveryCache) \<Rightarrow> ('f App, 'a) action" where
  "on_cache f s = (case f (app_cache s) of (r, c) \<Rightarrow> (r, s\<lparr>app_cache := c\<rparr>))"

definition answering :: "'a checked \<Rightarrow> ('f App, 'a) action" where
  "answering r s = (r, s)"

definition app_probe :: "'f Outside \<Rightarrow> 'f App \<Rightarrow> (bool \<times> 'f json) \<times> 'f App" where
  "app_probe out s =
     (case probe (reader out) (app_storage s) of (p, st) \<Rightarrow>
        ((probe_healthy p, probe_json p), s\<lparr>app_storage := st\<rparr>))"

definition app_health :: "'f Outside \<Rightarrow> 'f App \<Rightarrow> (bool \<times> 'f json) \<times> 'f App" where
  "app_health out s =
     (case health (numbers out) (reader out) (disk out) (app_storage s) of (h, st) \<Rightarrow>
        ((health_healthy h, health_json h), s\<lparr>app_storage := st\<rparr>))"

definition app_operator_gauges :: "'f Outside \<Rightarrow> 'f App effect" where
  "app_operator_gauges out s =
     (case record_operator_gauges (numbers out) (reader out) (disk out) (app_storage s) (app_metrics s) of
        (Some m, st) \<Rightarrow> (Some (), s\<lparr>app_storage := st, app_metrics := m\<rparr>)
      | (None, st) \<Rightarrow> (None, s\<lparr>app_storage := st\<rparr>))"

record QueryEngine =
  interactive_timeout :: nat
  interactive_memory_limit :: string

definition QueryEngine_new :: "Config \<Rightarrow> QueryEngine" where
  "QueryEngine_new config =
     \<lparr>interactive_timeout = timeout_secs (query_interactive (operator config)),
      interactive_memory_limit = memory_limit (query_interactive (operator config))\<rparr>"

definition query_engine_health :: "QueryEngine \<Rightarrow> (string \<times> 'f json) list" where
  "query_engine_health engine =
     [(''interactive_timeout_seconds'', JNat (interactive_timeout engine)),
      (''memory_limit_interactive'', JString (interactive_memory_limit engine))]"

definition snapshot_json :: "AdmissionSnapshot \<Rightarrow> 'f json" where
  "snapshot_json s =
     JObject [(''cheap_query_active'', JNat (snap_cheap_active s)),
              (''cheap_query_capacity'', JNat (snap_cheap_capacity s)),
              (''heavy_query_active'', JNat (snap_heavy_active s)),
              (''heavy_query_capacity'', JNat (snap_heavy_capacity s)),
              (''query_rejections_total'', JNat (snap_rejections s))]"

definition app_services :: "'f Outside \<Rightarrow> Config \<Rightarrow> ('f App, 'f) Services" where
  "app_services out config =
     (let lib = library out; env = query_env out; meta = meta_env out; traces = trace_env out;
          gen = metadata_generation in
      \<lparr>svc_config = config,
       reserve_slot = app_reserve out config,
       release_guard = app_release,
       query_request = (\<lambda>tmpl st why. record_op out (QueryOp tmpl st why (elapsed out))),
       observe_phase = (\<lambda>tmpl phase. record_op out (PhaseOp tmpl phase (elapsed out))),
       json_text = print_json out,
       json_parse = read_json out,
       build_version = package_version out,
       Services.prometheus_query = (\<lambda>ps. answering (Compat_Prometheus.prometheus_query lib env ps)),
       Services.prometheus_query_range = (\<lambda>ps. answering (Some (Compat_Prometheus.prometheus_query_range lib env ps))),
       Services.prometheus_labels = (\<lambda>ps. answering (Compat_Prometheus.prometheus_labels lib ps)),
       Services.prometheus_series = (\<lambda>ps. on_cache (prometheus_series_answer lib meta gen ps)),
       prometheus_metadata = on_cache (\<lambda>c. apfst Some (prometheus_metadata_answer meta gen c)),
       Services.prometheus_label_values = (\<lambda>nm ps. on_cache (prometheus_label_values_answer lib meta gen nm ps)),
       Services.loki_query = (\<lambda>ps. answering (Compat_Loki.loki_query lib env ps)),
       Services.loki_query_range = (\<lambda>ps. answering (Compat_Loki.loki_query_range lib env ps)),
       Services.loki_labels = (\<lambda>ps. answering (Compat_Loki.loki_labels lib ps)),
       Services.loki_series = (\<lambda>ps. on_cache (loki_series_answer lib meta gen ps)),
       Services.loki_label_values = (\<lambda>nm ps. on_cache (loki_label_values_answer lib meta gen nm ps)),
       Services.tempo_search = (\<lambda>ps. answering (Compat_Tempo.tempo_search lib traces ps)),
       Services.tempo_tags = Compat_Tempo.tempo_tags,
       Services.tempo_trace = (\<lambda>trace_id. answering (Compat_Tempo.tempo_trace lib traces trace_id)),
       Services.tempo_trace_proto = (\<lambda>trace_id. answering (Compat_Tempo.tempo_trace_proto lib (encode_trace out) traces trace_id)),
       Services.tempo_tag_values = (\<lambda>tag ps. on_cache (tempo_tag_values_answer lib meta gen tag ps)),
       storage_probe = app_probe out,
       storage_health = app_health out,
       queries_health = (\<lambda>_. query_engine_health (QueryEngine_new config)),
       admission_json = (\<lambda>s. snapshot_json (admission_snapshot (admission_new config) (app_slots s))),
       record_admission_metrics = (\<lambda>s. record_events out (admission_gauges (admission_new config) (app_slots s)) s),
       record_storage_operator_gauges = app_operator_gauges out,
       render_metrics = (\<lambda>s. render_prometheus (floats out) (app_metrics s))\<rparr>)"

definition app_connection :: "'f Outside \<Rightarrow> Config \<Rightarrow> ('f App, 'f) Connection" where
  "app_connection out config =
     \<lparr>services = app_services out config, inc_metric = (\<lambda>nm ls. record_op out (IncOp nm ls 1)),
      is_socket_timeout = timed_out out\<rparr>"

text \<open>One connection after another, each in its own state of the outside world.\<close>

fun serve_connections :: "Config \<Rightarrow> ('f Outside \<times> buffer list) list \<Rightarrow> 'f App \<Rightarrow> 'f App" where
  "serve_connections config [] s = s"
| "serve_connections config ((out, bufs) # conns) s =
     serve_connections config conns (snd (snd (serve_connection (app_connection out config) bufs s)))"

section \<open>What every service keeps\<close>

text \<open>
  The registry and the cache stay well formed, the slots in use stay as many, and the store
  stays the one that was opened, but for its last error.
\<close>

definition cache_bounded :: "'v DiscoveryCache \<Rightarrow> bool" where
  "cache_bounded c \<longleftrightarrow> bt_wf (entries c) \<and> length (entries c) \<le> MAX_CACHE_ENTRIES"

definition app_ok :: "'f App \<Rightarrow> bool" where
  "app_ok s \<longleftrightarrow> registry_ok (app_metrics s) \<and> cache_bounded (app_cache s)"

definition same_store :: "Storage \<Rightarrow> Storage \<Rightarrow> bool" where
  "same_store a b \<longleftrightarrow> a\<lparr>last_error := None\<rparr> = b\<lparr>last_error := None\<rparr>"

definition app_keeps :: "'f App \<Rightarrow> 'f App \<Rightarrow> bool" where
  "app_keeps s t \<longleftrightarrow>
     (\<forall>d. active d (app_slots t) = active d (app_slots s)) \<and> (app_ok s \<longrightarrow> app_ok t) \<and>
     same_store (app_storage s) (app_storage t)"

lemma app_keeps_refl: "app_keeps s s"
  by (simp add: app_keeps_def same_store_def)

lemma app_keeps_trans: "app_keeps s t \<Longrightarrow> app_keeps t u \<Longrightarrow> app_keeps s u"
  by (auto simp: app_keeps_def same_store_def)

lemma record_op_other:
  "app_slots (snd (record_op out p s)) = app_slots s" "app_cache (snd (record_op out p s)) = app_cache s"
  "app_storage (snd (record_op out p s)) = app_storage s"
  by (simp_all add: record_op_def split: option.split)

lemma record_op_ok: "app_ok s \<Longrightarrow> app_ok (snd (record_op out p s))"
  using agrees_step [of "app_metrics s" "floats out" p]
  by (auto simp: app_ok_def record_op_def split: option.split)

lemma record_op_keeps: "keeps_to app_keeps (record_op out p)"
  by (simp add: keeps_to_def app_keeps_def record_op_other record_op_ok same_store_def)

lemma app_sequence_keeps:
  "keeps_to app_keeps first \<Longrightarrow> keeps_to app_keeps rest \<Longrightarrow> keeps_to app_keeps (seq_do first rest)"
  using app_keeps_trans by (rule seq_do_keeps)

lemma record_events_keeps: "keeps_to app_keeps (record_events out evs)"
proof (induction evs)
  case Nil
  show ?case by (simp add: keeps_to_def app_keeps_refl)
next
  case (Cons e evs)
  show ?case
    using app_sequence_keeps [OF record_op_keeps Cons.IH] by (simp add: keeps_to_def)
qed

lemma record_events_store: "app_storage (snd (record_events out evs s)) = app_storage s"
  by (induction evs arbitrary: s) (simp_all add: seq_do_def case_prod_beta record_op_other split: option.split)

lemma app_reserve_cases:
  obtains r st evs t where
    "reserve_waiting (admission_new config) c (query_admission_wait (operator config)) (uptime out) (sleeps out) (app_slots s) = (r, st, evs)"
    "t = snd (record_events out evs (s\<lparr>app_slots := st\<rparr>))"
    "app_reserve out config c s =
       (if fst (record_events out evs (s\<lparr>app_slots := st\<rparr>)) = None
        then (None, if r = Some (Inr ()) then app_release c t else t) else (r, t))"
proof -
  obtain r st evs where reserved: "reserve_waiting (admission_new config) c (query_admission_wait (operator config))
      (uptime out) (sleeps out) (app_slots s) = (r, st, evs)"
    by (cases "reserve_waiting (admission_new config) c (query_admission_wait (operator config)) (uptime out) (sleeps out) (app_slots s)") auto
  show ?thesis
    by (rule that [OF reserved refl]) (simp add: app_reserve_def reserved case_prod_beta split: option.split)
qed

lemma app_reserve_active:
  assumes "app_reserve out config c s = (r, s')"
  shows "active d (app_slots s') = active d (app_slots s) + (if r = Some (Inr ()) \<and> c = d then 1 else 0)"
proof -
  obtain r1 st evs t where "reserve_waiting (admission_new config) c (query_admission_wait (operator config))
      (uptime out) (sleeps out) (app_slots s) = (r1, st, evs)"
    and t: "t = snd (record_events out evs (s\<lparr>app_slots := st\<rparr>))"
    and answer: "app_reserve out config c s =
       (if fst (record_events out evs (s\<lparr>app_slots := st\<rparr>)) = None
        then (None, if r1 = Some (Inr ()) then app_release c t else t) else (r1, t))"
    by (rule app_reserve_cases)
  from reserve_waiting_active(1) [OF this(1), of d]
  have "active d (app_slots t) = active d (app_slots s) + (if r1 = Some (Inr ()) \<and> c = d then 1 else 0)"
    using keeps_toD [OF record_events_keeps, of "s\<lparr>app_slots := st\<rparr>" out evs] by (simp add: t app_keeps_def)
  with answer assms show ?thesis
    by (auto simp: app_release_def release_slot_active split: if_splits)
qed

interpretation admitted: query_slots "app_reserve out config" app_release "\<lambda>c s. active c (app_slots s)" for out config
proof
  show "active d (app_slots s') = active d (app_slots s) + (if c = d then 1 else 0)"
    if "app_reserve out config c s = (Some (Inr u), s')" for c s u s' d
    using app_reserve_active [OF that, of d] by simp
  show "active d (app_slots s') = active d (app_slots s)" if "app_reserve out config c s = (Some (Inl e), s')" for c s e s' d
    using app_reserve_active [OF that, of d] by simp
  show "active d (app_slots s') = active d (app_slots s)" if "app_reserve out config c s = (None, s')" for c s s' d
    using app_reserve_active [OF that, of d] by simp
  show "active d (app_slots (app_release c s)) = active d (app_slots s) - (if c = d then 1 else 0)" for d c s
    by (simp add: app_release_def release_slot_active)
qed

lemma app_reserve_rest:
  "app_ok s \<Longrightarrow> app_ok (snd (app_reserve out config c s))"
  "app_storage (snd (app_reserve out config c s)) = app_storage s"
proof -
  obtain r st evs t where t: "t = snd (record_events out evs (s\<lparr>app_slots := st\<rparr>))"
    and answer: "app_reserve out config c s =
       (if fst (record_events out evs (s\<lparr>app_slots := st\<rparr>)) = None
        then (None, if r = Some (Inr ()) then app_release c t else t) else (r, t))"
    by (rule app_reserve_cases)
  show "app_ok (snd (app_reserve out config c s))" if "app_ok s"
    using that keeps_toD [OF record_events_keeps, of "s\<lparr>app_slots := st\<rparr>" out evs]
    by (auto simp: answer t app_keeps_def app_ok_def app_release_def)
  show "app_storage (snd (app_reserve out config c s)) = app_storage s"
    by (simp add: answer t app_release_def record_events_store)
qed

lemma app_guarded:
  assumes "keeps_to app_keeps run"
  shows "keeps_to app_keeps (with_query_admission (app_reserve out config) app_release adm run)"
proof (rule keeps_toI)
  fix s
  let ?run = "with_query_admission (app_reserve out config) app_release adm run"
  have "active d (app_slots (snd (?run s))) = active d (app_slots s)" for d
    using assms by (intro admitted.admission_balanced) (simp add: keeps_to_def app_keeps_def)
  moreover have "(app_ok s \<longrightarrow> app_ok (snd (with_guard (app_reserve out config) app_release c run s))) \<and>
      same_store (app_storage s) (app_storage (snd (with_guard (app_reserve out config) app_release c run s)))" for c
  proof (cases "app_reserve out config c s")
    case (Pair r t)
    then have t: "app_ok s \<Longrightarrow> app_ok t" "app_storage t = app_storage s"
      using app_reserve_rest [where s = s and out = out and config = config and c = c] by simp_all
    have "app_keeps t (snd (run t))" using assms by (simp add: keeps_to_def)
    with t show ?thesis
      by (auto simp: Pair with_guard_def app_keeps_def app_ok_def app_release_def same_store_def
          case_prod_beta split: option.split sum.split)
  qed
  moreover have "app_keeps s (snd (run s))" using assms by (simp add: keeps_to_def)
  ultimately show "app_keeps s (snd (?run s))"
    by (cases adm) (simp_all add: app_keeps_def with_query_admission_def)
qed

lemma cached_bounded: "cache_bounded c \<Longrightarrow> cache_bounded (snd (cached jl gen key b c))"
  using cache_insert_bounded [of c]
  by (auto simp: cached_def cache_bounded_def split: option.split sum.split)

lemma discovery_bounded:
  assumes "cache_bounded c"
  shows "cache_bounded (snd (prometheus_series_answer lib menv gen ps c))"
    "cache_bounded (snd (prometheus_metadata_answer menv gen c))"
    "cache_bounded (snd (prometheus_label_values_answer lib menv gen nm ps c))"
    "cache_bounded (snd (loki_series_answer lib menv gen ps c))"
    "cache_bounded (snd (loki_label_values_answer lib menv gen nm ps c))"
    "cache_bounded (snd (tempo_tag_values_answer lib menv gen nm ps c))"
  using cached_bounded [OF assms] assms
  by (auto simp: prometheus_series_answer_def prometheus_metadata_answer_def prometheus_label_values_answer_def
      loki_series_answer_def loki_label_values_answer_def tempo_tag_values_answer_def
      Discovery.prometheus_series_def Discovery.prometheus_metric_metadata_def Discovery.prometheus_label_values_def
      Discovery.loki_series_def Discovery.loki_label_values_def Discovery.tempo_tag_values_def case_prod_beta
      split: option.split sum.split)

lemma on_cache_keeps:
  assumes "\<And>c. cache_bounded c \<Longrightarrow> cache_bounded (snd (f c))"
  shows "keeps_to app_keeps (on_cache f)"
  using assms
  by (auto simp: keeps_to_def on_cache_def app_keeps_def app_ok_def same_store_def split: prod.split) (metis snd_conv)

lemma answering_keeps: "keeps_to app_keeps (answering r)"
  by (simp add: keeps_to_def answering_def app_keeps_refl)

lemma healthy_store: "same_store st (snd (healthy db st))"
  by (simp add: healthy_def same_store_def split: sum.split)

lemma app_probe_keeps: "keeps_to app_keeps (app_probe out)"
  by (simp add: keeps_to_def app_probe_def probe_def app_keeps_def app_ok_def healthy_store case_prod_beta)

lemma app_health_keeps: "keeps_to app_keeps (app_health out)"
  by (simp add: keeps_to_def app_health_def health_def app_keeps_def app_ok_def healthy_store case_prod_beta)

lemma app_gauges_keeps:
  fixes out :: "'f Outside"
  shows "keeps_to app_keeps (app_operator_gauges out)"
proof (rule keeps_toI)
  fix s :: "'f App"
  obtain h st where h: "health (numbers out) (reader out) (disk out) (app_storage s) = (h, st)" by force
  have "same_store (app_storage s) st"
    using healthy_store [of "app_storage s" "reader out"] h by (auto simp: health_def split: prod.splits)
  moreover have "registry_ok m'" if "registry_ok (app_metrics s)"
      "record_gauges (operator_gauges (numbers out) h) (app_metrics s) = Some m'" for m'
    using record_gauges_effect [OF that(1) operator_gauges_storage, of "numbers out" h] that(2) by auto
  ultimately show "app_keeps s (snd (app_operator_gauges out s))"
    by (auto simp: app_operator_gauges_def record_operator_gauges_def h app_keeps_def app_ok_def split: option.split)
qed

lemma app_admission_keeps: "keeps_to app_keeps (\<lambda>s. record_events out (evs s) s)"
  using keeps_toD [OF record_events_keeps] by (intro keeps_toI) blast

interpretation app: kept_services "app_services out config" app_keeps for out config
  by unfold_locales
    (auto simp: app_services_def Let_def app_keeps_refl app_guarded record_op_keeps app_admission_keeps
      app_gauges_keeps app_probe_keeps app_health_keeps answering_keeps apfst_def map_prod_def case_prod_beta
      intro!: on_cache_keeps discovery_bounded elim: app_keeps_trans)

section \<open>The life of the application\<close>

lemma app_connection_keeps: "app_keeps s (snd (snd (serve_connection (app_connection out config) bufs s)))"
  by (rule app.connection_kept) (simp_all add: app_connection_def record_op_keeps)

lemma connections_keep: "app_keeps s (serve_connections config conns s)"
proof (induction conns arbitrary: s)
  case (Cons c conns)
  show ?case
    using app_keeps_trans [OF app_connection_keeps Cons.IH] by (cases c) simp
qed (simp add: app_keeps_refl)

lemma app_started_ok: "app_ok (app_started st)"
  by (simp add: app_ok_def app_started_def registry_new cache_bounded_def cache_new_def)

lemma AppState_new_opened:
  "AppState_new machine config w = (Inr s, w') \<Longrightarrow> \<exists>plan. s = app_started (storage_of config plan)"
  by (auto simp: AppState_new_def Storage_open_def open_then_eq result_simps split: prod.splits sum.splits)

text \<open>
  C2. Whatever clients send, over however many connections, and whatever the database, the
  disk and the clock do meanwhile: when the application has opened, then after each
  connection it has every admission slot back, also when requests failed or panicked; its
  metrics registry is well formed and its cache of discovery answers within its bound; and
  its store is the one the configuration names.
\<close>

theorem application_stays_sound:
  "case AppState_new machine config w :: (OpenError + 'f App) \<times> World of
     (Inr opened, _) \<Rightarrow>
       (let s = serve_connections config conns opened in
        (\<forall>c. active c (app_slots s) = 0) \<and> registry_ok (app_metrics s) \<and> cache_bounded (app_cache s) \<and>
        target_prefix (app_storage s) = DUCKLAKE_TARGET_PREFIX \<and>
        storage_dir (app_storage s) = local_storage_dir (operator config) \<and>
        postgres_catalog_configured (app_storage s) = (postgres_dsn (operator config) \<noteq> None))
   | (Inl e, _) \<Rightarrow> True"
proof (cases "AppState_new machine config w :: (OpenError + 'f App) \<times> World")
  case (Pair r w')
  show ?thesis
  proof (cases r)
    case (Inr opened)
    then obtain plan where opened: "opened = app_started (storage_of config plan)"
      using Pair AppState_new_opened by blast
    let ?s = "serve_connections config conns opened"
    have kept: "app_keeps opened ?s" by (rule connections_keep)
    then have "app_ok ?s" using app_started_ok opened by (auto simp: app_keeps_def)
    moreover have "active c (app_slots opened) = 0" for c
      by (cases c) (simp_all add: opened app_started_def initial_admission_def)
    moreover have store: "(app_storage ?s)\<lparr>last_error := None\<rparr> = storage_of config plan"
      using kept opened by (simp add: app_keeps_def same_store_def app_started_def storage_of_def)
    have "target_prefix (app_storage ?s) = DUCKLAKE_TARGET_PREFIX \<and>
        storage_dir (app_storage ?s) = local_storage_dir (operator config) \<and>
        postgres_catalog_configured (app_storage ?s) = (postgres_dsn (operator config) \<noteq> None)"
      using store [THEN arg_cong [where f = target_prefix]] store [THEN arg_cong [where f = storage_dir]]
        store [THEN arg_cong [where f = postgres_catalog_configured]]
      by (simp add: storage_of_def)
    ultimately show ?thesis
      using kept by (simp add: Pair Inr app_keeps_def app_ok_def Let_def)
  qed (simp add: Pair)
qed

section \<open>Panics\<close>

text \<open>
  The times a request names, and now, can be moved by the steps the handlers move them: an
  hour or five minutes back, a second on, and for a trace ten minutes on and a week back.
\<close>

definition shiftable :: "'f Library \<Rightarrow> int \<Rightarrow> bool" where
  "shiftable lib t \<longleftrightarrow>
     representable lib (t - HOUR) \<and> representable lib (t - 5 * MINUTE) \<and> representable lib (t + SECOND)"

definition times_ok :: "'f Library \<Rightarrow> params \<Rightarrow> bool" where
  "times_ok lib ps \<longleftrightarrow>
     shiftable lib (now lib) \<and> lookup_window lib \<noteq> None \<and>
     list_all (\<lambda>nm. case Option.bind (map_of ps nm) (parse_time lib) of Some t \<Rightarrow> shiftable lib t | None \<Rightarrow> True)
       [''time'', ''end'', ''to'']"

lemma optional_time_shiftable:
  assumes "times_ok lib ps" "optional_time lib ps nm = Inr r" "nm \<in> {''time'', ''end'', ''to''}"
  shows "shiftable lib (unwrap_or r (now lib))"
  using assms
  by (auto simp: times_ok_def optional_time_def non_empty_param_def unwrap_or_def result_simps
      split: option.splits if_splits)

lemma optional_range_total:
  assumes "times_ok lib ps"
  shows "optional_range lib ps max_secs \<noteq> None"
proof -
  have "shiftable lib (unwrap_or (or_else r (ok_flatten (optional_time lib ps ''to''))) (now lib))"
    if "optional_time lib ps ''end'' = Inr r" for r
    using optional_time_shiftable [OF assms that] optional_time_shiftable [OF assms, of "''to''"]
      optional_time_shiftable [OF assms, of "''to''" None]
    by (cases r; cases "optional_time lib ps ''to''")
      (auto simp: or_else_def unwrap_or_def times_ok_def assms [unfolded times_ok_def])
  then show ?thesis
    by (auto simp: optional_range_def Let_def result_simps shift_time_def shiftable_def)
qed

lemma prometheus_query_total: "times_ok lib ps \<Longrightarrow> Compat_Prometheus.prometheus_query lib env ps \<noteq> None"
  using optional_time_shiftable [of lib ps "''time''"]
  by (intro notI) (auto simp: Compat_Prometheus.prometheus_query_def Let_def result_simps shift_time_def shiftable_def
      split: option.splits if_splits)

lemma loki_plan_total:
  assumes "times_ok lib ps"
  shows "loki_plan lib ps ranged \<noteq> None"
  using optional_time_shiftable [OF assms, of "''end''"]
  by (intro notI) (auto simp: loki_plan_def Let_def result_simps shift_time_def shiftable_def split: if_splits)

lemma on_cache_total: "(\<And>c. fst (f c) \<noteq> None) \<Longrightarrow> never_panics (on_cache f)"
  by (auto simp: never_panics_def on_cache_def split: prod.split) (metis fst_conv not_None_eq)

lemma answering_total: "never_panics (answering r) \<longleftrightarrow> r \<noteq> None"
  by (simp add: never_panics_def answering_def)

lemma discovery_total:
  assumes "times_ok lib ps"
  shows "fst (prometheus_series_answer lib menv gen ps c) \<noteq> None"
    "fst (prometheus_label_values_answer lib menv gen nm ps c) \<noteq> None"
    "fst (loki_series_answer lib menv gen ps c) \<noteq> None"
    "fst (loki_label_values_answer lib menv gen nm ps c) \<noteq> None"
    "fst (tempo_tag_values_answer lib menv gen nm ps c) \<noteq> None"
  using optional_range_total [OF assms]
  by (auto simp: prometheus_series_answer_def prometheus_label_values_answer_def loki_series_answer_def
      loki_label_values_answer_def tempo_tag_values_answer_def simp del: not_None_eq
      split: option.split sum.split prod.split)

lemma handlers_total:
  assumes "times_ok lib ps"
  shows "Compat_Prometheus.prometheus_labels lib ps \<noteq> None" "Compat_Loki.loki_labels lib ps \<noteq> None"
    "Compat_Loki.loki_query lib env ps \<noteq> None" "Compat_Loki.loki_query_range lib env ps \<noteq> None"
    "Compat_Tempo.tempo_search lib traces ps \<noteq> None" "Compat_Tempo.tempo_trace lib traces trace_id \<noteq> None"
    "Compat_Tempo.tempo_trace_proto lib encode traces trace_id \<noteq> None"
proof -
  have "lookup_window lib \<noteq> None" using assms by (simp add: times_ok_def)
  then show "Compat_Tempo.tempo_trace lib traces trace_id \<noteq> None"
    "Compat_Tempo.tempo_trace_proto lib encode traces trace_id \<noteq> None"
    by (simp_all add: trace_lookup_answers [THEN conjunct1] trace_lookup_answers [THEN conjunct2] del: not_None_eq)
qed (use optional_range_total [OF assms] loki_plan_total [OF assms] in
    \<open>intro notI, auto simp: Compat_Prometheus.prometheus_labels_def Compat_Loki.loki_labels_def
      Compat_Loki.loki_query_def Compat_Loki.loki_query_range_def loki_query_inner_def
      Compat_Tempo.tempo_search_def result_simps simp del: not_None_eq\<close>)

lemma app_handlers_answer:
  assumes "times_ok (library out) ps"
  shows "handlers_answer_on (app_services out config) ps"
proof -
  have "never_panics (compat_value (app_services out config) h param ps)" if "needs_param h \<longrightarrow> param \<noteq> None" for h param
    using that handlers_total [OF assms] prometheus_query_total [OF assms] discovery_total [OF assms]
    by (cases h)
      (auto simp: app_services_def Let_def needs_param_def expect_param_def never_panics_def answering_def on_cache_def
        apfst_def map_prod_def case_prod_beta)
  then show ?thesis
    using handlers_total(7) [OF assms]
    by (auto simp: handlers_answer_on_def app_services_def Let_def answering_total)
qed

text \<open>
  The metrics the application records have the labels their names allow, so recording never
  panics; reserving does exactly when the clock cannot hold the end of the wait.
\<close>

definition app_op :: "'f metric_op \<Rightarrow> bool" where
  "app_op p =
     (case p of
        IncOp nm ls by \<Rightarrow> metric_shape nm = CounterShape \<and> validate_metric_labels nm ls
      | GaugeOp nm ls v \<Rightarrow> metric_shape nm = GaugeShape \<and> validate_metric_labels nm ls
      | ObserveOp nm ls v \<Rightarrow> metric_shape nm = ObservationShape \<and> validate_metric_labels nm ls
      | _ \<Rightarrow> True)"

lemma record_op_None: "fst (record_op out p s) = None \<longleftrightarrow> metric_step (floats out) p (app_metrics s) = None"
  by (simp add: record_op_def split: option.split)

lemma record_op_answers: "app_op p \<Longrightarrow> never_panics (record_op out p)"
  by (cases p) (simp_all add: never_panics_def record_op_None app_op_def metric_inc_def metric_gauge_def
      observe_seconds_def Let_def metrics_query_request_total phase_total del: not_None_eq)

lemma record_events_answer:
  "(\<And>e. e \<in> set evs \<Longrightarrow> app_op (event_op out e)) \<Longrightarrow> never_panics (record_events out evs)"
proof (induction evs)
  case (Cons e evs)
  then show ?case
    using seq_do_answers [OF record_op_answers [of "event_op out e"] Cons.IH, of out]
    by (simp add: never_panics_def)
qed (simp add: never_panics_def)

lemma event_op_ok: "(\<And>ls. e = RejectionCounted ls \<Longrightarrow> map fst ls = [''admission'', ''reason'']) \<Longrightarrow> app_op (event_op out e)"
  by (cases e) (auto simp: app_op_def validate_metric_labels_def)

lemma admission_gauges_ok: "e \<in> set (admission_gauges ctl st) \<Longrightarrow> app_op (event_op out e)"
  by (rule event_op_ok) (auto simp: admission_gauges_def emit_admission_gauges_def)

lemma app_reserve_panics:
  "fst (app_reserve out config c s) = None \<longleftrightarrow> instant_add (uptime out) (query_admission_wait (operator config)) = None"
proof -
  obtain r st evs t where reserved: "reserve_waiting (admission_new config) c (query_admission_wait (operator config))
      (uptime out) (sleeps out) (app_slots s) = (r, st, evs)"
    and answer: "app_reserve out config c s =
       (if fst (record_events out evs (s\<lparr>app_slots := st\<rparr>)) = None
        then (None, if r = Some (Inr ()) then app_release c t else t) else (r, t))"
    by (rule app_reserve_cases)
  have "app_op (event_op out e)" if "e \<in> set evs" for e
    using that by (intro event_op_ok) (auto dest: reserve_waiting_events [OF reserved])
  from never_panicsD [OF record_events_answer [of evs out, OF this]]
  show ?thesis using answer reserve_waiting_active(2) [OF reserved] by simp
qed

lemma app_gauges_answer: "never_panics (app_operator_gauges out)"
  by (auto simp: never_panics_def app_operator_gauges_def record_operator_gauges_def
      record_gauges_total [OF operator_gauges_storage, simplified] simp del: not_None_eq
      split: prod.split option.split) (metis option.distinct(1) record_gauges_total [OF operator_gauges_storage])

lemma app_admission_answers: "never_panics (\<lambda>s. record_events out (admission_gauges ctl (app_slots s)) s)"
  by (simp add: never_panics_def never_panicsD [OF record_events_answer [OF admission_gauges_ok]] del: not_None_eq)

lemma app_records:
  assumes "instant_add (uptime out) (query_admission_wait (operator config)) \<noteq> None"
  shows "records_answer (app_services out config)"
proof -
  have "never_panics (app_reserve out config c)" for c
    using assms app_reserve_panics [of out config c] by (simp add: never_panics_def del: not_None_eq)
  then show ?thesis
    by (simp add: records_answer_def app_services_def Let_def record_op_answers app_op_def app_gauges_answer
        app_admission_answers)
qed

lemma app_counted:
  fixes out :: "'f Outside"
  shows "fst (counted (app_connection out config) keep_alive rs) = fst rs"
proof -
  have ok: "app_op (IncOp HttpConnectionRequestsTotal [(''mode'', mode)] 1 :: 'f metric_op)" for mode
    by (simp add: app_op_def validate_metric_labels_def)
  have inc: "inc_metric (app_connection out config) nm ls = record_op out (IncOp nm ls 1)" for nm ls
    by (simp add: app_connection_def)
  show ?thesis
  proof (cases rs)
    case (Pair r t)
    show ?thesis
    proof (cases r)
      case (Some response)
      then show ?thesis
        using never_panicsD [OF record_op_answers [OF ok], of out _ t]
        by (simp add: counted_def Pair inc seq_do_def case_prod_beta split: option.split)
    qed (simp add: counted_def Pair)
  qed
qed

text \<open>
  C11. Only a time at the edge of what a clock can hold panics a request: whatever the route,
  the key, the parameters, the headers, the body and what the database answers, a request is
  answered, and counted, when the times it names and now can be moved as the handlers move
  them, and the monotonic clock can hold the end of the configured wait for a slot. No
  assertion in the metrics fails, no parameter is missing.
\<close>

theorem only_extreme_times_panic:
  assumes "times_ok (library out) (request_params (app_services out config) query hs body)"
    "instant_add (uptime out) (query_admission_wait (operator config)) \<noteq> None"
  shows "\<exists>response t. counted (app_connection out config) keep_alive
    (route_inner (app_services out config) verb path query hs body s) = (Some response, t)"
  using route_inner_answers [OF app_records [OF assms(2)] app_handlers_answer [OF assms(1)], of verb path s]
    app_counted [of out config keep_alive "route_inner (app_services out config) verb path query hs body s"]
  by (cases "counted (app_connection out config) keep_alive (route_inner (app_services out config) verb path query hs body s)") auto

definition rfc3339_library :: "unit Library" where
  "rfc3339_library = sample_library\<lparr>parse_rfc3339 :=
     (\<lambda>raw. if raw = ''2023-11-14T22:13:20Z'' then Some (1700000000 * 1000000000)
            else if raw = ''1677-09-21T00:12:44Z'' then Some (- (2 ^ 63)) else None)\<rparr>"

definition sample_outside :: "unit Outside" where
  "sample_outside =
     \<lparr>library = rfc3339_library, query_env = sample_query_env, meta_env = sample_env [],
      trace_env = \<lparr>span_time = show_int, span_prefix = ''lake.'', span_statement = (\<lambda>_. Inr []),
                   span_error = (\<lambda>_. OtherError ''column'')\<rparr>,
      reader = \<lparr>select_one = None, prepares = (\<lambda>_. None), count_rows = (\<lambda>_. Inr 7),
                latest = (\<lambda>_. Inl ''no rows''), layout_rows = (\<lambda>_. Inr []), lag_since = (\<lambda>x. x)\<rparr>,
      disk = None,
      numbers = \<lparr>of_i64 = (\<lambda>_. ()), of_u64 = (\<lambda>_. ()), is_finite = (\<lambda>_. True)\<rparr>,
      floats = \<lparr>float_zero = (), float_add = (\<lambda>_ _. ()), float_of_u64 = (\<lambda>_. ()), float_fixed6 = (\<lambda>_. ''0'')\<rparr>,
      encode_trace = (\<lambda>_. Inr []), print_json = (\<lambda>_. ''{}''),
      read_json = (\<lambda>_. Some (JObject [(''status'', JString ''ok''), (''storage'', JNull)])),
      package_version = ''1'', elapsed = (), uptime = 5000, sleeps = [3], timed_out = (\<lambda>_. False)\<rparr>"

definition sample_config :: Config where
  "sample_config = \<lparr>operator = OperatorConfig_test ''t.db'' ''s''\<rparr>"

theorem only_extreme_times_panic_witness:
  "\<exists>response t. counted (app_connection sample_outside sample_config) True
     (route_inner (app_services sample_outside sample_config) ''GET'' ''/api/search''
       [(''end'', ''2023-11-14T22:13:20Z'')] [(''x-api-key'', ''test-key'')] [] (app_started sample_storage)) = (Some response, t)"
proof (rule only_extreme_times_panic)
  have "parse_time rfc3339_library ''2023-11-14T22:13:20Z'' = Some (1700000000 * 1000000000)"
    by (simp add: parse_time_def rfc3339_library_def)
  then show "times_ok (library sample_outside) (request_params (app_services sample_outside sample_config)
      [(''end'', ''2023-11-14T22:13:20Z'')] [(''x-api-key'', ''test-key'')] [])"
    by (simp add: request_params_def times_ok_def sample_outside_def shiftable_def lookup_window_def shift_time_def)
      (simp add: rfc3339_library_def sample_library_def)
  show "instant_add (uptime sample_outside) (query_admission_wait (operator sample_config)) \<noteq> None"
    by (simp add: instant_add_def sample_outside_def sample_config_def OperatorConfig_test_def)
qed

text \<open>
  Such times do: the thread of this request panics on the time it names, and of every query
  when the configured wait is beyond the clock, as no check of the configuration prevents.
\<close>

lemma labels_request:
  assumes key: "validate_api_key hs config False = Inr ()"
  shows "route_inner (app_services out config) ''GET'' ''/loki/api/v1/labels'' ps hs [] s =
     answered (app_services out config) ''/loki/api/v1/labels'' (response_json (print_json out) 200)
       (with_guard (app_reserve out config) app_release Cheap
         (\<lambda>s. answering (Compat_Loki.loki_labels (library out) ps) s) s)"
proof -
  let ?svc = "app_services out config"
  have matched: "match_compat_route ''GET'' ''/loki/api/v1/labels'' =
      Some \<lparr>matched_route = compat_route [''GET''] ''/loki/api/v1/labels'' (Exact ''/loki/api/v1/labels'') AdmCheap CompatHandler.LokiLabels,
            route_param = None\<rparr>"
    by code_simp
  have fields: "svc_config ?svc = config" "reserve_slot ?svc = app_reserve out config" "release_guard ?svc = app_release"
    "json_text ?svc = print_json out" "Services.loki_labels ?svc ps = answering (Compat_Loki.loki_labels (library out) ps)"
    by (simp_all add: app_services_def Let_def)
  then have "compat_value ?svc CompatHandler.LokiLabels None ps = answering (Compat_Loki.loki_labels (library out) ps)"
    by (simp add: fun_eq_iff)
  with fields show ?thesis
    by (simp add: route_inner_def matched route_compat_def Let_def compat_route_def compat_http_def authorize_def
        with_query_admission_def request_params_def key)
qed

lemma sample_key: "validate_api_key [(''x-api-key'', ''test-key'')]
    \<lparr>operator = (OperatorConfig_test p d)\<lparr>query_admission_wait := w\<rparr>\<rparr> False = Inr ()"
  by (simp add: OperatorConfig_test_def validate_api_key_def supplied_key_def constant_time_eq_iff as_bytes_inj)

lemma extreme_time_panics:
  "fst (route_inner (app_services sample_outside sample_config) ''GET'' ''/loki/api/v1/labels''
     [(''end'', ''1677-09-21T00:12:44Z'')] [(''x-api-key'', ''test-key'')] [] (app_started sample_storage)) = None"
proof -
  let ?ps = "[(''end'', ''1677-09-21T00:12:44Z'')]"
  have "parse_time rfc3339_library ''1677-09-21T00:12:44Z'' = Some (- (2 ^ 63))"
    by (simp add: parse_time_def rfc3339_library_def)
  then have "optional_range rfc3339_library ?ps max_secs = None" for max_secs
    by (intro optional_range_panics [of _ _ "- (2 ^ 63)"])
      (simp_all add: optional_time_def non_empty_param_def rfc3339_library_def sample_library_def)
  then have "Compat_Loki.loki_labels (library sample_outside) ?ps = None"
    by (simp add: sample_outside_def Compat_Loki.loki_labels_def)
  moreover have "fst (with_guard reserve release c (\<lambda>s. answering None s) s) = None \<or>
      (\<exists>e. fst (reserve c s) = Some (Inl e))" for reserve release c and s :: "unit App"
    by (cases "reserve c s"; cases "fst (reserve c s)"; cases "the (fst (reserve c s))")
      (auto simp: with_guard_def answering_def)
  moreover have "fst (app_reserve sample_outside sample_config Cheap (app_started sample_storage)) \<noteq> Some (Inl e)" for e
    by (rule app_reserve_cases [of sample_config Cheap sample_outside "app_started sample_storage"])
      (auto simp: reserve_waiting_def instant_add_def reserve_attempt_def app_started_def initial_admission_def
        admission_new_def sample_config_def OperatorConfig_test_def sample_outside_def split: if_splits)
  moreover have "validate_api_key [(''x-api-key'', ''test-key'')] sample_config False = Inr ()"
    using sample_key [of 1000 "''t.db''" "''s''"] by (simp add: sample_config_def OperatorConfig_test_def)
  ultimately show ?thesis by (metis labels_request answered_None)
qed

definition huge_wait_config :: Config where
  "huge_wait_config = \<lparr>operator = (OperatorConfig_test ''t.db'' ''s'')\<lparr>query_admission_wait := 1000 * 2 ^ 63\<rparr>\<rparr>"

lemma huge_wait_panics:
  "Config_validate huge_wait_config = Inr () \<and>
   fst (route_inner (app_services out huge_wait_config) ''GET'' ''/loki/api/v1/labels'' ps
     [(''x-api-key'', ''test-key'')] [] s) = None"
proof
  show "Config_validate huge_wait_config = Inr ()"
    by (simp add: huge_wait_config_def Config_validate_def validate_operator_iff OperatorConfig_test_def validate_tls_def
        uses_quack_def trim_plain plain_char_def)
  have "instant_add (uptime out) (1000 * 2 ^ 63) = None" by (simp add: instant_add_def)
  moreover have key: "validate_api_key [(''x-api-key'', ''test-key'')] huge_wait_config False = Inr ()"
    unfolding huge_wait_config_def by (rule sample_key)
  ultimately have "fst (app_reserve out huge_wait_config Cheap s) = None"
    using app_reserve_panics [of out huge_wait_config Cheap s] by (simp add: huge_wait_config_def)
  then show "fst (route_inner (app_services out huge_wait_config) ''GET'' ''/loki/api/v1/labels'' ps
      [(''x-api-key'', ''test-key'')] [] s) = None"
    unfolding labels_request [OF key]
    by (intro answered_None) (simp add: with_guard_def case_prod_beta)
qed

section \<open>The health check, from one end to the other\<close>

definition healthz_document :: "StorageProbe \<Rightarrow> 'f json" where
  "healthz_document p =
     JObject [(''status'', JString (if probe_healthy p then ''ok'' else ''error'')), (''storage'', probe_json p)]"

definition healthz_request :: "HttpTarget \<Rightarrow> ClientRequest" where
  "healthz_request t =
     \<lparr>req_verb = ''GET'', req_target = target_path t,
      req_headers = [(''host'', host t), (''connection'', ''close'')], req_body = []\<rparr>"

lemma healthcheck_request_rendered: "healthcheck_request t = render_request (healthz_request t)"
  by (simp add: healthcheck_request_def healthz_request_def render_request_def render_header_def)

lemma healthz_headers:
  "received_headers (req_headers (healthz_request t)) [] = [(''connection'', ''close''), (''host'', host t)]"
  by (simp add: received_headers_def healthz_request_def insert_param_def to_ascii_lowercase_def ascii_lower_char_def)

lemma healthz_sendable:
  assumes "wordy MAX_WORD (host t)" "wordy MAX_WORD (target_path t)"
  shows "sendable con (healthz_request t)"
proof -
  have "sendable_header (''host'', host t)" "sendable_header (''connection'', ''close'')"
    using assms by (intro sendable_literal; simp add: wordy_def MAX_WORD_def plain_char_def)+
  moreover have "content_length (received_headers (req_headers (healthz_request t)) []) = Some 0"
    by (simp add: healthz_headers content_length_def)
  ultimately show ?thesis
    using assms by (simp add: sendable_def healthz_request_def wordy_def MAX_WORD_def plain_char_def render_header_def)
qed

lemma healthz_answer:
  "route_inner (app_services out config) ''GET'' ''/healthz'' ps hs body s =
     (case probe (reader out) (app_storage s) of (p, st) \<Rightarrow>
        (Some (response_json (print_json out) (if probe_healthy p then 200 else 503) (healthz_document p)),
         s\<lparr>app_storage := st\<rparr>))"
proof -
  have "match_compat_route ''GET'' ''/healthz'' = None" by code_simp
  then show ?thesis
    by (simp add: route_inner_def app_services_def Let_def app_probe_def healthz_document_def split: prod.split)
qed

text \<open>
  C3. The health check and the server agree: when \<open>canardstack healthcheck\<close> sends
  its request, in whatever pieces, the server writes one answer and closes, and the check
  passes on what it reads exactly when the store answered its check at that moment. The
  JSON library is to read back the document it printed, as text.
\<close>

theorem healthcheck_tells_readiness:
  assumes "wordy MAX_WORD (host t)" "target_path t = ''/healthz''"
    "all_bytes bufs" "buffered bufs = healthcheck_request t"
    "read_json out (print_json out (healthz_document (fst (probe (reader out) (app_storage s))))) =
       Some (healthz_document (fst (probe (reader out) (app_storage s))))"
    "is_utf8 (print_json out (healthz_document (fst (probe (reader out) (app_storage s)))))"
  shows "\<exists>wire s'. serve_connection (app_connection out config) bufs s = ([wire], ConnectionClosed, s') \<and>
    (is_ok (and_then (read_response wire) (healthcheck_verdict (read_json out) (print_json out))) \<longleftrightarrow>
       check_health_target (reader out) (app_storage s) = Inr ())"
proof -
  let ?con = "app_connection out config"
  obtain p st where probed: "probe (reader out) (app_storage s) = (p, st)" by force
  let ?doc = "healthz_document p"
  let ?r = "response_json (print_json out) (if probe_healthy p then 200 else 503) ?doc"
  have "handle_stream ?con 0 bufs s = answer_requests ?con 0 [healthz_request t] s"
    using assms(1-4) by (intro handle_sent_requests) (simp_all add: healthz_sendable healthcheck_request_rendered
      wordy_def MAX_WORD_def plain_char_def)
  moreover have "split_target ''/healthz'' = (''/healthz'', [])" by code_simp
  moreover have "close_requested [(''connection'', ''close''), (''host'', host t)]"
    by (simp add: close_requested_def eq_ignore_ascii_case_def)
  moreover obtain u where "counted ?con False (Some ?r, s\<lparr>app_storage := st\<rparr>) = (Some ?r, u)"
    using app_counted [of out config False "(Some ?r, s\<lparr>app_storage := st\<rparr>)"]
    by (cases "counted ?con False (Some ?r, s\<lparr>app_storage := st\<rparr>)") simp
  moreover have "services ?con = app_services out config" by (simp add: app_connection_def)
  ultimately obtain s' where served:
      "serve_connection ?con bufs s = ([write_response_with_connection ?r False], ConnectionClosed, s')"
    using assms(2) healthz_headers [of t]
    by (simp add: serve_connection_def healthz_request_def healthz_answer probed
        should_keep_connection_alive_def KEEPALIVE_REQUEST_LIMIT_def Let_def)
  have r: "content_type ?r = ''application/json''" "resp_body ?r = print_json out ?doc"
    "resp_status ?r = (if probe_healthy p then 200 else 503)"
    by (simp_all add: response_json_def)
  have "is_ok (and_then (read_response (write_response ?r)) (healthcheck_verdict (read_json out) (print_json out))) \<longleftrightarrow>
      resp_status ?r = 200 \<and> (\<exists>kvs. read_json out (resp_body ?r) = Some (JObject kvs) \<and> map_of kvs ''status'' = Some (JString ''ok''))"
    using assms(6) probed r by (intro reads_written [THEN conjunct2]) (simp_all add: is_utf8_ascii)
  also have "\<dots> \<longleftrightarrow> probe_healthy p"
    using assms(5) probed unfolding r by (simp add: healthz_document_def)
  also have "\<dots> \<longleftrightarrow> check_health_target (reader out) (app_storage s) = Inr ()"
    using probed by (auto simp: probe_def healthy_def split: sum.splits)
  finally show ?thesis using served by (auto simp: write_response_def)
qed

definition ready_outside :: "unit Outside" where
  "ready_outside = sample_outside\<lparr>read_json := (\<lambda>_. Some (healthz_document
     \<lparr>probe_healthy = True, probe_mode = storage_mode sample_storage, probe_error = None\<rparr>))\<rparr>"

theorem healthcheck_tells_readiness_witness:
  "\<exists>wire s'. serve_connection (app_connection ready_outside sample_config)
       [Bytes (healthcheck_request \<lparr>host = ''localhost'', port = 9090, target_path = ''/healthz''\<rparr>)]
       (app_started sample_storage) = ([wire], ConnectionClosed, s') \<and>
     is_ok (and_then (read_response wire) (healthcheck_verdict (read_json ready_outside) (print_json ready_outside)))"
proof -
  let ?t = "\<lparr>host = ''localhost'', port = 9090, target_path = ''/healthz''\<rparr>"
  let ?s = "app_started sample_storage :: unit App"
  have check: "check_health_target (reader ready_outside) (app_storage ?s) = Inr ()"
    by (simp add: ready_outside_def sample_outside_def check_health_target_def)
  then have "fst (probe (reader ready_outside) (app_storage ?s)) =
      \<lparr>probe_healthy = True, probe_mode = storage_mode sample_storage, probe_error = None\<rparr>"
    by (simp add: probe_def healthy_def app_started_def)
  then have "\<exists>wire s'. serve_connection (app_connection ready_outside sample_config) [Bytes (healthcheck_request ?t)] ?s =
        ([wire], ConnectionClosed, s') \<and>
      (is_ok (and_then (read_response wire) (healthcheck_verdict (read_json ready_outside) (print_json ready_outside))) \<longleftrightarrow>
        check_health_target (reader ready_outside) (app_storage ?s) = Inr ())"
    by (intro healthcheck_tells_readiness)
      (simp_all add: wordy_def MAX_WORD_def plain_char_def all_bytes_def ready_outside_def sample_outside_def is_utf8_ascii)
  with check show ?thesis by simp
qed

end
