(* ===== verification/Startup.thy ===== *)
theory Startup
  imports App
begin

text \<open>
  Starting the server, \<^verbatim>\<open>serve\<close> of \<^verbatim>\<open>src/src/main.rs\<close>: options, settings and
  their check, the TLS front end, and the application over the opened store. What it serves
  then is \<open>Listener\<close>, behind \<open>Terminator\<close> when there is a front end.
\<close>

section \<open>Starting\<close>

datatype 'f startup =
  StartPanicked
| StartFailed string
| UsageShown
| StoreFailed OpenError
| Serving "(string \<times> string \<times> TlsIdentity) option" Config "'f App"

definition start_serving :: "bool \<Rightarrow> Host \<Rightarrow> string + Config \<Rightarrow> string list \<Rightarrow> World \<Rightarrow> 'f startup \<times> World" where
  "start_serving tls_built machine from_env args w =
     (case serve_setup tls_built from_env args of
        None \<Rightarrow> (StartPanicked, w)
      | Some (Inl e) \<Rightarrow> (StartFailed e, w)
      | Some (Inr None) \<Rightarrow> (UsageShown, w)
      | Some (Inr (Some (front, config))) \<Rightarrow>
          (case AppState_new machine config w of
             (Inl e, w') \<Rightarrow> (StoreFailed e, w')
           | (Inr app, w') \<Rightarrow> (Serving front config app, w')))"

text \<open>What is served with was checked, but for the address the server listens on.\<close>

lemma setup_checked:
  assumes "serve_setup tls_built from_env args = Some (Inr (Some (front, config)))"
  shows "\<exists>checked. Config_validate checked = Inr () \<and>
    operator config = (operator checked)\<lparr>bind := bind (operator config)\<rparr>"
proof -
  obtain checked where "Config_validate checked = Inr ()" "prepare_serve_tls checked = Some (front, config) \<or> config = checked"
    using assms by (auto simp: serve_setup_def Let_def split: sum.splits option.splits if_splits)
  then show ?thesis
    by (intro exI [of _ checked])
      (auto simp: prepare_serve_tls_def Let_def bind_eq_Some_conv split: if_splits TlsMode.splits)
qed

definition keys_guard :: "OperatorConfig \<Rightarrow> bool" where
  "keys_guard c = (trim (api_key c) \<noteq> [] \<and> trim (admin_api_key c) \<noteq> [] \<and> api_key c \<noteq> admin_api_key c)"

text \<open>Every class of query has a slot, and the two classes share the configured number.\<close>

definition slots_shared :: "Config \<Rightarrow> bool" where
  "slots_shared config =
     (let ctl = admission_new config in
      0 < cheap_query_capacity ctl \<and> 0 < heavy_query_capacity ctl \<and>
      cheap_query_capacity ctl + heavy_query_capacity ctl = concurrency (query_interactive (operator config)))"

lemma setup_guards:
  assumes "serve_setup tls_built from_env args = Some (Inr (Some (front, config)))"
  shows "keys_guard (operator config)" "slots_shared config"
    "0 < max_concurrent_connections (operator config)" "0 < max_body_bytes (operator config)"
    "0 < timeout_secs (query_interactive (operator config))"
proof -
  obtain checked where valid: "Config_validate checked = Inr ()"
    and same: "operator config = (operator checked)\<lparr>bind := bind (operator config)\<rparr>"
    using setup_checked [OF assms] by blast
  note exact = valid [unfolded validate_exact Let_def]
  have fields: "api_key (operator config) = api_key (operator checked)"
    "admin_api_key (operator config) = admin_api_key (operator checked)"
    "query_interactive (operator config) = query_interactive (operator checked)"
    "cheap_query_admission_capacity (operator config) = cheap_query_admission_capacity (operator checked)"
    "max_concurrent_connections (operator config) = max_concurrent_connections (operator checked)"
    "max_body_bytes (operator config) = max_body_bytes (operator checked)"
    by (subst same, simp)+
  show "keys_guard (operator config)" using exact by (simp add: keys_guard_def fields)
  have "admission_new config = admission_new checked" by (simp add: admission_new_def fields)
  then show "slots_shared config"
    using capacities_partition_concurrency [OF valid] by (simp add: slots_shared_def fields)
  show "0 < max_concurrent_connections (operator config)" "0 < max_body_bytes (operator config)"
    "0 < timeout_secs (query_interactive (operator config))"
    using exact by (simp_all add: fields)
qed

text \<open>C6. Starting is guarded, in either build. It never panics. A wrong option, or a setting
  that the check of the configuration refuses, is refused before the database file is opened,
  and nothing is touched. The settings of the catalog that are looked at only when it is
  attached are refused with the file opened and configured but the catalog as it was
  (\<open>OpenFailed\<close>); past that, tables may have been made before the catalog is refused
  (\<open>BootFailed\<close>), but its version is never moved from one that it has. What is served has keys
  that guard, limits above zero, a slot for every class of query, a catalog of an accepted
  version, and, exactly when TLS is on, which only a build with the feature allows, a front
  end at another address than the server's.\<close>

theorem startup_guarded:
  "case start_serving tls_built machine from_env args w :: 'f startup \<times> World of (outcome, w') \<Rightarrow>
     version_settled (stored VERSION_KEY (catalog w)) (stored VERSION_KEY (catalog w')) \<and>
     (case outcome of
        StartPanicked \<Rightarrow> False
      | StartFailed e \<Rightarrow> w' = w
      | UsageShown \<Rightarrow> w' = w \<and> parse_serve_options args = Inr None
      | StoreFailed e \<Rightarrow>
          is_ok from_env \<and> (case e of OpenFailed _ \<Rightarrow> catalog w' = catalog w | BootFailed _ \<Rightarrow> True)
      | Serving front config app \<Rightarrow>
          keys_guard (operator config) \<and> slots_shared config \<and>
          0 < max_concurrent_connections (operator config) \<and> 0 < max_body_bytes (operator config) \<and>
          0 < timeout_secs (query_interactive (operator config)) \<and>
          version_accepted (stored VERSION_KEY (catalog w')) \<and>
          (case front of
             None \<Rightarrow> \<not> tls_enabled (tls (operator config))
           | Some (public, backend, identity) \<Rightarrow>
               tls_built \<and> tls_enabled (tls (operator config)) \<and> backend \<noteq> public \<and>
               bind (operator config) = backend))"
proof (cases "serve_setup tls_built from_env args")
  case None
  with serve_setup_total [where tls_built = tls_built and from_env = from_env and args = args] show ?thesis by simp
next
  case (Some outcome)
  have refl: "version_settled v v" for v by (simp add: version_settled_def)
  show ?thesis
  proof (cases "\<exists>front config. outcome = Inr (Some (front, config))")
    case False
    with Some serve_setup_total [where tls_built = tls_built and from_env = from_env and args = args] refl show ?thesis
      by (auto simp: start_serving_def split: sum.splits option.splits)
  next
    case True
    then obtain front config where prepared: "serve_setup tls_built from_env args = Some (Inr (Some (front, config)))"
      using Some by blast
    obtain r w' where opened: "Storage_open machine config w = (r, w')" by force
    have told: "is_ok from_env" "case front of
        None \<Rightarrow> \<not> tls_enabled (tls (operator config))
      | Some (public, backend, identity) \<Rightarrow>
          tls_built \<and> tls_enabled (tls (operator config)) \<and> backend \<noteq> public \<and> bind (operator config) = backend"
      using serve_setup_total [where tls_built = tls_built and from_env = from_env and args = args] prepared by (auto simp: is_ok_iff split: option.splits)
    have "(start_serving tls_built machine from_env args w :: 'f startup \<times> World) =
        (case r of Inl e \<Rightarrow> (StoreFailed e, w') | Inr st \<Rightarrow> (Serving front config (app_started st), w'))"
      by (simp add: start_serving_def prepared AppState_new_def opened split: sum.split)
    with storage_guarded [where host = machine and config = config and w = w] setup_guards [OF prepared] told show ?thesis
      by (cases r) (simp_all add: opened)
  qed
qed

end
