(* ===== verification/Unit_Tests.thy ===== *)
theory Unit_Tests
  imports LogQL DuckLake Process Server Admission Metrics Schema
begin

text \<open>
  The unit tests of the repository (the \<^verbatim>\<open>tests\<close> modules under \<^verbatim>\<open>src/src/\<close>) on
  the model: each lemma bears the name of a test, and the kernel computes that the model
  gives what the test expects of the code. Left out are tests that need a database, a socket
  or a certificate, two that are long to compute, and the ones that theorems subsume:
  that an alias means one label (\<open>Semantic_Labels\<close>), the reading of PEM files
  (\<open>Tls_Identity\<close>).
\<close>

section \<open>Attach statements (\<^verbatim>\<open>storage/mod.rs\<close>)\<close>

definition attach_in_dir ::
  "string option \<Rightarrow> string option \<Rightarrow> string option \<Rightarrow> string option \<Rightarrow> string option \<Rightarrow> bool \<Rightarrow>
   string + DuckLakeAttachPlan" where
  "attach_in_dir postgres uri catalog data token insecure =
     build_ducklake_attach_plan postgres uri catalog data token insecure ''/d/canardstack.duckdb'' ''/d/storage''"

definition plan_of :: "string + DuckLakeAttachPlan \<Rightarrow> DuckLakeAttachPlan option" where
  "plan_of r = (case r of Inr plan \<Rightarrow> Some plan | Inl _ \<Rightarrow> None)"

definition error_of :: "string + 'a \<Rightarrow> string" where
  "error_of r = (case r of Inl e \<Rightarrow> e | Inr _ \<Rightarrow> [])"

lemma custom_ducklake_attach_uri_uses_ducklake_extension_and_canardlake_alias:
  "map_option (\<lambda>p. (plan_sql p, plan_mode p, needs_ducklake p, needs_postgres p))
     (plan_of (attach_in_dir None (Some ''ducklake:md:test-ducklake'') None None None False)) =
   Some (''ATTACH '' @ [SQ] @ ''ducklake:md:test-ducklake'' @ [SQ] @ '' AS canardlake; USE canardlake;'',
     ''ducklake_custom_uri'', True, False)"
  by code_simp

lemma motherduck_attach_uri_uses_md_extension_and_canardlake_alias:
  "map_option (\<lambda>p. (plan_sql p, plan_mode p, needs_ducklake p, needs_motherduck p, needs_quack p, needs_postgres p))
     (plan_of (attach_in_dir None (Some ''md:test-ducklake'') None None None False)) =
   Some (''ATTACH '' @ [SQ] @ ''md:test-ducklake'' @ [SQ] @ '' AS canardlake; USE canardlake;'',
     ''ducklake_motherduck_remote'', False, True, False, False)"
  by code_simp

lemma quack_attach_uri_loads_quack_and_creates_secret:
  "map_option (\<lambda>p. (plan_sql p, needs_ducklake p, needs_quack p))
     (plan_of (attach_in_dir None (Some ''ducklake:quack:catalog.internal:443'') None
       (Some ''s3://canardstack-data/prod/'') (Some (''catalog'' @ [SQ] @ ''token'')) False)) =
   Some (''CREATE OR REPLACE SECRET canardstack_ducklake_quack (TYPE quack, SCOPE '' @ [SQ] @
       ''quack:catalog.internal:443'' @ [SQ] @ '', TOKEN '' @ [SQ] @ ''catalog'' @ [SQ, SQ] @ ''token'' @ [SQ] @
       ''); ATTACH '' @ [SQ] @ ''ducklake:quack:catalog.internal:443'' @ [SQ] @ '' AS canardlake (DATA_PATH '' @ [SQ] @
       ''s3://canardstack-data/prod/'' @ [SQ] @ ''); USE canardlake;'', True, True)"
  by code_simp

lemma object_store_kind_detects_cloud_schemes:
  "object_store_kind ''s3://canardstack-data/prod/'' = Some S3 \<and> object_store_kind ''s3a://bucket/x'' = Some S3 \<and>
   object_store_kind ''gcs://bucket/p/'' = Some Gcs \<and> object_store_kind ''gs://bucket/p/'' = Some Gcs \<and>
   object_store_kind ''/var/lib/canardstack/storage'' = None"
  by code_simp

lemma custom_attach_uri_must_be_uri_not_attach_statement:
  "str_contains (error_of (attach_in_dir None (Some (''ATTACH '' @ [SQ] @ ''md:test-ducklake'' @ [SQ] @ '';'')) None None None False))
     ''must be the URI only, not an ATTACH statement''"
  by code_simp

lemma quack_attach_uri_insecure_tls_adds_scoped_verify_ssl_secret:
  "case (attach_in_dir None (Some ''ducklake:quack:catalog.internal:9494'') None (Some ''s3://canardstack-data/prod/'') (Some ''catalog-token'') True) of
     Inr p \<Rightarrow> str_contains (plan_sql p) (''CREATE OR REPLACE SECRET canardstack_quack_tls (TYPE HTTP, SCOPE '' @ [SQ] @ ''https://catalog.internal:9494'' @ [SQ] @ '', VERIFY_SSL 0);'') \<and>
       str_contains (plan_sql p) (''CREATE OR REPLACE SECRET canardstack_ducklake_quack (TYPE quack, SCOPE '' @ [SQ] @ ''quack:catalog.internal:9494'' @ [SQ] @ '', TOKEN '' @ [SQ] @ ''catalog-token'' @ [SQ] @ '');'') \<and>
       \<not> str_contains (plan_sql p) ''DISABLE_SSL'' \<and>
       needs_quack p
   | Inl e \<Rightarrow> False"
  by code_simp

lemma quack_attach_uri_requires_token_to_attach:
  "str_contains (error_of (attach_in_dir None (Some ''ducklake:quack:catalog.internal:443'') None (Some ''s3://canardstack-data/prod/'') None False))
     ''CANARDSTACK_DUCKLAKE_QUACK_TOKEN must be set''"
  by code_simp

lemma custom_attach_uri_and_postgres_catalog_are_mutually_exclusive:
  "str_contains (error_of (attach_in_dir (Some ''dbname=ducklake_catalog host=localhost'') (Some ''ducklake:md:test-ducklake'') None None None False))
     ''set only one of CANARDSTACK_POSTGRES_DSN or CANARDSTACK_DUCKLAKE_ATTACH_URI''"
  by code_simp

lemma catalog_path_requires_local_duckdb_catalog:
  "str_contains (error_of (attach_in_dir None (Some ''ducklake:/catalog/canardstack.ducklake'') (Some ''/d/catalog.ducklake'') None None False))
     ''CANARDSTACK_DUCKLAKE_CATALOG_PATH can only be set''"
  by code_simp

lemma local_ducklake_attach_uses_data_path:
  "case (attach_in_dir None None None None None False) of
     Inr p \<Rightarrow> str_contains (plan_sql p) ''DATA_PATH''
   | Inl e \<Rightarrow> False"
  by code_simp

lemma local_ducklake_attach_accepts_object_store_data_path:
  "case (attach_in_dir None None None (Some ''s3://canardstack-data/prod/'') None False) of
     Inr p \<Rightarrow> str_contains (plan_sql p) (''(DATA_PATH '' @ [SQ] @ ''s3://canardstack-data/prod/'' @ [SQ] @ '')'')
   | Inl e \<Rightarrow> False"
  by code_simp

lemma local_ducklake_attach_accepts_catalog_path_override:
  "case (attach_in_dir None None (Some ''/d/catalog/canardstack.ducklake'') (Some ''s3://canardstack-data/prod/'') None False) of
     Inr p \<Rightarrow> str_contains (plan_sql p) (''ATTACH '' @ [SQ] @ ''ducklake:/d/catalog/canardstack.ducklake'' @ [SQ] @ '' AS canardlake'') \<and>
       str_contains (plan_sql p) (''(DATA_PATH '' @ [SQ] @ ''s3://canardstack-data/prod/'' @ [SQ] @ '')'')
   | Inl e \<Rightarrow> False"
  by code_simp

lemma s3_secret_uses_credential_chain_and_optional_region:
  "object_store_secret_sql S3 (Some ''us-west-2'') =
     (''CREATE OR REPLACE SECRET canardstack_object_store (TYPE s3, PROVIDER credential_chain, REGION '' @ [SQ] @ ''us-west-2'' @ [SQ] @ '');'') \<and>
   object_store_secret_sql S3 None =
     ''CREATE OR REPLACE SECRET canardstack_object_store (TYPE s3, PROVIDER credential_chain);''"
  by code_simp

lemma gcs_secret_uses_credential_chain:
  "object_store_secret_sql Gcs None =
     ''CREATE OR REPLACE SECRET canardstack_object_store (TYPE gcs, PROVIDER credential_chain);''"
  by code_simp

lemma s3_data_path_sets_object_store_on_plan:
  "map_option object_store (plan_of (attach_in_dir None None None (Some ''s3://canardstack-data/prod/'') None False)) = Some (Some S3)"
  by code_simp

lemma local_data_path_has_no_object_store:
  "map_option object_store (plan_of (attach_in_dir None None None None None False)) = Some None"
  by code_simp

lemma custom_duckdb_ducklake_attach_accepts_object_store_data_path:
  "map_option plan_sql (plan_of (attach_in_dir None (Some ''ducklake:/catalog/canardstack.ducklake'') None (Some ''gcs://canardstack-data/prod/'') None False)) =
     Some (''ATTACH '' @ [SQ] @ ''ducklake:/catalog/canardstack.ducklake'' @ [SQ] @ '' AS canardlake (DATA_PATH '' @ [SQ] @ ''gcs://canardstack-data/prod/'' @ [SQ] @ ''); USE canardlake;'')"
  by code_simp

lemma custom_attach_uri_must_be_md_or_ducklake_uri:
  "str_contains (error_of (attach_in_dir None (Some ''sqlite:/tmp/not-ducklake.db'') None None None False))
     ''must be an md: or ducklake: URI''"
  by code_simp

lemma motherduck_attach_uri_rejects_custom_data_path:
  "str_contains (error_of (attach_in_dir None (Some ''md:test-ducklake'') None (Some ''s3://canardstack-data/prod/'') None False))
     ''CANARDSTACK_DUCKLAKE_DATA_PATH cannot be set''"
  by code_simp

section \<open>Queries (\<^verbatim>\<open>query/log.rs\<close>, \<^verbatim>\<open>query/trace.rs\<close>)\<close>

definition an_hour :: TimeBounds where
  "an_hour = \<lparr>bounds_from = 0, bounds_to = 3600000000\<rparr>"

lemma loki_selector_aliases_normalize_to_promoted_fields:
  "case parse_loki_query (''{service.name='' @ [DQ] @ ''checkout'' @ [DQ] @ '',http.route='' @ [DQ] @ ''/smoke'' @ [DQ] @ ''} |= '' @ [DQ] @ ''timeout'' @ [DQ]) an_hour 100 ''forward'' of
     Inr plan \<Rightarrow> matcher_value (log_selector plan) ''service_name'' = Some ''checkout'' \<and>
       matcher_value (log_selector plan) ''http_route'' = Some ''/smoke'' \<and>
       text_filters (log_selector plan) = [BodyContains ''timeout''] \<and> direction plan = Forward
   | Inl e \<Rightarrow> False"
  by code_simp

lemma loki_selector_conflicting_aliases_fail_closed:
  "case parse_loki_query (''{service.name='' @ [DQ] @ ''checkout'' @ [DQ] @ '',service_name='' @ [DQ] @ ''payments'' @ [DQ] @ ''}'') an_hour 100 ''backward'' of
     Inl e \<Rightarrow> reason e = ''unsupported_selector'' | Inr _ \<Rightarrow> False"
  by code_simp

lemma loki_selector_supports_regex_and_resource_aliases:
  "case parse_loki_query (''{resource.service.name=~'' @ [DQ] @ ''front.*'' @ [DQ] @ '',resource.service.namespace='' @ [DQ] @ ''demo'' @ [DQ] @ '',severity.text!='' @ [DQ] @ ''DEBUG'' @ [DQ] @ ''} |~ '' @ [DQ] @ ''GET|POST'' @ [DQ]) an_hour 100 ''backward'' of
     Inr plan \<Rightarrow> matcher_value (log_selector plan) ''service_namespace'' = Some ''demo'' \<and>
       text_filters (log_selector plan) = [BodyRegex ''GET|POST'']
   | Inl e \<Rightarrow> False"
  by code_simp

lemma loki_selector_keeps_commas_inside_quoted_regex_matchers:
  "case parse_loki_query (''{service.name=~'' @ [DQ] @ ''frontend,checkout'' @ [DQ] @ '',severity.text!='' @ [DQ] @ ''DEBUG'' @ [DQ] @ ''}'') an_hour 100 ''backward'' of
     Inr plan \<Rightarrow> map_option (\<lambda>m. (mvalue m, match_op m)) (List.find (\<lambda>m. field m = ''service_name'') (matchers (log_selector plan))) =
         Some (''frontend,checkout'', Regex)
   | Inl e \<Rightarrow> False"
  by code_simp

lemma tempo_search_conflicting_aliases_fail_closed:
  "case plan_tempo_search [(''service.name'', ''checkout''), (''serviceName'', ''payments'')] an_hour 20 of
     Inl e \<Rightarrow> reason e = ''unsupported_selector'' | Inr _ \<Rightarrow> False"
  by code_simp

section \<open>Process and connections (\<^verbatim>\<open>main.rs\<close>, \<^verbatim>\<open>cli/healthcheck.rs\<close>, \<^verbatim>\<open>logging.rs\<close>, \<^verbatim>\<open>http/server.rs\<close>)\<close>

lemma parse_serve_options_accepts_listen_equals:
  "parse_serve_options [''--listen=127.0.0.1:9495''] = Inr (Some (Some ''127.0.0.1:9495''))"
  by code_simp

lemma parse_serve_options_accepts_listen:
  "parse_serve_options [''--listen'', ''127.0.0.1:4320''] = Inr (Some (Some ''127.0.0.1:4320''))"
  by code_simp

lemma parse_serve_options_help_is_ok_none:
  "parse_serve_options [''--help''] = Inr None"
  by code_simp

lemma parse_endpoint_accepts_named_endpoint:
  "parse_endpoint [''--endpoint'', ''http://127.0.0.1:4319/healthz''] = Inr (Some ''http://127.0.0.1:4319/healthz'')"
  by code_simp

lemma parse_endpoint_uses_default_query_port:
  "parse_endpoint [] = Inr (Some ''http://127.0.0.1:9090/healthz'')"
  by code_simp

lemma parse_endpoint_rejects_positional_url:
  "str_contains (error_of (parse_endpoint [''http://127.0.0.1:8080/healthz''])) ''unknown healthcheck argument''"
  by code_simp

lemma parse_endpoint_help_is_ok_none:
  "parse_endpoint [''--help''] = Inr None"
  by code_simp

lemma parses_rust_log_style_level_directive:
  "parse_level ''warn'' = Some (UpTo Warn) \<and> parse_level ''canardstack=debug'' = Some (UpTo Debug) \<and>
   parse_level ''info,duckdb=warn'' = Some (UpTo Info)"
  by code_simp

lemma quotes_logfmt_values_when_needed:
  "logfmt_value (''a value='' @ [DQ] @ ''x'' @ [DQ]) =
     ([DQ] @ ''a value='' @ [BSLASH] @ [DQ] @ ''x'' @ [BSLASH] @ [DQ] @ [DQ])"
  by code_simp

lemma level_filter_enables_more_severe_events:
  "level_enabled (UpTo Warn) Error \<and> level_enabled (UpTo Warn) Warn \<and> \<not> level_enabled (UpTo Warn) Info"
  by code_simp

lemma keepalive_request_limit_marks_final_response_connection_close:
  "should_keep_connection_alive False (KEEPALIVE_REQUEST_LIMIT - 1) \<and>
   \<not> should_keep_connection_alive False KEEPALIVE_REQUEST_LIMIT \<and>
   \<not> should_keep_connection_alive True (KEEPALIVE_REQUEST_LIMIT - 1)"
  by (simp add: should_keep_connection_alive_def KEEPALIVE_REQUEST_LIMIT_def)

section \<open>Labels (\<^verbatim>\<open>semantic_labels.rs\<close>)\<close>

lemma logs_projection_set_is_pinned_to_registry:
  "map fst (projected_labels Logs) =
     [''service_name'', ''service_namespace'', ''service_instance_id'', ''deployment_environment'', ''host_name'',
      ''scope_name'', ''severity_text'', ''trace_id'', ''span_id'', ''http_route'', ''http_method'', ''http_status_code'']"
  by code_simp

lemma projected_labels_all_resolve_to_an_expression:
  "list_all (\<lambda>s. length (filter (\<lambda>l. s \<in> set (project l)) LABELS) = length (projected_labels s)) [Logs, Spans, LabelScope.Metrics]"
  by code_simp

lemma high_cardinality_labels_are_registered:
  "list_all (\<lambda>nm. list_ex (\<lambda>l. canonical l = nm) LABELS) HIGH_CARDINALITY"
  by code_simp

lemma high_cardinality_labels_are_never_materialized:
  "list_all (\<lambda>l. if canonical l \<in> set HIGH_CARDINALITY
       then list_all (\<lambda>s. \<not> metadata_label_allowed s l) [Logs, Spans, LabelScope.Metrics] else True) LABELS"
  by code_simp

lemma logs_materialized_set_is_pinned:
  "map fst (metadata_labels Logs) =
     [''service_name'', ''service_namespace'', ''deployment_environment'', ''host_name'', ''scope_name'', ''severity_text'', ''http_route'', ''http_method'']"
  by code_simp

section \<open>Configuration (\<^verbatim>\<open>config.rs\<close>)\<close>

text \<open>A TOML document as a tree, and the accessors of the library on it.\<close>

datatype toml_item = TomlTable "(string \<times> toml_item) list" | TomlString string | TomlInt int | TomlBool bool

definition toml_tree :: "toml_item Toml" where
  "toml_tree =
     \<lparr>table_get = (\<lambda>i k. case i of TomlTable kvs \<Rightarrow> map_of kvs k | _ \<Rightarrow> None),
      as_str = (\<lambda>i. case i of TomlString s \<Rightarrow> Some s | _ \<Rightarrow> None),
      as_integer = (\<lambda>i. case i of TomlInt n \<Rightarrow> Some n | _ \<Rightarrow> None),
      as_bool = (\<lambda>i. case i of TomlBool b \<Rightarrow> Some b | _ \<Rightarrow> None)\<rparr>"

definition env_of :: "(string \<times> string) list \<Rightarrow> environment" where
  "env_of vars name = (case map_of vars name of Some v \<Rightarrow> Present v | None \<Rightarrow> NotPresent)"

definition no_file :: "toml_item FileConfig" where
  "no_file = \<lparr>doc = None, toml = toml_tree\<rparr>"

definition test_file :: "toml_item FileConfig" where
  "test_file = \<lparr>doc = Some (TomlTable
     [(''server'', TomlTable
         [(''bind'', TomlString ''0.0.0.0:9999''), (''max_body_bytes'', TomlInt 12345), (''max_connections'', TomlInt 42),
          (''tls'', TomlTable [(''enabled'', TomlBool True), (''mode'', TomlString ''ephemeral_self_signed''),
             (''backend_bind'', TomlString ''127.0.0.1:9443'')])]),
      (''auth'', TomlTable [(''api_key'', TomlString ''file-api-key''), (''admin_api_key'', TomlString ''file-admin-api-key'')]),
      (''paths'', TomlTable [(''data_dir'', TomlString ''file-data''),
         (''duckdb_extension_dir'', TomlString ''/opt/duckdb/extensions'')]),
      (''duckdb'', TomlTable [(''memory_limit'', TomlString ''2GiB'')]),
      (''ducklake'', TomlTable [(''attach_uri'', TomlString ''md:file''),
         (''catalog_path'', TomlString ''/catalog/canardstack.ducklake''),
         (''data_path'', TomlString ''s3://file-bucket/canardstack/''), (''quack_token'', TomlString ''file-quack-token'')]),
      (''query'', TomlTable [(''concurrency'', TomlInt 6), (''timeout_secs'', TomlInt 7),
         (''memory_limit'', TomlString ''384MiB''), (''admission_wait_ms'', TomlInt 250)]),
      (''admission'', TomlTable [(''cheap_query_capacity'', TomlInt 2)])]), toml = toml_tree\<rparr>"

definition test_env :: environment where
  "test_env = env_of
     [(''CANARDSTACK_BIND'', ''127.0.0.1:4319''), (''CANARDSTACK_TLS_BACKEND_BIND'', ''127.0.0.1:9444''),
      (''CANARDSTACK_DUCKLAKE_ATTACH_URI'', []),
      (''CANARDSTACK_DUCKLAKE_CATALOG_PATH'', ''/env/catalog.ducklake''),
      (''CANARDSTACK_DUCKLAKE_DATA_PATH'', ''gcs://env-bucket/canardstack/''),
      (''CANARDSTACK_DUCKLAKE_QUACK_TOKEN'', ''env-quack-token'')]"

text \<open>What reading a setting comes to, so that the simplifier can run the configuration.\<close>

lemmas reading = env_string_def env_optional_string_def env_usize_def env_bool_def file_string_def
  file_optional_string_def file_usize_def file_bool_def file_read_def file_item_def either_def or_default_def
  optional_setting_def reject_removed_bool_def duration_ms_or_secs_def

lemmas test_inputs = env_of_def no_file_def toml_tree_def test_env_def test_file_def

lemma tls_file_mode_requires_cert_and_key:
  "error_of (and_then (Config_from_env (env_of [(''CANARDSTACK_TLS_ENABLED'', ''true''),
       (''CANARDSTACK_TLS_MODE'', ''file''), (''CANARDSTACK_TLS_CERT_FILE'', ''/tmp/cert.pem'')]) no_file) Config_validate) =
     ''CANARDSTACK_TLS_KEY_FILE must be set when CANARDSTACK_TLS_ENABLED=true and CANARDSTACK_TLS_MODE=file''"
proof -
  have "to_ascii_lowercase (trim ''true'') = ''true''" "trim ''file'' = ''file''"
    "trim ''dev-canardstack-key'' \<noteq> []" "trim ''dev-canardstack-admin-key'' \<noteq> []" "trim ''127.0.0.1:4319'' \<noteq> []"
    by code_simp+
  then show ?thesis
    by (simp add: Config_from_env_def OperatorConfig_from_env_def reading test_inputs TlsMode_parse_def error_of_def
        Config_validate_def validate_operator_def validate_tls_def ensure_def)
qed

lemma config_file_values_load_before_env_overrides:
  "map_ok operator (Config_from_env test_env test_file) = Inr
     \<lparr>bind = ''127.0.0.1:4319'',
      tls = \<lparr>tls_enabled = True, tls_mode = TlsMode.EphemeralSelfSigned, cert_file = None, key_file = None,
             backend_bind = ''127.0.0.1:9444''\<rparr>,
      api_key = ''file-api-key'', admin_api_key = ''file-admin-api-key'',
      duckdb_path = ''file-data/canardstack.duckdb'', local_storage_dir = ''file-data/storage'',
      duckdb_extension_dir = Some ''/opt/duckdb/extensions'', postgres_dsn = None, ducklake_attach_uri = None,
      ducklake_catalog_path = Some ''/env/catalog.ducklake'',
      ducklake_data_path = Some ''gcs://env-bucket/canardstack/'',
      ducklake_quack_token = Some ''env-quack-token'', ducklake_quack_insecure_tls = False,
      max_body_bytes = 12345, duckdb_write_memory_limit = ''2GiB'',
      query_interactive = \<lparr>concurrency = 6, timeout_secs = 7, memory_limit = ''384MiB''\<rparr>,
      query_admission_wait = 250, cheap_query_admission_capacity = 2, max_concurrent_connections = 42,
      socket_read_timeout = 30000, socket_write_timeout = 30000\<rparr>"
proof -
  have "trim ''ephemeral_self_signed'' = ''ephemeral_self_signed''"
    "trimmed_non_empty ''/opt/duckdb/extensions'' = Some ''/opt/duckdb/extensions''" "trimmed_non_empty [] = None"
    "trimmed_non_empty ''/env/catalog.ducklake'' = Some ''/env/catalog.ducklake''"
    "trimmed_non_empty ''gcs://env-bucket/canardstack/'' = Some ''gcs://env-bucket/canardstack/''"
    "trimmed_non_empty ''env-quack-token'' = Some ''env-quack-token''"
    "path_join ''file-data'' ''canardstack.duckdb'' = ''file-data/canardstack.duckdb''"
    "path_join ''file-data'' ''storage'' = ''file-data/storage''"
    by code_simp+
  then show ?thesis
    by (simp add: Config_from_env_def OperatorConfig_from_env_def reading test_inputs TlsMode_parse_def)
qed
lemma removed_config_is_rejected:
  "error_of (Config_from_env (env_of [(''CANARDSTACK_GRPC_ENABLED'', ''true'')]) no_file) =
     ''CANARDSTACK_GRPC_ENABLED is no longer supported; canardstack is query-only''"
  "error_of (Config_from_env (env_of [(''CANARDSTACK_LOCAL_CATALOG_ENABLED'', ''true'')]) no_file) =
     ''CANARDSTACK_LOCAL_CATALOG_ENABLED is no longer supported; use an external DuckDB catalog/writer''"
proof -
  have "to_ascii_lowercase (trim ''true'') = ''true''" by code_simp
  then show
    "error_of (Config_from_env (env_of [(''CANARDSTACK_GRPC_ENABLED'', ''true'')]) no_file) =
       ''CANARDSTACK_GRPC_ENABLED is no longer supported; canardstack is query-only''"
    "error_of (Config_from_env (env_of [(''CANARDSTACK_LOCAL_CATALOG_ENABLED'', ''true'')]) no_file) =
       ''CANARDSTACK_LOCAL_CATALOG_ENABLED is no longer supported; use an external DuckDB catalog/writer''"
    by (simp_all add: Config_from_env_def OperatorConfig_from_env_def reading test_inputs error_of_def)
qed

definition test_config :: "(OperatorConfig \<Rightarrow> OperatorConfig) \<Rightarrow> Config" where
  "test_config change = \<lparr>operator = change (OperatorConfig_test ''test.duckdb'' ''./storage'')\<rparr>"

lemma checked_texts:
  "trim ''test-key'' \<noteq> []" "trim ''test-admin-key'' \<noteq> []" "trim ''512MiB'' \<noteq> []"
  "starts_with (trim ''md:test-ducklake'') ''ducklake:quack:'' = False"
  "starts_with (trim ''ducklake:quack:catalog.internal:443'') ''ducklake:quack:''"
  by code_simp+

lemmas config_checks = Config_validate_def validate_operator_def validate_tls_def ensure_def uses_quack_def token_missing_def
  test_config_def OperatorConfig_test_def error_of_def checked_texts

lemma quack_insecure_tls_requires_quack_attach_uri:
  "error_of (Config_validate (test_config (\<lambda>c. c\<lparr>ducklake_quack_insecure_tls := True,
       ducklake_attach_uri := Some ''md:test-ducklake''\<rparr>))) =
     ''CANARDSTACK_DUCKLAKE_QUACK_INSECURE_TLS=true has no effect unless CANARDSTACK_DUCKLAKE_ATTACH_URI uses ducklake:quack:; unset one of them''"
  by (simp add: config_checks)

lemma quack_attach_uri_requires_token:
  "error_of (Config_validate (test_config (\<lambda>c. c\<lparr>ducklake_attach_uri := Some ''ducklake:quack:catalog.internal:443''\<rparr>))) =
     ''CANARDSTACK_DUCKLAKE_QUACK_TOKEN must be set when CANARDSTACK_DUCKLAKE_ATTACH_URI uses ducklake:quack:''"
  by (simp add: config_checks)

lemma query_concurrency_must_leave_heavy_slot:
  "error_of (Config_validate (test_config (\<lambda>c. c\<lparr>query_interactive := (query_interactive c)\<lparr>concurrency := 1\<rparr>,
       cheap_query_admission_capacity := 1\<rparr>))) =
     ''CANARDSTACK_QUERY_CONCURRENCY must leave at least one heavy query slot after cheap-query admission reservations''"
  by (simp add: config_checks)

section \<open>Admission (\<^verbatim>\<open>admission_control.rs\<close>)\<close>

definition test_controller :: AdmissionController where
  "test_controller = admission_new (test_config (\<lambda>c. c))"

fun reservations :: "QueryClass list \<Rightarrow> AdmissionState \<Rightarrow> (nat \<times> string) list \<times> AdmissionState" where
  "reservations [] st = ([], st)"
| "reservations (c # cs) st =
     (case reserve_query test_controller c 0 st of
        (r, st', evs) \<Rightarrow>
          apfst ((@) (case r of Some (Inl e) \<Rightarrow> [(status e, reason e)] | _ \<Rightarrow> [])) (reservations cs st'))"

lemmas admitting = reserve_query_def reserve_waiting_def instant_add_def reserve_attempt_def test_controller_def admission_new_def test_config_def
  OperatorConfig_test_def initial_admission_def reject_query_def ApiError_new_def with_retry_after_def

lemma cheap_and_heavy_queries_use_separate_capacity:
  "fst (reservations [Cheap, Heavy, Heavy, Heavy, Heavy, Cheap] initial_admission) =
     [(429, ''heavy_query_admission_full''), (429, ''cheap_query_admission_full'')]"
  by (simp add: admitting)

lemma query_waits_for_capacity_before_rejecting:
  "let full = snd (reservations [Cheap] initial_admission) in
   fst (reserve_attempt test_controller Cheap 250 250 0 full) = Sleep 250 \<and>
   fst (reserve_attempt test_controller Cheap 250 250 20 (release_slot Cheap full)) = Admitted"
  by (simp add: admitting)

lemma snapshot_reports_active_and_capacity:
  "admission_snapshot test_controller (snd (reservations [Cheap] initial_admission)) =
     \<lparr>snap_cheap_active = 1, snap_cheap_capacity = 1, snap_heavy_active = 0, snap_heavy_capacity = 3,
      snap_rejections = 0\<rparr>"
  by (simp add: admitting admission_snapshot_def snapshot_from_state_def)

section \<open>Schema versions (\<^verbatim>\<open>storage/schema.rs\<close>)\<close>

definition booted :: "Catalog \<Rightarrow> (BootError + unit) \<times> Catalog" where
  "booted cat = enforce_schema_version_on (\<lambda>_. None) [] cat"

definition fresh_catalog :: Catalog where
  "fresh_catalog = \<lparr>ddl = [], meta = None, ticks = 0\<rparr>"

definition stamped :: "nat \<Rightarrow> Catalog" where
  "stamped v = put_meta ''schema_version'' (show_nat v) (snd (booted fresh_catalog))"

definition option_map_of :: "(string \<times> 'v) list option \<Rightarrow> string \<Rightarrow> 'v option" where
  "option_map_of rows key = Option.bind rows (\<lambda>rs. map_of rs key)"

lemmas booting = booted_def stamped_def fresh_catalog_def enforce_schema_version_on_def boot_bind_def boot_ok_def
  boot_fail_def create_meta_table_def settle_version_def check_version_def record_provenance_def statement_on_def
  read_meta_value_def set_meta_if_changed_def put_meta_def SCHEMA_VERSION_def MIN_COMPATIBLE_SCHEMA_VERSION_def

lemma version_texts:
  "trim (show_nat 2) = ''2''" "trim (show_nat 3) = ''3''" "trim (show_nat 4) = ''4''"
  "parse_unsigned U32_MAX ''2'' = Some 2" "parse_unsigned U32_MAX ''3'' = Some 3" "parse_unsigned U32_MAX ''4'' = Some 4"
proof -
  have shown: "show_nat 2 = ''2''" "show_nat 3 = ''3''" "show_nat 4 = ''4''" by code_simp+
  have "trim ''2'' = ''2''" "trim ''3'' = ''3''" "trim ''4'' = ''4''" by code_simp+
  then show "trim (show_nat 2) = ''2''" "trim (show_nat 3) = ''3''" "trim (show_nat 4) = ''4''"
    by (simp_all only: shown)
  show "parse_unsigned U32_MAX ''2'' = Some 2" "parse_unsigned U32_MAX ''3'' = Some 3" "parse_unsigned U32_MAX ''4'' = Some 4"
    using parse_unsigned_show [of 2 U32_MAX] parse_unsigned_show [of 3 U32_MAX] parse_unsigned_show [of 4 U32_MAX]
    by (simp_all add: shown)
qed

lemma schema_version_guard_stamps_and_fails_closed:
  "fst (booted fresh_catalog) = Inr ()"
  "option_map_of (meta (snd (booted fresh_catalog))) ''schema_version'' = Some (Some (show_nat SCHEMA_VERSION))"
  "option_map_of (meta (snd (booted fresh_catalog))) ''canardstack_version'' = Some (Some CARGO_PKG_VERSION)"
  "option_map_of (meta (snd (booted fresh_catalog))) ''otlp2records_schema_fingerprint'' \<noteq> None"
  "fst (booted (snd (booted fresh_catalog))) = Inr ()"
  "fst (booted (stamped (SCHEMA_VERSION + 1))) = Inl (VersionTooNew 4)"
  "fst (booted (stamped (MIN_COMPATIBLE_SCHEMA_VERSION - 1))) = Inl (VersionTooOld 2)"
  using version_texts by (simp_all add: booting option_map_of_def)

section \<open>Routes (\<^verbatim>\<open>http/router.rs\<close>)\<close>

lemma ingest_route_is_not_served:
  "map_option resp_status (fst (route_borrowed svc ''POST'' ''/v1/logs'' [] [] [] s)) = Some 404"
proof -
  have "match_compat_route ''POST'' ''/v1/logs'' = None" by code_simp
  then show ?thesis by (simp add: route_inner_def from_api_error_def response_json_def)
qed

section \<open>Metrics (\<^verbatim>\<open>metrics.rs\<close>)\<close>

definition int_floats :: "int FloatOps" where
  "int_floats = \<lparr>float_zero = 0, float_add = (+), float_of_u64 = uint, float_fixed6 = (\<lambda>_. ''0.000000'')\<rparr>"

lemma rejects_unknown_label_keys: "metric_gauge AdmissionCapacity [(''kind'', ''cheap'')] v m = None"
proof -
  have "\<not> validate_metric_labels AdmissionCapacity [(''kind'', ''cheap'')]" by code_simp
  then show ?thesis by (simp add: metric_gauge_def)
qed

definition representative_surface :: "int metric_op list" where
  "representative_surface =
     [QueryOp ''/api/v1/query_range'' 200 ''ok'' 0, QueryOp ''/api/v1/query_range'' 504 ''query_timeout'' 0,
      PhaseOp ''/api/v1/query_range'' ''query_execute'' 0,
      GaugeOp AdmissionCapacity [(''admission'', ''query_cheap'')] 1,
      GaugeOp AdmissionInUse [(''admission'', ''query_cheap'')] 0,
      IncOp AdmissionRejectionsTotal [(''admission'', ''query''), (''reason'', ''heavy_query_admission_full'')] 1,
      GaugeOp StoragePhysicalBytes [(''storage_signal'', ''all'')] 0,
      GaugeOp StorageLogicalRows [(''storage_signal'', ''logs'')] 0,
      GaugeOp DucklakeActiveDataFiles [(''storage_signal'', ''logs'')] 0,
      GaugeOp DucklakeActiveDataFileRows [(''storage_signal'', ''logs'')] 0,
      GaugeOp FreshnessWatermarkTimestamp [(''storage_signal'', ''logs'')] 0,
      IncOp HttpConnectionRequestsTotal [(''mode'', ''keep_alive'')] 1,
      IncOp HttpConnectionClosesTotal [(''reason'', ''client'')] 1,
      IncOp HttpConnectionErrorsTotal [(''reason'', ''io_error'')] 1]"

text \<open>The names recorded, by the unsharded registry that the sharded one agrees with.\<close>

lemma representative_metric_surface_matches_registry:
  "map_option (\<lambda>r. (remdups (map (id_name \<circ> fst) (counters r)), remdups (map (id_name \<circ> fst) (gauges r))))
     (run_ops (flat_step int_floats) representative_surface empty_inner) = Some
     ([''canardstack_admission_rejections_total'',
       ''canardstack_http_connection_closes_total'',
       ''canardstack_http_connection_errors_total'',
       ''canardstack_http_connection_requests_total'',
       ''canardstack_phase_duration_seconds_count'',
       ''canardstack_query_duration_seconds_count'',
       ''canardstack_query_requests_total'',
       ''canardstack_query_timeouts_total''],
      [''canardstack_admission_capacity'',
       ''canardstack_admission_in_use'',
       ''canardstack_ducklake_active_data_file_rows'',
       ''canardstack_ducklake_active_data_files'',
       ''canardstack_freshness_watermark_timestamp'',
       ''canardstack_phase_duration_seconds_sum'',
       ''canardstack_query_duration_seconds_sum'',
       ''canardstack_storage_logical_rows'',
       ''canardstack_storage_physical_bytes''])"
  by code_simp

lemma snapshot_preserves_metric_kind:
  "sample_kind (counter_sample nm ls v) = CounterKind \<and> sample_kind (gauge_sample nm ls v) = GaugeKind"
  by (simp add: counter_sample_def gauge_sample_def)

end
