(* ===== verification/Spec2Isabelle.thy ===== *)
theory Spec2Isabelle
  imports PromQL LogQL Query_Engine Discovery Server Compat_Prometheus Compat_Loki Compat_Tempo
    Tls_Identity Tls_Proxy Terminator DuckLake Schema Query_Timer Process Client Listener Health App Startup Unit_Tests
begin

text \<open>
  A model of canardstack (\<^verbatim>\<open>src/src/\<close>), an HTTP server that answers Loki, Prometheus and
  Tempo queries from OpenTelemetry tables in DuckLake, read through DuckDB.

  \<^bold>\<open>The program.\<close> \<^verbatim>\<open>main.rs\<close> reads a command and its options and starts the
  server or a health check. Starting reads the configuration, opens the store (attaches the
  catalog, makes its tables, checks its version) and serves connections, behind a TLS proxy
  when asked. A connection's thread reads requests, routes each, and answers in order. A
  query route checks the key, waits for an admission slot of its class, reads parameters into
  a plan, prints the plan as one SQL statement, runs it on a cloned database connection under
  a timer, and shapes the rows as the protocol's JSON or protobuf. Discovery routes answer
  from a summary table through a cache. Metrics, probes and health documents report on all of
  it.

  \<^bold>\<open>Foundations.\<close>
  \<^item> \<open>Prelude\<close>: results as sums and their \<open>result_simps\<close>, generic list lemmas.
  \<^item> \<open>Rust_Str\<close>, \<open>Text\<close>: the string functions of the standard library on
    lists of characters, one per UTF-8 byte; printing and parsing of integers.
  \<^item> \<open>BTree\<close>, \<open>Series\<close>: ordered maps as sorted association lists, and
    rows grouped into series; \<open>Api_Error\<close>, \<open>Sql\<close>: errors, quoting, and the
    code of a statement, which is what remains of it outside its literals.

  \<^bold>\<open>Queries.\<close>
  \<^item> \<open>Label_Table\<close>, \<open>Semantic_Labels\<close> (\<^verbatim>\<open>semantic_labels.rs\<close>): the
    registry of labels, verbatim, and its resolution: every alias means one label.
  \<^item> \<open>Plan\<close> (\<^verbatim>\<open>query/plan.rs\<close>): selectors and matchers; printing and
    parsing are inverse, and a conflict of matchers is refused exactly when there is one.
  \<^item> \<open>PromQL\<close>, \<open>LogQL\<close> (\<^verbatim>\<open>query/prometheus.rs\<close>,
    \<^verbatim>\<open>query/log.rs\<close>, \<^verbatim>\<open>query/trace.rs\<close>): the query languages, sound for
    the plans they give.
  \<^item> \<open>Query_Engine\<close> (\<^verbatim>\<open>query/mod.rs\<close>, \<^verbatim>\<open>db/sql.rs\<close>): plans to SQL; the
    values of a request stay inside literals, and bear on the code of a statement only by the
    shape of their matchers and filters. \<open>Query_Timer\<close>
    (\<^verbatim>\<open>storage/query_conn.rs\<close>): a query and its timer, as steps of two threads.
  \<^item> \<open>Discovery_Cache\<close>, \<open>Discovery\<close> (\<^verbatim>\<open>metadata.rs\<close>): the cache
    refines a list of the keys stored last; what it answers was true of the database at an
    earlier request, however the database changes, and here can be as old as the process.
  \<^item> \<open>Compat_Params\<close>, \<open>Compat_Prometheus\<close>, \<open>Compat_Loki\<close>,
    \<open>Compat_Tempo\<close> (\<^verbatim>\<open>compat/\<close>): parameters to plans and rows to answers.

  \<^bold>\<open>The server.\<close>
  \<^item> \<open>Config\<close>, \<open>Validation\<close>: settings from the environment and the file,
    their checks; keys, ranges and limits.
  \<^item> \<open>Admission\<close> (\<^verbatim>\<open>admission_control.rs\<close>): the slots, and all
    interleavings of waiting, admitted and notified threads.
  \<^item> \<open>Http_Parser\<close>, \<open>Response\<close>, \<open>Routes\<close>, \<open>Server\<close>,
    \<open>Listener\<close> (\<^verbatim>\<open>http/\<close>): bytes to requests, routing over an interface of
    services, connections, and the accept loop with its counter and drain.
  \<^item> \<open>Metrics\<close> (\<^verbatim>\<open>metrics.rs\<close>): the sharded registry refines one pair of maps.
  \<^item> \<open>Tls_Identity\<close>, \<open>Tls_Proxy\<close>, \<open>Terminator\<close> (\<^verbatim>\<open>tls.rs\<close>): PEM
    files; the pump between client and server, which refines two pipes; and the accepting
    thread with the threads of its connections, behind which a client gets the answers of
    the plaintext server.
  \<^item> \<open>Process\<close>, \<open>Client\<close> (\<^verbatim>\<open>main.rs\<close>, \<^verbatim>\<open>logging.rs\<close>,
    \<^verbatim>\<open>cli/\<close>): commands, log lines, the health check and the client.

  \<^bold>\<open>The store.\<close>
  \<^item> \<open>DuckLake\<close>, \<open>Schema\<close>, \<open>Storage\<close> (\<^verbatim>\<open>storage/\<close>): the
    attach statements, the tables and the version of a catalog, opening it all, with the
    first error that stops it.
  \<^item> \<open>Health\<close> (\<^verbatim>\<open>storage/health.rs\<close>): probes, health documents, the
    gauges read from them, and the race of two probes.

  \<^bold>\<open>The whole.\<close> \<open>Router_Laws\<close> states what the router and a connection keep,
  over any services that keep it; \<open>App\<close> (\<^verbatim>\<open>app.rs\<close>) provides the services
  from the components above and interprets those laws, and the admission interface of
  \<open>Routes\<close>, on them. Its theorems are about requests as bytes on a connection.
  \<open>Startup\<close> (\<^verbatim>\<open>main.rs\<close>) is the way there from the command line, in a
  build with the \<^verbatim>\<open>tls\<close> feature and in one without.
  \<open>Unit_Tests\<close> runs the repository's own unit tests on the model: every lemma of it
  has the kernel compute what a test of \<^verbatim>\<open>src/src/\<close> expects.

  \<^bold>\<open>How the code is read.\<close> A struct is a record and an enum a datatype; a machine
  integer is a word where it can wrap, as it does in a release build, and a number with its
  bound written out where the code checks it. A \<open>Result\<close> is a sum with the error on the left; code that may panic
  returns an option, \<open>None\<close> being the panic, and an action on a state returns the state
  also then, because guards are dropped on the way out. That holds of the assertions in the
  metrics and of the clock in a wait for a slot too: every service that may panic is an
  action, and \<open>App\<close> proves which ones do. Threads that share a lock are step
  relations in which every critical section is one step; their theorems are by rule
  induction. All other code is total functions: loops end by measures (the bytes left, the
  requests left of 10,000, the text left), so there is no fuel anywhere.

  \<^bold>\<open>Assumed of what is not under \<^verbatim>\<open>src/\<close>.\<close> The database, the clock, the
  time library, JSON printing and parsing, floating point, the protobuf encoder, the file
  system, TLS sessions and the environment are fields of records (\<open>QueryEnv\<close>,
  \<open>MetaEnv\<close>, \<open>TraceEnv\<close>, \<open>Library\<close>, \<open>Reader\<close>,
  \<open>Numbers\<close>, \<open>FloatOps\<close>, \<open>Host\<close>, \<open>Outside\<close>). Where a theorem
  needs a law of one, it is a named hypothesis: that times print alike exactly when they are
  equal to the printed precision, that JSON reads back what it printed. Arithmetic on times
  may leave the range of the time library, and the end of a wait that of the monotonic clock,
  whose seconds are a signed 64-bit number as on Linux; both panic, and one theorem says that
  nothing else in a request does.

  \<^bold>\<open>Not modelled.\<close> Sockets beyond the bytes they deliver (writes to the plaintext socket are taken to succeed), DNS, signals and thread
  creation; TOML text (the parsed table is a parameter); the interior of the tracing
  library; resident memory on macOS; the tests that need a database, sockets
  or a certificate library, and \<^verbatim>\<open>tests/\<close>; the helper
  that steps over a poisoned mutex, since a lock here is a step. A request in \<open>App\<close> runs
  against one state of the outside world, and requests of different connections do not
  interleave there: what interleaving does is in \<open>Admission\<close>, \<open>Query_Timer\<close>,
  \<open>Listener\<close>, \<open>Terminator\<close> and \<open>Health\<close>.

  \<^bold>\<open>What the model shows wrong.\<close> Lemmas at the ends of the theories pin down where the
  code departs from its purpose, among them a lost wake-up in admission, a timeout lost to a
  spurious wake-up, a proxy that spins when its backend is gone, a
  terminator that silent clients close for good, an end time and a
  configured wait that panic a request, and matchers that split at an operator inside a quoted value.
\<close>

end
